theory Spec2Isabelle
  imports Complex_Main "HOL-Library.Sublist"
begin

section \<open>JavaScript strings and numbers used by camera.ts\<close>

text \<open>
  Strings are \<open>char list\<close>s of the decoded text (ASCII). A JavaScript value that may be
  \<open>undefined\<close> is an \<open>option\<close>. Numbers that the code only passes around or prints
  (widths, ports, frame rates) are \<open>int\<close>; the results of \<open>parseInt\<close> and
  \<open>parseFloat\<close> are \<open>js_number\<close>, with exact rational values (the rounding to
  binary64 is not part of the model). Time is in milliseconds, as a rational.
\<close>

datatype js_number = NaN | Num rat | PosInfinity | NegInfinity

type_synonym buffer = "nat list"

definition js_whitespace :: "char \<Rightarrow> bool" where
  "js_whitespace c \<longleftrightarrow>
     c = CHR 0x09 \<or> c = CHR 0x0A \<or> c = CHR 0x0B \<or> c = CHR 0x0C \<or> c = CHR 0x0D \<or> c = CHR 0x20"

fun index_of :: "'a \<Rightarrow> 'a list \<Rightarrow> nat option" where
  "index_of x [] = None"
| "index_of x (y # ys) =
     (if x = y then Some 0 else (case index_of x ys of None \<Rightarrow> None | Some i \<Rightarrow> Some (Suc i)))"

definition radix_digit :: "nat \<Rightarrow> char \<Rightarrow> nat option" where
  "radix_digit R c =
     (if R = 16 then
        (case index_of c ''0123456789abcdef'' of
           Some d \<Rightarrow> Some d
         | None \<Rightarrow> index_of c ''0123456789ABCDEF'')
      else index_of c ''0123456789'')"

definition is_digit :: "char \<Rightarrow> bool" where
  "is_digit c \<longleftrightarrow> radix_digit 10 c \<noteq> None"

fun digits_value :: "nat \<Rightarrow> nat \<Rightarrow> string \<Rightarrow> nat" where
  "digits_value R acc [] = acc"
| "digits_value R acc (c # cs) =
     digits_value R (acc * R + (case radix_digit R c of Some d \<Rightarrow> d | None \<Rightarrow> 0)) cs"

text \<open>\<open>ToString\<close> of a string-or-undefined argument.\<close>

definition to_string :: "string option \<Rightarrow> string" where
  "to_string v = (case v of None \<Rightarrow> ''undefined'' | Some s \<Rightarrow> s)"

definition strip_sign :: "string \<Rightarrow> bool \<times> string" where
  "strip_sign s =
     (case s of
        [] \<Rightarrow> (False, [])
      | c # cs \<Rightarrow> if c = CHR ''-'' then (True, cs) else if c = CHR ''+'' then (False, cs) else (False, s))"

text \<open>
  \<open>parseInt(v)\<close> with no radix: leading white space is skipped, a sign and a \<open>0x\<close> prefix are
  read, then the longest run of digits; no digit gives \<open>NaN\<close>.
\<close>

definition parseInt :: "string option \<Rightarrow> js_number" where
  "parseInt v =
     (let (neg, s1) = strip_sign (dropWhile js_whitespace (to_string v));
          hex = (prefix ''0x'' s1 \<or> prefix ''0X'' s1);
          s2 = (if hex then drop 2 s1 else s1);
          R = (if hex then 16 else 10);
          Z = takeWhile (\<lambda>c. radix_digit R c \<noteq> None) s2
      in if Z = [] then NaN
         else Num ((if neg then - 1 else 1) * of_nat (digits_value R 0 Z)))"

text \<open>The exponent part \<open>[eE][+-]?digits\<close> of a decimal literal; 0 when there is none.\<close>

definition exponent_part :: "string \<Rightarrow> int" where
  "exponent_part s =
     (case s of
        [] \<Rightarrow> 0
      | c # cs \<Rightarrow>
          if c = CHR ''e'' \<or> c = CHR ''E'' then
            (let (neg, ds) = strip_sign cs; Z = takeWhile is_digit ds
             in if Z = [] then 0
                else (if neg then - 1 else 1) * int (digits_value 10 0 Z))
          else 0)"

text \<open>
  \<open>parseFloat(v)\<close>: the longest prefix that is a decimal literal (sign, \<open>Infinity\<close>, or
  digits with an optional fraction and exponent); none gives \<open>NaN\<close>.
\<close>

definition parseFloat :: "string option \<Rightarrow> js_number" where
  "parseFloat v =
     (let (neg, s1) = strip_sign (dropWhile js_whitespace (to_string v))
      in if prefix ''Infinity'' s1 then (if neg then NegInfinity else PosInfinity)
         else
           (let ip = takeWhile is_digit s1;
                r1 = dropWhile is_digit s1;
                dot = (r1 \<noteq> [] \<and> hd r1 = CHR ''.'');
                fp = (if dot then takeWhile is_digit (tl r1) else []);
                r2 = (if dot then dropWhile is_digit (tl r1) else r1)
            in if ip = [] \<and> fp = [] then NaN
               else Num ((if neg then - 1 else 1)
                         * (of_nat (digits_value 10 0 ip)
                            + of_nat (digits_value 10 0 fp) / 10 ^ length fp)
                         * power_int 10 (exponent_part r2))))"

text \<open>\<open>String.prototype.trim\<close>.\<close>

definition trim :: "string \<Rightarrow> string" where
  "trim s = rev (dropWhile js_whitespace (rev (dropWhile js_whitespace s)))"

text \<open>\<open>s.split(c)\<close> for a one-character separator: never the empty list.\<close>

fun split_char :: "char \<Rightarrow> string \<Rightarrow> string list" where
  "split_char sep [] = [[]]"
| "split_char sep (c # cs) =
     (if c = sep then [] # split_char sep cs
      else (case split_char sep cs of
              [] \<Rightarrow> [[c]]
            | p # ps \<Rightarrow> (c # p) # ps))"

text \<open>\<open>s.split(/\r?\n/)\<close>: a line ends at LF or at CR LF.\<close>

fun split_lines :: "string \<Rightarrow> string list" where
  "split_lines [] = [[]]"
| "split_lines [c] = (if c = CHR 0x0A then [[], []] else [[c]])"
| "split_lines (c # d # cs) =
     (if c = CHR 0x0A then [] # split_lines (d # cs)
      else if c = CHR 0x0D \<and> d = CHR 0x0A then [] # split_lines cs
      else (case split_lines (d # cs) of
              [] \<Rightarrow> [[c]]
            | p # ps \<Rightarrow> (c # p) # ps))"

text \<open>\<open>xs.join(sep)\<close>.\<close>

fun join :: "string \<Rightarrow> string list \<Rightarrow> string" where
  "join sep [] = []"
| "join sep [x] = x"
| "join sep (x # y # ys) = x @ sep @ join sep (y # ys)"

text \<open>Decimal printing of an integer, as in a template string.\<close>

fun show_nat :: "nat \<Rightarrow> string" where
  "show_nat n =
     (if n < 10 then [''0123456789'' ! n]
      else show_nat (n div 10) @ [''0123456789'' ! (n mod 10)])"

declare show_nat.simps [simp del]

definition show_int :: "int \<Rightarrow> string" where
  "show_int i = (if i < 0 then CHR ''-'' # show_nat (nat (- i)) else show_nat (nat i))"

section \<open>FFmpegProcess.parseProgress\<close>

record FFmpegProgress =
  frame :: js_number
  fps :: js_number
  streamQ :: js_number
  bitrate :: js_number
  totalSize :: js_number
  outTimeMicroseconds :: js_number
  outTime :: string
  duplicateFrames :: js_number
  dropFrames :: js_number
  speed :: js_number
  progress :: string

datatype js_error = TypeError string | Error string

text \<open>
  The \<open>Map<string, string>\<close> filled by the \<open>forEach\<close>: \<open>line.split("=", 2)\<close> keeps the
  first two pieces; \<open>split[1]\<close> is \<open>undefined\<close> for a line with no \<open>=\<close>, and a later
  line overwrites an earlier one with the same key.
\<close>

type_synonym progress_map = "string \<rightharpoonup> string option"

definition set_line :: "progress_map \<Rightarrow> string \<Rightarrow> progress_map" where
  "set_line m line =
     (let split = take 2 (split_char (CHR ''='') line)
      in m(hd split \<mapsto> (if length split < 2 then None else Some (split ! 1))))"

definition progress_of :: "string \<Rightarrow> progress_map" where
  "progress_of input = foldl set_line Map.empty (split_lines input)"

text \<open>\<open>progress.get(k)!\<close>: the non-null assertion is erased at run time.\<close>

definition get_field :: "progress_map \<Rightarrow> string \<Rightarrow> string option" where
  "get_field m k = (case m k of None \<Rightarrow> None | Some v \<Rightarrow> v)"

text \<open>\<open>x.trim()\<close> where \<open>x\<close> may be \<open>undefined\<close>: the only expression of the block that throws.\<close>

definition trim_of :: "string option \<Rightarrow> js_error + string" where
  "trim_of v =
     (case v of
        None \<Rightarrow> Inl (TypeError ''Cannot read properties of undefined (reading 'trim')'')
      | Some s \<Rightarrow> Inr (trim s))"

text \<open>The body of the \<open>try\<close>: the fields are evaluated in the order of the object literal.\<close>

definition build_progress :: "progress_map \<Rightarrow> js_error + FFmpegProgress" where
  "build_progress m =
     (case trim_of (get_field m ''out_time'') of
        Inl e \<Rightarrow> Inl e
      | Inr ot \<Rightarrow>
          (case trim_of (get_field m ''progress'') of
             Inl e \<Rightarrow> Inl e
           | Inr pr \<Rightarrow>
               Inr \<lparr> frame = parseInt (get_field m ''frame''),
                     fps = parseFloat (get_field m ''fps''),
                     streamQ = parseFloat (get_field m ''stream_0_0q''),
                     bitrate = parseFloat (get_field m ''bitrate''),
                     totalSize = parseInt (get_field m ''total_size''),
                     outTimeMicroseconds = parseInt (get_field m ''out_time_us''),
                     outTime = ot,
                     duplicateFrames = parseInt (get_field m ''dup_frames''),
                     dropFrames = parseInt (get_field m ''drop_frames''),
                     speed = parseFloat (get_field m ''speed''),
                     progress = pr \<rparr>))"

text \<open>
  \<open>parseProgress\<close>: \<open>input.indexOf("frame=") === 0\<close> is "starts with"; the \<open>catch\<close>
  turns every exception of the body into \<open>undefined\<close>.
\<close>

definition parseProgress :: "string \<Rightarrow> FFmpegProgress option" where
  "parseProgress input =
     (if prefix ''frame='' input then
        (case build_progress (progress_of input) of
           Inl e \<Rightarrow> None
         | Inr p \<Rightarrow> Some p)
      else None)"

section \<open>Configuration and ResolutionPlanner (determineResolution)\<close>

record VideoConfig =
  maxStreams :: "int option"
  maxWidth :: "int option"
  maxHeight :: "int option"
  codec :: "string option"
  packetSize :: "int option"
  forceMax :: bool
  videoFilter :: "string option"
  encoderOptions :: "string option"
  mapVideo :: "string option"
  mapAudio :: "string option"
  audio :: bool
  returnAudioTarget :: "string option"

text \<open>The configuration that the constructor of \<open>CameraAccessories\<close> builds.\<close>

definition defaultVideoConfig :: VideoConfig where
  "defaultVideoConfig =
     \<lparr> maxStreams = Some 2, maxWidth = Some 1280, maxHeight = Some 720,
       codec = Some ''libx264'', packetSize = Some 1316, forceMax = True,
       videoFilter = None, encoderOptions = None, mapVideo = None, mapAudio = None,
       audio = False, returnAudioTarget = None \<rparr>"

text \<open>
  \<open>SnapshotRequest\<close> has a width and a height; \<open>VideoInfo\<close> and \<open>ResolutionInfo\<close> have
  them too, so both extend it and \<open>width\<close>, \<open>height\<close> read all three. The field
  \<open>videoFilter\<close> of \<open>ResolutionInfo\<close> is \<open>streamFilter\<close> here (the configuration has a
  \<open>videoFilter\<close> of its own).
\<close>

record SnapshotRequest =
  width :: int
  height :: int

record ResolutionInfo = SnapshotRequest +
  streamFilter :: "string option"
  snapshotFilter :: "string option"
  resizeFilter :: "string option"

text \<open>\<open>this.videoConfig.videoFilter?.split(",") || []\<close>.\<close>

definition configured_filters :: "VideoConfig \<Rightarrow> string list" where
  "configured_filters cfg =
     (case videoFilter cfg of None \<Rightarrow> [] | Some f \<Rightarrow> split_char (CHR '','') f)"

definition scale_filter :: "int \<Rightarrow> int \<Rightarrow> string" where
  "scale_filter w h =
     ''scale=''
     @ (if w > 0 then [CHR 0x27] @ ''min('' @ show_int w @ '',iw)'' @ [CHR 0x27] else ''iw'')
     @ '':''
     @ (if h > 0 then [CHR 0x27] @ ''min('' @ show_int h @ '',ih)'' @ [CHR 0x27] else ''ih'')
     @ '':force_original_aspect_ratio=decrease''"

definition determineResolution ::
  "VideoConfig \<Rightarrow> 'a SnapshotRequest_scheme \<Rightarrow> bool \<Rightarrow> ResolutionInfo" where
  "determineResolution cfg request isSnapshot =
     (let w = (if \<not> isSnapshot then
                 (case maxWidth cfg of
                    Some mw \<Rightarrow> if forceMax cfg \<or> width request > mw then mw else width request
                  | None \<Rightarrow> width request)
               else width request);
          h = (if \<not> isSnapshot then
                 (case maxHeight cfg of
                    Some mh \<Rightarrow> if forceMax cfg \<or> height request > mh then mh else height request
                  | None \<Rightarrow> height request)
               else height request);
          filters0 = configured_filters cfg;
          noneFilter = index_of ''none'' filters0;
          filters1 = (case noneFilter of
                        Some i \<Rightarrow> take i filters0 @ drop (Suc i) filters0
                      | None \<Rightarrow> filters0);
          resize = (if noneFilter = None \<and> (w > 0 \<or> h > 0) then Some (scale_filter w h) else None);
          filters2 = (case resize of
                        Some r \<Rightarrow> filters1 @ [r, ''scale=trunc(iw/2)*2:trunc(ih/2)*2'']
                      | None \<Rightarrow> filters1)
      in \<lparr> width = w, height = h,
           streamFilter = (if filters2 \<noteq> [] then Some (join '','' filters2) else None),
           snapshotFilter = Some (join '','' filters1),
           resizeFilter = resize \<rparr>)"

section \<open>The state of one camera accessory and its streaming delegate\<close>

text \<open>
  camera.ts runs on one event loop. The model is a state record and one function per
  handler of the source; a closure that the source registers (a timer callback, a socket
  or process listener) is the data it captured, and the event that runs it is a
  constructor of \<open>event\<close> below. Objects that the source shares by reference (the
  \<open>ActiveSession\<close> held by the map and by the socket's listener, timers, sockets,
  processes, promises) live in stores indexed by a handle.
\<close>

type_synonym handle = nat
type_synonym time = rat

datatype log_level = Debug | Info | Warn | Err

datatype log_entry = Log log_level string | LogRuntime log_level string time

record VisitorOnCameraInfo =
  index :: int
  cameraLocation :: string
  date :: string
  mediaType :: string
  isNew :: bool
  snapshot :: "buffer option"

text \<open>
  \<open>CameraAccessoryInterface\<close>; \<open>deviceID\<close>, \<open>displayName\<close> and \<open>init\<close> are the fields of
  \<open>AccessoryInterface\<close> that camera.ts uses. The accessory's own \<open>cameraLocation\<close> is
  \<open>accessoryLocation\<close> here.
\<close>

record CameraAccessoryInterface =
  deviceID :: string
  displayName :: string
  init :: bool
  accessoryLocation :: string
  motionTimer :: "handle option"
  motionOnCamera :: bool
  visitorInfo :: "VisitorOnCameraInfo option"

record SessionInfo =
  address :: string
  ipv6 :: bool
  videoPort :: int
  videoReturnPort :: int
  videoCryptoSuite :: int
  videoSRTP :: buffer
  videoSSRC :: int
  audioPort :: int
  audioReturnPort :: int
  audioCryptoSuite :: int
  audioSRTP :: buffer
  audioSSRC :: int

record ActiveSession =
  mainProcess :: "handle option"
  returnProcess :: "handle option"
  timeout :: "handle option"
  feedInterval :: "handle option"
  socket :: "handle option"

definition emptySession :: ActiveSession where
  "emptySession =
     \<lparr> mainProcess = None, returnProcess = None, timeout = None, feedInterval = None,
       socket = None \<rparr>"

text \<open>The requests of the hub, with the fields that camera.ts reads.\<close>

datatype AudioStreamingCodecType = PCMU | PCMA | AAC_ELD | OPUS | MSBC | AMR | AMR_WB

record VideoInfo = SnapshotRequest +
  video_fps :: int
  video_max_bit_rate :: int
  video_pt :: int
  rtcp_interval :: rat
  mtu :: int

record AudioInfo =
  audio_codec :: AudioStreamingCodecType
  sample_rate :: int
  audio_max_bit_rate :: int
  channel :: int
  audio_pt :: int

record StartStreamRequest =
  sessionID :: string
  video :: VideoInfo
  audioInfo :: AudioInfo

record Source =
  port :: int
  srtpCryptoSuite :: int
  srtp_key :: buffer
  srtp_salt :: buffer

record PrepareStreamRequest =
  prepareSessionID :: string
  targetAddress :: string
  addressVersion :: string
  prepareVideo :: Source
  prepareAudio :: Source

record ResponseSource =
  responsePort :: int
  ssrc :: int
  response_key :: buffer
  response_salt :: buffer

record PrepareStreamResponse =
  responseVideo :: ResponseSource
  responseAudio :: ResponseSource

datatype StreamingRequest =
    START StartStreamRequest
  | STOP string
  | RECONFIGURE StartStreamRequest

text \<open>What the accessory does to the outside: callbacks it invokes and calls into the hub.\<close>

datatype effect =
    StreamCallback nat "js_error option"
  | PrepareCallback nat PrepareStreamResponse
  | SnapshotCallback nat "buffer option"
  | ForceStopStreamingSession string
  | SetMotionDetected bool
  | MotionDetectedCallback nat bool

text \<open>The callbacks of the timers that the source arms, with what each closure captured.\<close>

datatype timer_action =
    InactivityTimeout string
  | FeedFrame handle
  | KillProcess handle
  | ExpireSnapshot
  | InvalidateMotion

record timer =
  due :: time
  every :: "time option"
  action :: timer_action

text \<open>
  The liveness socket of \<open>startStream\<close>; its listeners captured \<open>activeSession\<close> and
  \<open>request\<close>.
\<close>

record udp_socket =
  family :: string
  bound :: "int option"
  running :: bool
  ownerSession :: handle
  ownerRequest :: StartStreamRequest

datatype chunk = Bytes buffer | Text string

text \<open>
  An \<open>FFmpegProcess\<close>: the constructor's arguments, its closure variables \<open>started\<close>,
  \<open>startTime\<close> and \<open>callback\<close>, the field \<open>killTimeout\<close>, and the child process
  (\<open>killed\<close>, what was written to its stdin).
\<close>

record FFmpegProcess =
  cameraName :: string
  sessionId :: string
  spawnArgs :: "string list"
  callback :: "nat option"
  started :: bool
  startTime :: time
  killTimeout :: "handle option"
  killed :: bool
  stdinWritten :: "chunk list"
  stdinEnded :: bool
  stdinDestroyed :: bool

text \<open>
  The promise of \<open>fetchSnapshot\<close>, with the \<open>handleSnapshotRequest\<close> calls that await
  it: each has its callback, its resolution and its \<open>cachedSnapshot\<close> flag.
\<close>

datatype promise_state = Pending | Resolved buffer | Rejected string

record snapshot_waiter =
  waiterCallback :: nat
  waiterResolution :: ResolutionInfo
  waiterCached :: bool

record promise =
  settled :: promise_state
  waiters :: "snapshot_waiter list"

text \<open>
  A child process of the snapshot pipeline: of \<open>fetchSnapshot\<close> (settles the promise),
  of \<open>resizeSnapshot\<close> (answers one request) or of \<open>resizeSnapshotWithPadding\<close> (completes
  one visitor event).
\<close>

datatype snapshot_role = FetchFor handle | ResizeFor nat | PadFor VisitorOnCameraInfo

record snapshot_process =
  role :: snapshot_role
  snapshotArgs :: "string list"
  inputBuffer :: buffer
  collected :: buffer
  spawnedAt :: time
  answered :: bool

record world =
  now :: time
  fresh :: handle
  config :: VideoConfig
  ctx :: CameraAccessoryInterface
  timers :: "handle \<rightharpoonup> timer"
  sockets :: "handle \<rightharpoonup> udp_socket"
  processes :: "handle \<rightharpoonup> FFmpegProcess"
  sessions :: "handle \<rightharpoonup> ActiveSession"
  pendingSessions :: "string \<rightharpoonup> SessionInfo"
  ongoingSessions :: "string \<rightharpoonup> handle"
  snapshotPromise :: "handle option"
  promises :: "handle \<rightharpoonup> promise"
  snapshotProcesses :: "handle \<rightharpoonup> snapshot_process"
  alternativeSnapshot :: "buffer option"
  idleImage :: "js_error + buffer"
  faulty :: "handle set"
  logged :: "log_entry list"
  outputs :: "effect list"

section \<open>Statements, timers and the release operations\<close>

text \<open>
  A statement runs in a state and either throws (\<open>Inl\<close>) or returns the next state.
  \<open>block\<close> runs statements in order and stops at the first that throws; \<open>try_catch\<close>
  is \<open>try { body } catch(err) { handler }\<close> (the operations that throw below do so
  before they change anything).
\<close>

type_synonym stmt = "world \<Rightarrow> js_error + world"

definition ok :: "(world \<Rightarrow> world) \<Rightarrow> stmt" where
  "ok f s = Inr (f s)"

definition skip :: stmt where
  "skip s = Inr s"

fun block :: "stmt list \<Rightarrow> stmt" where
  "block [] s = Inr s"
| "block (c # cs) s = (case c s of Inl e \<Rightarrow> Inl e | Inr s' \<Rightarrow> block cs s')"

definition try_catch :: "stmt \<Rightarrow> (js_error \<Rightarrow> stmt) \<Rightarrow> stmt" where
  "try_catch body handler s = (case body s of Inr s' \<Rightarrow> Inr s' | Inl e \<Rightarrow> handler e s)"

text \<open>\<open>v?.f()\<close> and \<open>if (v) f(v)\<close>: nothing happens when \<open>v\<close> is \<open>undefined\<close>.\<close>

definition optionally :: "('a \<Rightarrow> stmt) \<Rightarrow> 'a option \<Rightarrow> stmt" where
  "optionally f v = (case v of Some x \<Rightarrow> f x | None \<Rightarrow> skip)"

definition log_msg :: "log_level \<Rightarrow> string \<Rightarrow> stmt" where
  "log_msg l m = ok (\<lambda>s. s\<lparr>logged := logged s @ [Log l m]\<rparr>)"

definition emit :: "effect \<Rightarrow> stmt" where
  "emit e = ok (\<lambda>s. s\<lparr>outputs := outputs s @ [e]\<rparr>)"

text \<open>\<open>`[${this.cameraName}] `\<close>: the prefix of most log lines.\<close>

definition tag :: "world \<Rightarrow> string" where
  "tag s = ''['' @ displayName (ctx s) @ ''] ''"

definition show_error :: "js_error \<Rightarrow> string" where
  "show_error e = (case e of TypeError m \<Rightarrow> ''TypeError: '' @ m | Error m \<Rightarrow> ''Error: '' @ m)"

text \<open>
  \<open>setTimeout\<close> and \<open>setInterval\<close> return a new handle and arm a timer \<open>delay\<close>
  milliseconds from now; \<open>clearTimeout\<close> and \<open>clearInterval\<close> disarm it and never throw.
\<close>

definition setTimeout :: "timer_action \<Rightarrow> time \<Rightarrow> world \<Rightarrow> handle \<times> world" where
  "setTimeout act delay s =
     (fresh s,
      s\<lparr>fresh := Suc (fresh s),
        timers := (timers s)(fresh s \<mapsto> \<lparr>due = now s + delay, every = None, action = act\<rparr>)\<rparr>)"

definition setInterval :: "timer_action \<Rightarrow> time \<Rightarrow> world \<Rightarrow> handle \<times> world" where
  "setInterval act delay s =
     (fresh s,
      s\<lparr>fresh := Suc (fresh s),
        timers := (timers s)(fresh s \<mapsto> \<lparr>due = now s + delay, every = Some delay, action = act\<rparr>)\<rparr>)"

definition clearTimeout :: "handle \<Rightarrow> stmt" where
  "clearTimeout h = ok (\<lambda>s. s\<lparr>timers := (timers s)(h := None)\<rparr>)"

definition clearInterval :: "handle \<Rightarrow> stmt" where
  "clearInterval h = clearTimeout h"

text \<open>The object behind a reference to an \<open>ActiveSession\<close>, and an assignment to its fields.\<close>

definition session_at :: "world \<Rightarrow> handle \<Rightarrow> ActiveSession" where
  "session_at s a = (case sessions s a of None \<Rightarrow> emptySession | Some x \<Rightarrow> x)"

definition update_session :: "handle \<Rightarrow> (ActiveSession \<Rightarrow> ActiveSession) \<Rightarrow> world \<Rightarrow> world" where
  "update_session a f s = s\<lparr>sessions := (sessions s)(a \<mapsto> f (session_at s a))\<rparr>"

text \<open>
  \<open>socket.close()\<close> throws on a socket that is not running. \<open>faulty\<close> is the
  environment's choice of the resources whose release call fails.
\<close>

definition socket_close :: "handle \<Rightarrow> stmt" where
  "socket_close k s =
     (case sockets s k of
        None \<Rightarrow> Inl (Error ''Not running'')
      | Some so \<Rightarrow>
          if \<not> running so \<or> k \<in> faulty s then Inl (Error ''Not running'')
          else Inr (s\<lparr>sockets := (sockets s)(k \<mapsto> so\<lparr>running := False\<rparr>)\<rparr>))"

text \<open>
  \<open>FFmpegProcess.stop\<close>: \<open>stdin.end()\<close>, then the 2-second kill timer, whose handle
  overwrites \<open>killTimeout\<close>.
\<close>

definition FFmpegProcess_stop :: "handle \<Rightarrow> stmt" where
  "FFmpegProcess_stop p s =
     (case processes s p of
        None \<Rightarrow> Inl (TypeError ''stop of a missing process'')
      | Some pr \<Rightarrow>
          if p \<in> faulty s then Inl (Error ''stdin.end failed'')
          else
            (let (h, s1) = setTimeout (KillProcess p) (2 * 1000) s
             in Inr (s1\<lparr>processes :=
                          (processes s1)(p \<mapsto> pr\<lparr>stdinEnded := True, killTimeout := Some h\<rparr>)\<rparr>)))"

section \<open>stopStream\<close>

definition stopStream :: "string \<Rightarrow> stmt" where
  "stopStream sid s =
     block
       [(case ongoingSessions s sid of
           None \<Rightarrow> skip
         | Some a \<Rightarrow>
             (let session = session_at s a in
              block
                [(optionally clearTimeout (timeout session)),
                 (optionally clearInterval (feedInterval session)),
                 try_catch
                   (optionally socket_close (socket session))
                   (\<lambda>err. log_msg Err (tag s @ ''Error occurred closing socket: '' @ show_error err)),
                 try_catch
                   (optionally FFmpegProcess_stop (mainProcess session))
                   (\<lambda>err. log_msg Err
                      (tag s @ ''Error occurred terminating main FFmpeg process: '' @ show_error err)),
                 try_catch
                   (optionally FFmpegProcess_stop (returnProcess session))
                   (\<lambda>err. log_msg Err
                      (tag s @ ''Error occurred terminating two-way FFmpeg process: ''
                       @ show_error err))])),
        ok (\<lambda>s. s\<lparr>ongoingSessions := (ongoingSessions s)(sid := None)\<rparr>),
        log_msg Info (tag s @ ''Stopped video stream'')]
       s"

section \<open>FFmpegProcess\<close>

text \<open>\<open>s.split(/\s+/)\<close>; the flag says that the previous character was white space.\<close>

fun split_gap :: "bool \<Rightarrow> string \<Rightarrow> string list" where
  "split_gap g [] = [[]]"
| "split_gap g (c # cs) =
     (if js_whitespace c then (if g then split_gap True cs else [] # split_gap True cs)
      else (case split_gap False cs of
              [] \<Rightarrow> [[c]]
            | p # ps \<Rightarrow> (c # p) # ps))"

definition split_ws :: "string \<Rightarrow> string list" where
  "split_ws s = split_gap False s"

text \<open>The constructor up to the registration of the listeners: logs, spawns, records.\<close>

definition new_FFmpegProcess ::
  "string \<Rightarrow> string \<Rightarrow> string \<Rightarrow> nat option \<Rightarrow> world \<Rightarrow> handle \<times> world" where
  "new_FFmpegProcess name sid ffmpegArgs cb s =
     (fresh s,
      s\<lparr>fresh := Suc (fresh s),
        logged := logged s @ [Log Debug (''Stream command: ffmpeg '' @ ffmpegArgs)],
        processes := (processes s)(fresh s \<mapsto>
          \<lparr> cameraName = name, sessionId = sid, spawnArgs = split_ws ffmpegArgs,
            callback = cb, started = False, startTime = now s, killTimeout = None,
            killed = False, stdinWritten = [], stdinEnded = False,
            stdinDestroyed = False \<rparr>)\<rparr>)"

definition runtime_level :: "rat \<Rightarrow> log_level" where
  "runtime_level runtime = (if runtime < 5 then Debug else if runtime < 22 then Warn else Err)"

definition greater_zero :: "js_number \<Rightarrow> bool" where
  "greater_zero x = (case x of Num r \<Rightarrow> r > 0 | PosInfinity \<Rightarrow> True | _ \<Rightarrow> False)"

text \<open>The listener of \<open>stdout\<close> "data".\<close>

definition on_stdout :: "handle \<Rightarrow> string \<Rightarrow> stmt" where
  "on_stdout p data s =
     (case processes s p of
        None \<Rightarrow> Inr s
      | Some pr \<Rightarrow>
          (case parseProgress data of
             None \<Rightarrow> Inr s
           | Some prog \<Rightarrow>
               if \<not> started pr \<and> greater_zero (frame prog) then
                 (let runtime = (now s - startTime pr) / 1000
                  in Inr (s\<lparr>processes := (processes s)(p \<mapsto> pr\<lparr>started := True\<rparr>),
                           logged := logged s @
                             [LogRuntime (runtime_level runtime)
                                (''['' @ cameraName pr @ ''] Getting the first frames took'') runtime]\<rparr>))
               else Inr s))"

text \<open>\<open>line.match(/(panic|fatal|error)/)\<close>.\<close>

fun contains :: "string \<Rightarrow> string \<Rightarrow> bool" where
  "contains sub [] = (sub = [])"
| "contains sub (c # cs) = (prefix sub (c # cs) \<or> contains sub cs)"

definition is_error_line :: "string \<Rightarrow> bool" where
  "is_error_line line \<longleftrightarrow> contains ''panic'' line \<or> contains ''fatal'' line \<or> contains ''error'' line"

text \<open>The listener of the stderr "line": the only place that resets \<open>callback\<close>.\<close>

definition on_stderr_line :: "handle \<Rightarrow> string \<Rightarrow> stmt" where
  "on_stderr_line p line s =
     (case processes s p of
        None \<Rightarrow> Inr s
      | Some pr \<Rightarrow>
          block
            [(case callback pr of
                Some cb \<Rightarrow>
                  block
                    [emit (StreamCallback cb None),
                     ok (\<lambda>s. s\<lparr>processes := (processes s)(p \<mapsto> pr\<lparr>callback := None\<rparr>)\<rparr>)]
              | None \<Rightarrow> skip),
             (if is_error_line line then log_msg Err (''['' @ cameraName pr @ ''] '' @ line)
              else log_msg Debug (''['' @ cameraName pr @ ''] '' @ line))]
            s)"

text \<open>The listener of the process "error".\<close>

definition on_process_error :: "handle \<Rightarrow> string \<Rightarrow> stmt" where
  "on_process_error p message s =
     (case processes s p of
        None \<Rightarrow> Inr s
      | Some pr \<Rightarrow>
          block
            [log_msg Err (''['' @ cameraName pr @ ''] FFmpeg process creation failed: '' @ message),
             (case callback pr of
                Some cb \<Rightarrow> emit (StreamCallback cb (Some (Error ''FFmpeg process creation failed'')))
              | None \<Rightarrow> skip),
             stopStream (sessionId pr)]
            s)"

definition exit_message :: "int option \<Rightarrow> string option \<Rightarrow> string" where
  "exit_message code signal =
     ''FFmpeg exited with code: '' @ (case code of None \<Rightarrow> ''null'' | Some c \<Rightarrow> show_int c)
     @ '' and signal: '' @ (case signal of None \<Rightarrow> ''null'' | Some g \<Rightarrow> g)"

text \<open>The listener of the process "exit".\<close>

definition on_process_exit :: "handle \<Rightarrow> int option \<Rightarrow> string option \<Rightarrow> stmt" where
  "on_process_exit p code signal s =
     (case processes s p of
        None \<Rightarrow> Inr s
      | Some pr \<Rightarrow>
          block
            [(optionally clearTimeout (killTimeout pr)),
             (if killTimeout pr \<noteq> None \<and> code = Some 0 then
                log_msg Debug (''['' @ cameraName pr @ ''] '' @ exit_message code signal @ '' (Expected)'')
              else if code = None \<or> code = Some 255 then
                (if killed pr then
                   log_msg Debug (''['' @ cameraName pr @ ''] '' @ exit_message code signal @ '' (Forced)'')
                 else
                   log_msg Err (''['' @ cameraName pr @ ''] '' @ exit_message code signal @ '' (Unexpected)''))
              else
                block
                  [log_msg Err (''['' @ cameraName pr @ ''] '' @ exit_message code signal @ '' (Error)''),
                   stopStream (sessionId pr),
                   (case callback pr of
                      Some cb \<Rightarrow>
                        if \<not> started pr then emit (StreamCallback cb (Some (Error (exit_message code signal))))
                        else emit (ForceStopStreamingSession (sessionId pr))
                    | None \<Rightarrow> emit (ForceStopStreamingSession (sessionId pr)))])]
            s)"

text \<open>The callback of the kill timer of \<open>stop\<close>.\<close>

definition kill_process :: "handle \<Rightarrow> stmt" where
  "kill_process p s =
     (case processes s p of
        None \<Rightarrow> Inr s
      | Some pr \<Rightarrow> Inr (s\<lparr>processes := (processes s)(p \<mapsto> pr\<lparr>stdinDestroyed := True, killed := True\<rparr>)\<rparr>))"

section \<open>startStream, prepareStream and handleStreamRequest\<close>

text \<open>\<open>buffer.toString("base64")\<close>.\<close>

definition base64_digit :: "nat \<Rightarrow> char" where
  "base64_digit n =
     ''ABCDEFGHIJKLMNOPQRSTUVWXYZabcdefghijklmnopqrstuvwxyz0123456789+/'' ! (n mod 64)"

fun base64 :: "buffer \<Rightarrow> string" where
  "base64 [] = []"
| "base64 [a] = [base64_digit (a div 4), base64_digit ((a mod 4) * 16), CHR ''='', CHR ''='']"
| "base64 [a, b] =
     [base64_digit (a div 4), base64_digit ((a mod 4) * 16 + b div 16),
      base64_digit ((b mod 16) * 4), CHR ''='']"
| "base64 (a # b # c # r) =
     [base64_digit (a div 4), base64_digit ((a mod 4) * 16 + b div 16),
      base64_digit ((b mod 16) * 4 + c div 64), base64_digit (c mod 64)] @ base64 r"

text \<open>A string-or-undefined value in a condition: \<open>undefined\<close> and \<open>""\<close> are false.\<close>

definition truthy :: "string option \<Rightarrow> bool" where
  "truthy v \<longleftrightarrow> (case v of None \<Rightarrow> False | Some x \<Rightarrow> x \<noteq> [])"

definition codec_name :: "AudioStreamingCodecType \<Rightarrow> string" where
  "codec_name c =
     (case c of PCMU \<Rightarrow> ''PCMU'' | PCMA \<Rightarrow> ''PCMA'' | AAC_ELD \<Rightarrow> ''AAC-eld'' | OPUS \<Rightarrow> ''OPUS''
      | MSBC \<Rightarrow> ''mSBC'' | AMR \<Rightarrow> ''AMR'' | AMR_WB \<Rightarrow> ''AMR-WB'')"

definition stream_codec :: "VideoConfig \<Rightarrow> string" where
  "stream_codec cfg = (if truthy (codec cfg) then the (codec cfg) else ''libx264'')"

definition stream_mtu :: "VideoConfig \<Rightarrow> int" where
  "stream_mtu cfg = (case packetSize cfg of Some n \<Rightarrow> if n \<noteq> 0 then n else 1316 | None \<Rightarrow> 1316)"

definition stream_encoderOptions :: "VideoConfig \<Rightarrow> string option" where
  "stream_encoderOptions cfg =
     (if \<not> truthy (encoderOptions cfg) \<and> stream_codec cfg = ''libx264''
      then Some ''-preset ultrafast -tune zerolatency''
      else encoderOptions cfg)"

text \<open>\<open>resolution\<close>, \<open>fps\<close> and \<open>videoBitrate\<close> after the \<open>codec === "copy"\<close> override.\<close>

definition stream_resolution :: "VideoConfig \<Rightarrow> StartStreamRequest \<Rightarrow> ResolutionInfo" where
  "stream_resolution cfg request =
     (let resolution = determineResolution cfg (video request) False
      in if stream_codec cfg = ''copy''
         then resolution\<lparr>width := 0, height := 0, streamFilter := None\<rparr>
         else resolution)"

definition stream_fps :: "VideoConfig \<Rightarrow> StartStreamRequest \<Rightarrow> int" where
  "stream_fps cfg request = (if stream_codec cfg = ''copy'' then 0 else video_fps (video request))"

definition stream_bitrate :: "VideoConfig \<Rightarrow> StartStreamRequest \<Rightarrow> int" where
  "stream_bitrate cfg request =
     (if stream_codec cfg = ''copy'' then 0 else video_max_bit_rate (video request))"

definition video_args :: "VideoConfig \<Rightarrow> StartStreamRequest \<Rightarrow> SessionInfo \<Rightarrow> string list" where
  "video_args cfg request sessionInfo =
     [''-i pipe:'',
      (if truthy (mapVideo cfg) then ''-map '' @ the (mapVideo cfg) else ''-an -sn -dn''),
      ''-codec:v '' @ stream_codec cfg,
      ''-pix_fmt yuv420p'',
      ''-color_range mpeg'']
     @ (if stream_fps cfg request > 0 then [''-r '' @ show_int (stream_fps cfg request)] else [])
     @ [''-f rawvideo'']
     @ (if truthy (stream_encoderOptions cfg) then [the (stream_encoderOptions cfg)] else [])
     @ (if truthy (streamFilter (stream_resolution cfg request))
        then [''-filter:v '' @ the (streamFilter (stream_resolution cfg request))] else [])
     @ (if stream_bitrate cfg request > 0
        then [''-b:v '' @ show_int (stream_bitrate cfg request) @ ''k''] else [])
     @ [''-payload_type '' @ show_int (video_pt (video request)),
        ''-ssrc '' @ show_int (videoSSRC sessionInfo),
        ''-f rtp'',
        ''-srtp_out_suite AES_CM_128_HMAC_SHA1_80'',
        ''-srtp_out_params '' @ base64 (videoSRTP sessionInfo),
        ''srtp://'' @ address sessionInfo @ '':'' @ show_int (videoPort sessionInfo)
          @ ''?rtcpport='' @ show_int (videoPort sessionInfo)
          @ ''&pkt_size='' @ show_int (stream_mtu cfg)]"

definition audio_supported :: "AudioStreamingCodecType \<Rightarrow> bool" where
  "audio_supported c \<longleftrightarrow> c = OPUS \<or> c = AAC_ELD"

definition audio_args :: "VideoConfig \<Rightarrow> StartStreamRequest \<Rightarrow> SessionInfo \<Rightarrow> string list" where
  "audio_args cfg request sessionInfo =
     (if audio cfg \<and> audio_supported (audio_codec (audioInfo request)) then
        [(if truthy (mapAudio cfg) then ''-map '' @ the (mapAudio cfg) else ''-vn -sn -dn'')]
        @ (if audio_codec (audioInfo request) = OPUS
           then [''-codec:a libopus'', ''-application lowdelay'']
           else [''-codec:a libfdk_aac'', ''-profile:a aac_eld''])
        @ [''-flags +global_header'',
           ''-f null'',
           ''-ar '' @ show_int (sample_rate (audioInfo request)) @ ''k'',
           ''-b:a '' @ show_int (audio_max_bit_rate (audioInfo request)) @ ''k'',
           ''-ac '' @ show_int (channel (audioInfo request)),
           ''-payload_type '' @ show_int (audio_pt (audioInfo request)),
           ''-ssrc '' @ show_int (audioSSRC sessionInfo),
           ''-f rtp'',
           ''-srtp_out_suite AES_CM_128_HMAC_SHA1_80'',
           ''-srtp_out_params '' @ base64 (audioSRTP sessionInfo),
           ''srtp://'' @ address sessionInfo @ '':'' @ show_int (audioPort sessionInfo)
             @ ''?rtcpport='' @ show_int (audioPort sessionInfo) @ ''&pkt_size=188'']
      else [])"

definition stream_ffmpegArgs :: "VideoConfig \<Rightarrow> StartStreamRequest \<Rightarrow> SessionInfo \<Rightarrow> string" where
  "stream_ffmpegArgs cfg request sessionInfo =
     join '' '' (video_args cfg request sessionInfo @ audio_args cfg request sessionInfo
                 @ [''-loglevel level'', ''-progress pipe:1''])"

definition return_ffmpegArgs :: "VideoConfig \<Rightarrow> string" where
  "return_ffmpegArgs cfg =
     join '' ''
       [''-hide_banner'', ''-protocol_whitelist pipe,udp,rtp,file,crypto'', ''-f sdp'',
        ''-c:a libfdk_aac'', ''-i pipe:'', the (returnAudioTarget cfg), ''-loglevel level'']"

definition sdpReturnAudio :: "SessionInfo \<Rightarrow> string" where
  "sdpReturnAudio sessionInfo =
     (let ipVer = (if ipv6 sessionInfo then ''IP6'' else ''IP4'')
      in join [CHR 0x0D, CHR 0x0A]
           [''v=0'',
            ''o=- 0 0 IN '' @ ipVer @ '' '' @ address sessionInfo,
            ''s=Talk'',
            ''c=IN '' @ ipVer @ '' '' @ address sessionInfo,
            ''t=0 0'',
            ''m=audio '' @ show_int (audioReturnPort sessionInfo) @ '' RTP/AVP 110'',
            ''b=AS:24'',
            ''a=rtpmap:110 MPEG4-GENERIC/16000/1'',
            ''a=rtcp-mux'',
            ''a=fmtp:100 profile-level-id=1;mode=AAC-hbr;sizelength=13;indexlength=3,indexdeltalength=3; config=F8F0212C00BC00'',
            ''a=crypto:1 AES_CM_128_HMAC_SHA1_80 inline:'' @ base64 (audioSRTP sessionInfo)]
         @ [CHR 0x0D, CHR 0x0A])"

definition native :: "int \<Rightarrow> string" where
  "native n = (if n > 0 then show_int n else ''native'')"

text \<open>
  The branch of \<open>startStream\<close> that has the session information, from
  \<open>const activeSession = {}\<close> to the two map updates: the socket (with its listeners and
  \<open>bind\<close>), the main process (with the request's callback), the return process when a
  target is configured, the feed interval, then \<open>ongoingSessions.set\<close> and
  \<open>pendingSessions.delete\<close>. No inactivity timer is armed here: \<open>timeout\<close> is first set
  by the socket's "message" listener.
\<close>

definition start_session :: "StartStreamRequest \<Rightarrow> nat \<Rightarrow> SessionInfo \<Rightarrow> world \<Rightarrow> world" where
  "start_session request cb sessionInfo s =
     (let a = fresh s;
          k = Suc a;
          s1 = s\<lparr>fresh := Suc k,
                 sessions := (sessions s)(a \<mapsto> emptySession\<lparr>socket := Some k\<rparr>),
                 sockets := (sockets s)(k \<mapsto>
                   \<lparr> family = (if ipv6 sessionInfo then ''udp6'' else ''udp4''),
                     bound = Some (videoReturnPort sessionInfo), running = True,
                     ownerSession = a, ownerRequest = request \<rparr>)\<rparr>;
          (p, s2) = new_FFmpegProcess (displayName (ctx s)) (sessionID request)
                      (stream_ffmpegArgs (config s) request sessionInfo) (Some cb) s1;
          s3 = update_session a (\<lambda>x. x\<lparr>mainProcess := Some p\<rparr>) s2;
          s4 = (if truthy (returnAudioTarget (config s)) then
                  (let (r, t) = new_FFmpegProcess (displayName (ctx s) @ ''] [Two-way'')
                                  (sessionID request) (return_ffmpegArgs (config s)) None s3;
                       t1 = update_session a (\<lambda>x. x\<lparr>returnProcess := Some r\<rparr>) t
                   in t1\<lparr>processes := (processes t1)(r \<mapsto>
                           (the (processes t1 r))
                             \<lparr>stdinWritten := [Text (sdpReturnAudio sessionInfo)],
                              stdinEnded := True\<rparr>)\<rparr>)
                else s3);
          (f, s5) = setInterval (FeedFrame a) (1000 / 30) s4;
          s6 = update_session a (\<lambda>x. x\<lparr>feedInterval := Some f\<rparr>) s5
      in s6\<lparr>ongoingSessions := (ongoingSessions s6)(sessionID request \<mapsto> a),
            pendingSessions := (pendingSessions s6)(sessionID request := None)\<rparr>)"

definition startStream :: "StartStreamRequest \<Rightarrow> nat \<Rightarrow> stmt" where
  "startStream request cb s =
     (case pendingSessions s (sessionID request) of
        Some sessionInfo \<Rightarrow>
          block
            [log_msg Debug
               (tag s @ ''Video stream requested: '' @ show_int (width (video request)) @ '' x ''
                @ show_int (height (video request)) @ '', '' @ show_int (video_fps (video request))
                @ '' fps, '' @ show_int (video_max_bit_rate (video request)) @ '' kbps''),
             log_msg Info
               (tag s @ ''Starting video stream: ''
                @ native (width (stream_resolution (config s) request)) @ '' x ''
                @ native (height (stream_resolution (config s) request)) @ '', ''
                @ native (stream_fps (config s) request) @ '' fps, ''
                @ (if stream_bitrate (config s) request > 0
                   then show_int (stream_bitrate (config s) request) else ''???'')
                @ '' kbps ''
                @ (if audio (config s)
                   then ''('' @ codec_name (audio_codec (audioInfo request)) @ '')'' else [])),
             (if audio (config s) \<and> \<not> audio_supported (audio_codec (audioInfo request))
              then log_msg Err (tag s @ ''Unsupported audio codec requested: ''
                                @ codec_name (audio_codec (audioInfo request)))
              else skip),
             ok (start_session request cb sessionInfo)]
            s
      | None \<Rightarrow>
          block
            [log_msg Err (tag s @ ''Error finding session information''),
             emit (StreamCallback cb (Some (Error ''Error finding session information'')))]
            s)"

text \<open>
  \<open>prepareStream\<close>, run when its two \<open>await pickPort\<close> have settled: \<open>videoPick\<close> and
  \<open>audioPick\<close> are what they settled with (a rejection rejects \<open>prepareStream\<close> before it
  touches anything), the two SSRCs what \<open>generateSynchronisationSource\<close> returned.
\<close>

definition prepareStream ::
  "PrepareStreamRequest \<Rightarrow> nat \<Rightarrow> js_error + int \<Rightarrow> int \<Rightarrow> js_error + int \<Rightarrow> int \<Rightarrow> stmt" where
  "prepareStream request cb videoPick videoSSRC_new audioPick audioSSRC_new s =
     (case videoPick of
        Inl e \<Rightarrow> Inl e
      | Inr videoReturnPort_new \<Rightarrow>
          (case audioPick of
             Inl e \<Rightarrow> Inl e
           | Inr audioReturnPort_new \<Rightarrow>
               block
                 [ok (\<lambda>s. s\<lparr>pendingSessions := (pendingSessions s)(prepareSessionID request \<mapsto>
                        \<lparr> address = targetAddress request,
                          ipv6 = (addressVersion request = ''ipv6''),
                          videoPort = port (prepareVideo request),
                          videoReturnPort = videoReturnPort_new,
                          videoCryptoSuite = srtpCryptoSuite (prepareVideo request),
                          videoSRTP = srtp_key (prepareVideo request) @ srtp_salt (prepareVideo request),
                          videoSSRC = videoSSRC_new,
                          audioPort = port (prepareAudio request),
                          audioReturnPort = audioReturnPort_new,
                          audioCryptoSuite = srtpCryptoSuite (prepareAudio request),
                          audioSRTP = srtp_key (prepareAudio request) @ srtp_salt (prepareAudio request),
                          audioSSRC = audioSSRC_new \<rparr>)\<rparr>),
                  emit (PrepareCallback cb
                    \<lparr> responseVideo =
                        \<lparr> responsePort = videoReturnPort_new, ssrc = videoSSRC_new,
                          response_key = srtp_key (prepareVideo request),
                          response_salt = srtp_salt (prepareVideo request) \<rparr>,
                      responseAudio =
                        \<lparr> responsePort = audioReturnPort_new, ssrc = audioSSRC_new,
                          response_key = srtp_key (prepareAudio request),
                          response_salt = srtp_salt (prepareAudio request) \<rparr> \<rparr>)]
                 s))"

definition handleStreamRequest :: "StreamingRequest \<Rightarrow> nat \<Rightarrow> stmt" where
  "handleStreamRequest request cb s =
     (case request of
        START r \<Rightarrow> startStream r cb s
      | STOP sid \<Rightarrow> block [stopStream sid, emit (StreamCallback cb None)] s
      | RECONFIGURE r \<Rightarrow>
          block
            [log_msg Debug
               (tag s @ ''Received request to reconfigure: '' @ show_int (width (video r)) @ '' x ''
                @ show_int (height (video r)) @ '', '' @ show_int (video_fps (video r)) @ '' fps, ''
                @ show_int (video_max_bit_rate (video r)) @ '' kbps (Ignored)''),
             emit (StreamCallback cb None)]
            s)"

text \<open>The listeners of the liveness socket.\<close>

definition on_socket_error :: "handle \<Rightarrow> string \<Rightarrow> stmt" where
  "on_socket_error k message s =
     (case sockets s k of
        None \<Rightarrow> Inr s
      | Some so \<Rightarrow>
          block
            [log_msg Err (tag s @ ''Socket error: '' @ message),
             stopStream (sessionID (ownerRequest so))]
            s)"

definition on_socket_message :: "handle \<Rightarrow> stmt" where
  "on_socket_message k s =
     (case sockets s k of
        None \<Rightarrow> Inr s
      | Some so \<Rightarrow>
          block
            [optionally clearTimeout (timeout (session_at s (ownerSession so))),
             ok (\<lambda>s. let (h, s1) = setTimeout (InactivityTimeout (sessionID (ownerRequest so)))
                                    (rtcp_interval (video (ownerRequest so)) * 5 * 1000) s
                     in update_session (ownerSession so) (\<lambda>x. x\<lparr>timeout := Some h\<rparr>) s1)]
            s)"

text \<open>The callback of the inactivity timer.\<close>

definition inactivity_timeout :: "string \<Rightarrow> stmt" where
  "inactivity_timeout sid s =
     block
       [log_msg Info (tag s @ ''Device appears to be inactive. Stopping stream.''),
        emit (ForceStopStreamingSession sid),
        stopStream sid]
       s"

section \<open>The snapshot pipeline\<close>

text \<open>
  \<open>createAlternativeSnapshot\<close>: the memoised idle image. \<open>idleImage\<close> is what the HTTP
  request answers; the \<open>await\<close> is taken in the same step.
\<close>

definition createAlternativeSnapshot :: "world \<Rightarrow> (js_error + buffer) \<times> world" where
  "createAlternativeSnapshot s =
     (case alternativeSnapshot s of
        Some b \<Rightarrow> (Inr b, s)
      | None \<Rightarrow>
          (let s1 = s\<lparr>logged := logged s @ [Log Debug (tag s @ ''Creating alternative snapshot buffer'')]\<rparr>
           in case idleImage s of
                Inl e \<Rightarrow> (Inl e, s1)
              | Inr d \<Rightarrow> (Inr d, s1\<lparr>alternativeSnapshot := Some d\<rparr>)))"

text \<open>\<open>this.context.visitorInfo?.snapshot || await this.createAlternativeSnapshot()\<close>.\<close>

definition source_image :: "world \<Rightarrow> (js_error + buffer) \<times> world" where
  "source_image s =
     (case visitorInfo (ctx s) of
        None \<Rightarrow> createAlternativeSnapshot s
      | Some v \<Rightarrow> (case snapshot v of None \<Rightarrow> createAlternativeSnapshot s | Some b \<Rightarrow> (Inr b, s)))"

definition spawn_snapshot :: "snapshot_role \<Rightarrow> string \<Rightarrow> buffer \<Rightarrow> world \<Rightarrow> handle \<times> world" where
  "spawn_snapshot r ffmpegArgs img s =
     (fresh s,
      s\<lparr>fresh := Suc (fresh s),
        snapshotProcesses := (snapshotProcesses s)(fresh s \<mapsto>
          \<lparr> role = r, snapshotArgs = split_ws ffmpegArgs, inputBuffer = img, collected = [],
            spawnedAt = now s, answered = False \<rparr>)\<rparr>)"

definition fetch_args :: "string option \<Rightarrow> string" where
  "fetch_args filter_opt =
     join '' ''
       ([''-i pipe:'', ''-frames:v 1'']
        @ (if truthy filter_opt then [''-filter:v '' @ the filter_opt] else [])
        @ [''-f image2 -'', ''-hide_banner'', ''-loglevel error''])"

text \<open>
  \<open>fetchSnapshot\<close>: a new promise is stored in \<open>snapshotPromise\<close>; its executor takes the
  source image and spawns the fetch transcoder. When the idle image cannot be loaded the
  executor stops there and the promise stays pending.
\<close>

definition fetchSnapshot :: "string option \<Rightarrow> world \<Rightarrow> handle \<times> world" where
  "fetchSnapshot filter_opt s =
     (let q = fresh s;
          s0 = s\<lparr>fresh := Suc q,
                 promises := (promises s)(q \<mapsto> \<lparr>settled = Pending, waiters = []\<rparr>),
                 snapshotPromise := Some q\<rparr>
      in case source_image s0 of
           (Inl e, s1) \<Rightarrow> (q, s1)
         | (Inr img, s1) \<Rightarrow>
             (let s2 = s1\<lparr>logged := logged s1 @
                        [Log Debug (tag s @ ''Snapshot command: ffmpeg '' @ fetch_args filter_opt)]\<rparr>
              in (q, snd (spawn_snapshot (FetchFor q) (fetch_args filter_opt) img s2))))"

definition resize_args :: "string option \<Rightarrow> string" where
  "resize_args filter_opt =
     join '' ''
       ([''-i pipe:'', ''-frames:v 1'']
        @ (if truthy filter_opt then [''-filter:v '' @ the filter_opt] else [])
        @ [''-f image2 -''])"

text \<open>
  What one \<open>handleSnapshotRequest\<close> does once its \<open>await\<close> of the fetch has settled:
  on a buffer, the "Sending snapshot" line and \<open>resizeSnapshot\<close> with the request's own
  resize filter; on a rejection, the \<open>catch\<close>.
\<close>

definition continue_request :: "js_error + buffer \<Rightarrow> snapshot_waiter \<Rightarrow> world \<Rightarrow> world" where
  "continue_request result w s =
     (case result of
        Inl e \<Rightarrow>
          s\<lparr>logged := logged s @ [Log Err (case e of Error m \<Rightarrow> m | TypeError m \<Rightarrow> m)],
            outputs := outputs s @ [SnapshotCallback (waiterCallback w) None]\<rparr>
      | Inr img \<Rightarrow>
          (let s1 = s\<lparr>logged := logged s @
                     [Log Debug (tag s @ ''Sending snapshot: ''
                        @ native (width (waiterResolution w)) @ '' x ''
                        @ native (height (waiterResolution w)) @ '' ''
                        @ (if waiterCached w then '' (cached)'' else [])),
                      Log Debug (tag s @ ''Resize command: ffmpeg ''
                        @ resize_args (resizeFilter (waiterResolution w)))]\<rparr>
           in snd (spawn_snapshot (ResizeFor (waiterCallback w))
                     (resize_args (resizeFilter (waiterResolution w))) img s1)))"

definition await_snapshot :: "handle \<Rightarrow> snapshot_waiter \<Rightarrow> world \<Rightarrow> world" where
  "await_snapshot q w s =
     (case promises s q of
        None \<Rightarrow> s
      | Some pr \<Rightarrow>
          (case settled pr of
             Pending \<Rightarrow> s\<lparr>promises := (promises s)(q \<mapsto> pr\<lparr>waiters := waiters pr @ [w]\<rparr>)\<rparr>
           | Resolved img \<Rightarrow> continue_request (Inr img) w s
           | Rejected m \<Rightarrow> continue_request (Inl (Error m)) w s))"

definition handleSnapshotRequest :: "SnapshotRequest \<Rightarrow> nat \<Rightarrow> stmt" where
  "handleSnapshotRequest request cb s =
     (let resolution = determineResolution (config s) request True;
          cachedSnapshot = (snapshotPromise s \<noteq> None);
          s1 = s\<lparr>logged := logged s @
                 [Log Debug (tag s @ ''Snapshot requested: '' @ show_int (width request) @ '' x ''
                             @ show_int (height request))]\<rparr>;
          (q, s2) = (case snapshotPromise s1 of
                       Some q \<Rightarrow> (q, s1)
                     | None \<Rightarrow> fetchSnapshot (snapshotFilter resolution) s1)
      in Inr (await_snapshot q
                \<lparr>waiterCallback = cb, waiterResolution = resolution, waiterCached = cachedSnapshot\<rparr>
                s2))"

text \<open>
  Settling a promise: only a pending promise changes; the requests that awaited it are
  handed back, to be continued after the handler that settled it.
\<close>

definition settle :: "handle \<Rightarrow> promise_state \<Rightarrow> world \<Rightarrow> snapshot_waiter list \<times> world" where
  "settle q st s =
     (case promises s q of
        None \<Rightarrow> ([], s)
      | Some pr \<Rightarrow>
          if settled pr = Pending
          then (waiters pr, s\<lparr>promises := (promises s)(q \<mapsto> \<lparr>settled = st, waiters = []\<rparr>)\<rparr>)
          else ([], s))"

definition outcome :: "promise_state \<Rightarrow> js_error + buffer" where
  "outcome st = (case st of Resolved img \<Rightarrow> Inr img | Rejected m \<Rightarrow> Inl (Error m) | Pending \<Rightarrow> Inl (Error []))"

definition continue_all :: "promise_state \<Rightarrow> snapshot_waiter list \<Rightarrow> world \<Rightarrow> world" where
  "continue_all st ws s = foldl (\<lambda>t w. continue_request (outcome st) w t) s ws"

text \<open>The listeners of a snapshot child process: stdout "data", stderr "data", "error", "close".\<close>

definition on_snapshot_stdout :: "handle \<Rightarrow> buffer \<Rightarrow> stmt" where
  "on_snapshot_stdout f data s =
     (case snapshotProcesses s f of
        None \<Rightarrow> Inr s
      | Some sp \<Rightarrow>
          Inr (s\<lparr>snapshotProcesses := (snapshotProcesses s)(f \<mapsto> sp\<lparr>collected := collected sp @ data\<rparr>)\<rparr>))"

definition on_snapshot_stderr :: "handle \<Rightarrow> string \<Rightarrow> stmt" where
  "on_snapshot_stderr f data s =
     (case snapshotProcesses s f of
        None \<Rightarrow> Inr s
      | Some sp \<Rightarrow>
          (case role sp of
             FetchFor q \<Rightarrow>
               Inr (s\<lparr>logged := logged s @
                       map (Log Err) (filter (\<lambda>line. length line > 0) (split_char (CHR 0x0A) data))\<rparr>)
           | _ \<Rightarrow> Inr s))"

definition invalidate_motion :: stmt where
  "invalidate_motion s =
     block
       [log_msg Debug ''Invalidating the motion detector timer'',
        (optionally clearTimeout (motionTimer (ctx s))),
        ok (\<lambda>s. s\<lparr>ctx := (ctx s)\<lparr>visitorInfo := None, motionTimer := None, motionOnCamera := False\<rparr>\<rparr>),
        emit (SetMotionDetected False)]
       s"

text \<open>
  The end of the visitor listener, after \<open>await this.resizeSnapshotWithPadding\<close>: the
  visitor information with its snapshot is stored, \<open>createMotionTimer\<close> arms the
  \<open>CAMERA_TIMEOUT_DURATION\<close> timer, the motion flag is set and the sensor refreshed.
\<close>

definition CAMERA_TIMEOUT_DURATION :: time where
  "CAMERA_TIMEOUT_DURATION = 2 * 60 * 1000"

definition complete_visitor :: "VisitorOnCameraInfo \<Rightarrow> world \<Rightarrow> world" where
  "complete_visitor v s =
     (let s1 = s\<lparr>logged := logged s @ [Log Debug ''Creating a new motion detector timer'']\<rparr>;
          (h, s2) = setTimeout InvalidateMotion CAMERA_TIMEOUT_DURATION s1
      in s2\<lparr>ctx := (ctx s2)\<lparr>visitorInfo := Some v, motionTimer := Some h, motionOnCamera := True,
                             init := True\<rparr>,
            outputs := outputs s2 @ [SetMotionDetected True]\<rparr>)"

definition on_snapshot_error :: "handle \<Rightarrow> string \<Rightarrow> stmt" where
  "on_snapshot_error f message s =
     (case snapshotProcesses s f of
        None \<Rightarrow> Inr s
      | Some sp \<Rightarrow>
          (case role sp of
             FetchFor q \<Rightarrow>
               (let st = Rejected (''FFmpeg process creation failed: '' @ message);
                    (ws, s1) = settle q st s
                in Inr (continue_all st ws s1))
           | ResizeFor cb \<Rightarrow>
               if answered sp then Inr s
               else Inr (s\<lparr>snapshotProcesses := (snapshotProcesses s)(f \<mapsto> sp\<lparr>answered := True\<rparr>),
                          logged := logged s @ [Log Err (''FFmpeg process creation failed: '' @ message)],
                          outputs := outputs s @ [SnapshotCallback cb None]\<rparr>)
           | PadFor v \<Rightarrow>
               Inr (s\<lparr>snapshotProcesses := (snapshotProcesses s)(f \<mapsto> sp\<lparr>answered := True\<rparr>)\<rparr>)))"

definition on_snapshot_close :: "handle \<Rightarrow> stmt" where
  "on_snapshot_close f s =
     (case snapshotProcesses s f of
        None \<Rightarrow> Inr s
      | Some sp \<Rightarrow>
          (case role sp of
             FetchFor q \<Rightarrow>
               (let st = (if length (collected sp) > 0 then Resolved (collected sp)
                          else Rejected ''Failed to fetch snapshot'');
                    (ws, s1) = settle q st s;
                    (h, s2) = setTimeout ExpireSnapshot (3 * 1000) s1;
                    runtime = (now s - spawnedAt sp) / 1000;
                    s3 = s2\<lparr>logged := logged s2 @
                           [LogRuntime (runtime_level runtime) (tag s @ ''Fetching snapshot took'') runtime]\<rparr>
                in Inr (continue_all st ws s3))
           | ResizeFor cb \<Rightarrow>
               if answered sp then Inr s
               else Inr (s\<lparr>snapshotProcesses := (snapshotProcesses s)(f \<mapsto> sp\<lparr>answered := True\<rparr>),
                          outputs := outputs s @ [SnapshotCallback cb (Some (collected sp))]\<rparr>)
           | PadFor v \<Rightarrow>
               if answered sp then Inr s
               else Inr (complete_visitor (v\<lparr>snapshot := Some (collected sp)\<rparr>)
                          (s\<lparr>snapshotProcesses := (snapshotProcesses s)(f \<mapsto> sp\<lparr>answered := True\<rparr>)\<rparr>))))"

section \<open>Visitor events, the motion sensor and shutdown\<close>

definition show_opt :: "int option \<Rightarrow> string" where
  "show_opt v = (case v of None \<Rightarrow> ''undefined'' | Some n \<Rightarrow> show_int n)"

definition padding_args :: "VideoConfig \<Rightarrow> string" where
  "padding_args cfg =
     join '' ''
       [''-i pipe:'', ''-frames:v 1'', ''-codec:v png'', ''-pix_fmt rgba'',
        ''-filter:v scale='' @ show_opt (maxWidth cfg) @ '':'' @ show_opt (maxHeight cfg)
          @ '':force_original_aspect_ratio=decrease,pad='' @ show_opt (maxWidth cfg) @ '':''
          @ show_opt (maxHeight cfg) @ '':x=('' @ show_opt (maxWidth cfg) @ ''-iw)/2:y=(''
          @ show_opt (maxHeight cfg) @ ''-ih)/2:color=black'',
        ''-f image2 -'']"

text \<open>
  The visitor listener from the point where it has the visitor information and the
  picture: when the picture is for this accessory, the pending motion timer is cleared
  and the padding transcoder is started; the listener goes on when that one closes.
\<close>

definition on_visitor_picture :: "VisitorOnCameraInfo \<Rightarrow> buffer \<Rightarrow> stmt" where
  "on_visitor_picture v img s =
     (if cameraLocation v = accessoryLocation (ctx s) then
        block
          [(optionally clearTimeout (motionTimer (ctx s))),
           log_msg Debug (tag s @ ''Snapshot resize command: ffmpeg '' @ padding_args (config s)),
           ok (\<lambda>s. snd (spawn_snapshot (PadFor v) (padding_args (config s)) img s))]
          s
      else Inr s)"

text \<open>The GET handler of the MotionDetected characteristic.\<close>

definition on_motion_get :: "nat \<Rightarrow> stmt" where
  "on_motion_get cb s = emit (MotionDetectedCallback cb (motionOnCamera (ctx s))) s"

text \<open>
  The SHUTDOWN listener. Its \<open>for (const session in this.ongoingSessions)\<close> enumerates the
  properties of a \<open>Map\<close> object, of which there are none, so no session is stopped.
\<close>

definition on_shutdown :: stmt where
  "on_shutdown s =
     block
       [ok (\<lambda>s. s\<lparr>ctx := (ctx s)\<lparr>visitorInfo := None\<rparr>\<rparr>),
        (optionally clearTimeout (motionTimer (ctx s))),
        ok (\<lambda>s. s\<lparr>ctx := (ctx s)\<lparr>motionTimer := None\<rparr>\<rparr>)]
       s"

section \<open>Timers and the event loop\<close>

text \<open>The feed interval's callback.\<close>

definition feed_frame :: "handle \<Rightarrow> stmt" where
  "feed_frame a s =
     (case source_image s of
        (Inl e, s1) \<Rightarrow> Inr s1
      | (Inr img, s1) \<Rightarrow>
          (case mainProcess (session_at s1 a) of
             None \<Rightarrow> Inr s1
           | Some p \<Rightarrow>
               (case processes s1 p of
                  None \<Rightarrow> Inr s1
                | Some pr \<Rightarrow>
                    Inr (s1\<lparr>processes := (processes s1)(p \<mapsto>
                           pr\<lparr>stdinWritten := stdinWritten pr @ [Bytes img]\<rparr>)\<rparr>))))"

definition run_action :: "timer_action \<Rightarrow> stmt" where
  "run_action act =
     (case act of
        InactivityTimeout sid \<Rightarrow> inactivity_timeout sid
      | FeedFrame a \<Rightarrow> feed_frame a
      | KillProcess p \<Rightarrow> kill_process p
      | ExpireSnapshot \<Rightarrow> ok (\<lambda>s. s\<lparr>snapshotPromise := None\<rparr>)
      | InvalidateMotion \<Rightarrow> invalidate_motion)"

text \<open>
  A timer that fires: a timeout leaves the table, an interval is armed again one period
  from now; then its callback runs.
\<close>

definition fire :: "handle \<Rightarrow> stmt" where
  "fire h s =
     (case timers s h of
        None \<Rightarrow> Inr s
      | Some t \<Rightarrow>
          block
            [ok (\<lambda>s. s\<lparr>timers := (timers s)(h := (case every t of
                                                   None \<Rightarrow> None
                                                 | Some d \<Rightarrow> Some (t\<lparr>due := now s + d\<rparr>)))\<rparr>),
             run_action (action t)]
            s)"

datatype event =
    Prepare PrepareStreamRequest nat "js_error + int" int "js_error + int" int
  | StreamRequest StreamingRequest nat
  | SocketMessage handle
  | SocketError handle string
  | TimerFires handle
  | ProcessStdout handle string
  | ProcessStderrLine handle string
  | ProcessError handle string
  | ProcessExit handle "int option" "string option"
  | SnapshotRequested SnapshotRequest nat
  | SnapshotStdout handle buffer
  | SnapshotStderr handle string
  | SnapshotError handle string
  | SnapshotClose handle
  | VisitorPicture VisitorOnCameraInfo buffer
  | MotionDetectedGet nat
  | Shutdown
  | Elapse time

definition handle_event :: "event \<Rightarrow> stmt" where
  "handle_event e =
     (case e of
        Prepare request cb vp vs ap as \<Rightarrow> prepareStream request cb vp vs ap as
      | StreamRequest request cb \<Rightarrow> handleStreamRequest request cb
      | SocketMessage k \<Rightarrow> on_socket_message k
      | SocketError k m \<Rightarrow> on_socket_error k m
      | TimerFires h \<Rightarrow> fire h
      | ProcessStdout p d \<Rightarrow> on_stdout p d
      | ProcessStderrLine p l \<Rightarrow> on_stderr_line p l
      | ProcessError p m \<Rightarrow> on_process_error p m
      | ProcessExit p c g \<Rightarrow> on_process_exit p c g
      | SnapshotRequested request cb \<Rightarrow> handleSnapshotRequest request cb
      | SnapshotStdout f d \<Rightarrow> on_snapshot_stdout f d
      | SnapshotStderr f d \<Rightarrow> on_snapshot_stderr f d
      | SnapshotError f m \<Rightarrow> on_snapshot_error f m
      | SnapshotClose f \<Rightarrow> on_snapshot_close f
      | VisitorPicture v img \<Rightarrow> on_visitor_picture v img
      | MotionDetectedGet cb \<Rightarrow> on_motion_get cb
      | Shutdown \<Rightarrow> on_shutdown
      | Elapse d \<Rightarrow> ok (\<lambda>s. s\<lparr>now := now s + d\<rparr>))"

text \<open>
  When the environment may deliver an event: a timer fires only once it is due, time does
  not pass a due timer, a datagram arrives only on a running socket, and a child process
  speaks only if it exists.
\<close>

definition no_timer_before :: "world \<Rightarrow> time \<Rightarrow> bool" where
  "no_timer_before s t \<longleftrightarrow>
     list_all (\<lambda>h. case timers s h of None \<Rightarrow> True | Some x \<Rightarrow> t \<le> due x) [0..<fresh s]"

definition enabled :: "world \<Rightarrow> event \<Rightarrow> bool" where
  "enabled s e =
     (case e of
        TimerFires h \<Rightarrow> (case timers s h of None \<Rightarrow> False | Some t \<Rightarrow> due t \<le> now s)
      | Elapse d \<Rightarrow> 0 \<le> d \<and> no_timer_before s (now s + d)
      | SocketMessage k \<Rightarrow> (case sockets s k of None \<Rightarrow> False | Some so \<Rightarrow> running so)
      | SocketError k m \<Rightarrow> sockets s k \<noteq> None
      | ProcessStdout p d \<Rightarrow> processes s p \<noteq> None
      | ProcessStderrLine p l \<Rightarrow> processes s p \<noteq> None
      | ProcessError p m \<Rightarrow> processes s p \<noteq> None
      | ProcessExit p c g \<Rightarrow> processes s p \<noteq> None
      | SnapshotStdout f d \<Rightarrow> snapshotProcesses s f \<noteq> None
      | SnapshotStderr f d \<Rightarrow> snapshotProcesses s f \<noteq> None
      | SnapshotError f m \<Rightarrow> snapshotProcesses s f \<noteq> None
      | SnapshotClose f \<Rightarrow> snapshotProcesses s f \<noteq> None
      | _ \<Rightarrow> True)"

text \<open>
  A run of the event loop: \<open>None\<close> when an event is not enabled where it stands, otherwise
  the state reached, or the first exception that no handler caught.
\<close>

fun run :: "event list \<Rightarrow> world \<Rightarrow> (js_error + world) option" where
  "run [] s = Some (Inr s)"
| "run (e # es) s =
     (if enabled s e then
        (case handle_event e s of
           Inl err \<Rightarrow> Some (Inl err)
         | Inr s' \<Rightarrow> run es s')
      else None)"

text \<open>The state when the plugin has registered the accessory and built its delegate.\<close>

definition initial :: "string \<Rightarrow> string \<Rightarrow> string \<Rightarrow> js_error + buffer \<Rightarrow> handle set \<Rightarrow> world" where
  "initial dev name location idle bad =
     \<lparr> now = 0, fresh = 0, config = defaultVideoConfig,
       ctx = \<lparr> deviceID = dev, displayName = name, init = False, accessoryLocation = location,
               motionTimer = None, motionOnCamera = False, visitorInfo = None \<rparr>,
       timers = Map.empty, sockets = Map.empty, processes = Map.empty, sessions = Map.empty,
       pendingSessions = Map.empty, ongoingSessions = Map.empty, snapshotPromise = None,
       promises = Map.empty, snapshotProcesses = Map.empty, alternativeSnapshot = None,
       idleImage = idle, faulty = bad, logged = [], outputs = [] \<rparr>"

section \<open>Notions used in the statements\<close>

text \<open>
  \<open>only_resources s s'\<close>: from \<open>s\<close> to \<open>s'\<close> nothing changed but the handle counter, the
  timers, the sockets, the processes and the log.
\<close>

definition only_resources :: "world \<Rightarrow> world \<Rightarrow> bool" where
  "only_resources s s' \<longleftrightarrow>
     s' = s\<lparr>fresh := fresh s', timers := timers s', sockets := sockets s',
            processes := processes s', logged := logged s'\<rparr>"

text \<open>No session id is in both maps.\<close>

definition sessions_disjoint :: "world \<Rightarrow> bool" where
  "sessions_disjoint s \<longleftrightarrow> (\<forall>sid. pendingSessions s sid = None \<or> ongoingSessions s sid = None)"

text \<open>
  \<open>stop_requested s' p due_at\<close>: the stdin of process \<open>p\<close> was ended and its kill timer
  is armed for \<open>due_at\<close>.
\<close>

definition stop_requested :: "world \<Rightarrow> handle \<Rightarrow> time \<Rightarrow> bool" where
  "stop_requested s' p due_at \<longleftrightarrow>
     (case processes s' p of
        None \<Rightarrow> False
      | Some pr \<Rightarrow>
          stdinEnded pr \<and>
          (case killTimeout pr of
             None \<Rightarrow> False
           | Some h \<Rightarrow> timers s' h = Some \<lparr>due = due_at, every = None, action = KillProcess p\<rparr>))"

text \<open>The armed timers with a given callback, among the handles allocated so far.\<close>

definition armed :: "world \<Rightarrow> timer_action \<Rightarrow> handle list" where
  "armed s act =
     filter (\<lambda>h. case timers s h of None \<Rightarrow> False | Some t \<Rightarrow> action t = act) [0..<fresh s]"

text \<open>
  The state that a statement returns (the entry state when it throws), and the two
  guarded releases of \<open>stopStream\<close>.
\<close>

definition after :: "stmt \<Rightarrow> world \<Rightarrow> world" where
  "after c s = (case c s of Inr s' \<Rightarrow> s' | Inl e \<Rightarrow> s)"

definition trying_close :: "handle option \<Rightarrow> (js_error \<Rightarrow> string) \<Rightarrow> stmt" where
  "trying_close ko m = try_catch (optionally socket_close ko) (\<lambda>err. log_msg Err (m err))"

definition trying_stop :: "handle option \<Rightarrow> (js_error \<Rightarrow> string) \<Rightarrow> stmt" where
  "trying_stop po m = try_catch (optionally FFmpegProcess_stop po) (\<lambda>err. log_msg Err (m err))"





text \<open>
  For the motion sensor: the event that completes a visitor event (the close of a padding
  transcoder that has not been answered), the cleared motion state, and the runs in which
  no visitor event completes.
\<close>

definition completes_visitor :: "world \<Rightarrow> event \<Rightarrow> bool" where
  "completes_visitor s e =
     (case e of
        SnapshotClose p \<Rightarrow>
          (case snapshotProcesses s p of
             None \<Rightarrow> False
           | Some sp \<Rightarrow> (case role sp of PadFor v \<Rightarrow> \<not> answered sp | _ \<Rightarrow> False))
      | _ \<Rightarrow> False)"

definition motion_clear :: "world \<Rightarrow> bool" where
  "motion_clear s \<longleftrightarrow> \<not> motionOnCamera (ctx s) \<and> visitorInfo (ctx s) = None"

fun no_visitor_completes :: "event list \<Rightarrow> world \<Rightarrow> bool" where
  "no_visitor_completes [] s = True"
| "no_visitor_completes (e # es) s =
     (\<not> completes_visitor s e
      \<and> (case handle_event e s of Inr s' \<Rightarrow> no_visitor_completes es s' | Inl err \<Rightarrow> True))"

section \<open>A concrete accessory\<close>

text \<open>
  The front-door camera with the repository's configuration, one \<open>prepare\<close> and one
  \<open>start\<close> of session \<open>a\<close>: the states on which the general statements are instantiated.
\<close>

definition demo_world :: world where
  "demo_world = initial ''FD-CAM0'' ''Door'' ''door_record_duringlist'' (Inr [137, 80, 78, 71]) {}"

definition demo_prepare :: PrepareStreamRequest where
  "demo_prepare =
     \<lparr> prepareSessionID = ''a'', targetAddress = ''10.0.0.2'', addressVersion = ''ipv4'',
       prepareVideo = \<lparr> port = 50000, srtpCryptoSuite = 0, srtp_key = [1, 2, 3], srtp_salt = [4, 5] \<rparr>,
       prepareAudio = \<lparr> port = 50002, srtpCryptoSuite = 0, srtp_key = [6, 7, 8], srtp_salt = [9] \<rparr> \<rparr>"

definition demo_start :: StartStreamRequest where
  "demo_start =
     \<lparr> sessionID = ''a'',
       video = \<lparr> width = 1920, height = 1080, video_fps = 30, video_max_bit_rate = 299,
                 video_pt = 99, rtcp_interval = 1 / 2, mtu = 1378 \<rparr>,
       audioInfo = \<lparr> audio_codec = OPUS, sample_rate = 16, audio_max_bit_rate = 24, channel = 1,
                     audio_pt = 110 \<rparr> \<rparr>"

definition demo_prepare_event :: event where
  "demo_prepare_event = Prepare demo_prepare 1 (Inr 40000) 111 (Inr 40002) 222"

definition demo_prepared :: world where
  "demo_prepared = after (handle_event demo_prepare_event) demo_world"

definition demo_started :: world where
  "demo_started = after (handle_event (StreamRequest (START demo_start) 7)) demo_prepared"

definition demo_info :: SessionInfo where
  "demo_info =
     \<lparr> address = ''10.0.0.2'', ipv6 = False, videoPort = 50000, videoReturnPort = 40000,
       videoCryptoSuite = 0, videoSRTP = [1, 2, 3, 4, 5], videoSSRC = 111, audioPort = 50002,
       audioReturnPort = 40002, audioCryptoSuite = 0, audioSRTP = [6, 7, 8, 9], audioSSRC = 222 \<rparr>"

definition demo_reprepared :: world where
  "demo_reprepared = after (handle_event demo_prepare_event) demo_started"

definition demo_stopped :: world where
  "demo_stopped = after (stopStream ''a'') demo_started"

text \<open>
  Runs on the concrete accessory: the state a run ends in, the feed interval firing \<open>n\<close>
  times with nothing else happening, the started session after one datagram, after 150
  feed periods without a datagram, and after its process exits with code 1 and then
  prints a line.
\<close>

definition after_run :: "event list \<Rightarrow> world \<Rightarrow> world" where
  "after_run es s = (case run es s of Some (Inr t) \<Rightarrow> t | _ \<Rightarrow> s)"

definition feed_rounds :: "nat \<Rightarrow> event list" where
  "feed_rounds n = concat (replicate n [Elapse (100 / 3), TimerFires 3])"

definition feeding :: "nat \<Rightarrow> world \<Rightarrow> bool" where
  "feeding n t \<longleftrightarrow>
     now t = of_nat n * (100 / 3) \<and> fresh t = 4
     \<and> timers t = [3 \<mapsto> \<lparr>due = now t + 100 / 3, every = Some (100 / 3), action = FeedFrame 0\<rparr>]
     \<and> ongoingSessions t = [''a'' \<mapsto> 0] \<and> outputs t = outputs demo_started
     \<and> sessions t = sessions demo_started"

definition demo_heard :: world where
  "demo_heard = after (on_socket_message 1) demo_started"

definition demo_idle :: world where
  "demo_idle = after_run (feed_rounds 150) demo_started"

definition demo_crashed :: world where
  "demo_crashed =
     after_run [ProcessExit 2 (Some 1) None, ProcessStderrLine 2 ''Conversion failed!''] demo_started"







text \<open>
  Visitor events on the concrete accessory: two visitors at its camera, the state after
  one complete visitor event, and the state in which the pictures of both have arrived
  and both padding transcoders have written a byte and are still running.
\<close>

definition demo_visitor :: VisitorOnCameraInfo where
  "demo_visitor =
     \<lparr> index = 41, cameraLocation = ''door_record_duringlist'', date = ''2024-05-01 10:00:00'',
       mediaType = ''jpg'', isNew = True, snapshot = None \<rparr>"

definition demo_visitor_later :: VisitorOnCameraInfo where
  "demo_visitor_later = demo_visitor\<lparr>index := 42, date := ''2024-05-01 10:00:01''\<rparr>"

definition demo_visited :: world where
  "demo_visited =
     after_run [VisitorPicture demo_visitor [16, 32, 48], SnapshotStdout 0 [7], SnapshotClose 0] demo_world"

definition demo_two_pictures :: world where
  "demo_two_pictures =
     after_run [VisitorPicture demo_visitor [16, 32, 48], VisitorPicture demo_visitor_later [64, 80, 96],
                SnapshotStdout 0 [7], SnapshotStdout 1 [8]] demo_world"

definition pad_process :: "VisitorOnCameraInfo \<Rightarrow> buffer \<Rightarrow> buffer \<Rightarrow> snapshot_process" where
  "pad_process v img out =
     \<lparr> role = PadFor v, snapshotArgs = split_ws (padding_args defaultVideoConfig),
       inputBuffer = img, collected = out, spawnedAt = 0, answered = False \<rparr>"

section \<open>parseProgress and determineResolution: properties\<close>

lemma index_of_None_iff: "index_of x xs = None \<longleftrightarrow> x \<notin> set xs"
  by (induction xs) (auto split: option.splits)

lemma trim_of_Inr_iff: "(\<exists>t. trim_of v = Inr t) \<longleftrightarrow> v \<noteq> None"
  by (cases v) (simp_all add: trim_of_def)

text \<open>
  Claim C9, as the code has it. \<open>parseProgress\<close> returns a record exactly when the chunk
  begins with \<open>frame=\<close> and the block gives a value to both \<open>out_time\<close> and \<open>progress\<close>
  (the two fields whose \<open>trim\<close> throws on \<open>undefined\<close>); in every other case it returns
  \<open>undefined\<close>, and it never throws. The numeric fields of the record are whatever \<open>parseInt\<close>
  and \<open>parseFloat\<close> make of the block, \<open>NaN\<close> for a missing or non-numeric one.
\<close>

theorem parseProgress_characterised:
  "parseProgress input =
     (if prefix ''frame='' input
         \<and> get_field (progress_of input) ''out_time'' \<noteq> None
         \<and> get_field (progress_of input) ''progress'' \<noteq> None
      then Some \<lparr> frame = parseInt (get_field (progress_of input) ''frame''),
                  fps = parseFloat (get_field (progress_of input) ''fps''),
                  streamQ = parseFloat (get_field (progress_of input) ''stream_0_0q''),
                  bitrate = parseFloat (get_field (progress_of input) ''bitrate''),
                  totalSize = parseInt (get_field (progress_of input) ''total_size''),
                  outTimeMicroseconds = parseInt (get_field (progress_of input) ''out_time_us''),
                  outTime = trim (the (get_field (progress_of input) ''out_time'')),
                  duplicateFrames = parseInt (get_field (progress_of input) ''dup_frames''),
                  dropFrames = parseInt (get_field (progress_of input) ''drop_frames''),
                  speed = parseFloat (get_field (progress_of input) ''speed''),
                  progress = trim (the (get_field (progress_of input) ''progress'')) \<rparr>
      else None)"
proof (cases "prefix ''frame='' input")
  case False
  then show ?thesis by (simp add: parseProgress_def)
next
  case True
  show ?thesis
  proof (cases "get_field (progress_of input) ''out_time''")
    case None
    with True show ?thesis by (simp add: parseProgress_def build_progress_def trim_of_def)
  next
    case (Some a)
    note out_time = this
    show ?thesis
    proof (cases "get_field (progress_of input) ''progress''")
      case None
      with True out_time show ?thesis
        by (simp add: parseProgress_def build_progress_def trim_of_def)
    next
      case (Some b)
      with True out_time show ?thesis
        by (simp add: parseProgress_def build_progress_def trim_of_def)
    qed
  qed
qed

theorem parseProgress_characterised_witness:
  "parseProgress (''frame=12'' @ [CHR 0x0A] @ ''fps=29.97'' @ [CHR 0x0A] @ ''out_time=00:00:01.000000''
      @ [CHR 0x0A] @ ''progress=continue'' @ [CHR 0x0A])
   = Some \<lparr> frame = Num 12, fps = Num (2997 / 100), streamQ = NaN, bitrate = NaN, totalSize = NaN,
            outTimeMicroseconds = NaN, outTime = ''00:00:01.000000'', duplicateFrames = NaN,
            dropFrames = NaN, speed = NaN, progress = ''continue'' \<rparr>
   \<and> parseProgress (''frame=12'' @ [CHR 0x0A] @ ''fps=29.97'' @ [CHR 0x0A]) = None
   \<and> parseProgress (''fps=29.97'' @ [CHR 0x0A] @ ''out_time=0'' @ [CHR 0x0A] @ ''progress=end'') = None"
proof -
  let ?a = "''frame=12'' @ [CHR 0x0A] @ ''fps=29.97'' @ [CHR 0x0A] @ ''out_time=00:00:01.000000''
      @ [CHR 0x0A] @ ''progress=continue'' @ [CHR 0x0A]"
  let ?b = "''frame=12'' @ [CHR 0x0A] @ ''fps=29.97'' @ [CHR 0x0A]"
  let ?c = "''fps=29.97'' @ [CHR 0x0A] @ ''out_time=0'' @ [CHR 0x0A] @ ''progress=end''"
  have a: "prefix ''frame='' ?a" "get_field (progress_of ?a) ''out_time'' = Some ''00:00:01.000000''"
    "get_field (progress_of ?a) ''progress'' = Some ''continue''"
    "get_field (progress_of ?a) ''frame'' = Some ''12''"
    "get_field (progress_of ?a) ''fps'' = Some ''29.97''"
    "get_field (progress_of ?a) ''stream_0_0q'' = None"
    "get_field (progress_of ?a) ''bitrate'' = None"
    "get_field (progress_of ?a) ''total_size'' = None"
    "get_field (progress_of ?a) ''out_time_us'' = None"
    "get_field (progress_of ?a) ''dup_frames'' = None"
    "get_field (progress_of ?a) ''drop_frames'' = None"
    "get_field (progress_of ?a) ''speed'' = None"
    by code_simp+
  have v: "parseInt (Some ''12'') = Num 12" "parseFloat (Some ''29.97'') = Num (2997 / 100)"
    "parseInt None = NaN" "parseFloat None = NaN"
    "trim ''00:00:01.000000'' = ''00:00:01.000000''" "trim ''continue'' = ''continue''"
    by code_simp+
  have b: "prefix ''frame='' ?b" "get_field (progress_of ?b) ''out_time'' = None"
    by code_simp+
  have c: "\<not> prefix ''frame='' ?c"
    by code_simp
  have 1: "parseProgress ?a = Some \<lparr> frame = Num 12, fps = Num (2997 / 100), streamQ = NaN, bitrate = NaN, totalSize = NaN,
            outTimeMicroseconds = NaN, outTime = ''00:00:01.000000'', duplicateFrames = NaN,
            dropFrames = NaN, speed = NaN, progress = ''continue'' \<rparr>"
    using parseProgress_characterised [of ?a] a v by simp
  have 2: "parseProgress ?b = None"
    using parseProgress_characterised [of ?b] b by simp
  have 3: "parseProgress ?c = None"
    using parseProgress_characterised [of ?c] c by simp
  from 1 2 3 show ?thesis by blast
qed

text \<open>
  Claim C9 as stated fails: a block whose frame count is not a number and that lacks most
  fields is not discarded, it comes back as a record of \<open>NaN\<close>s.
\<close>

theorem parseProgress_garbage_counterexample:
  "parseProgress (''frame=x'' @ [CHR 0x0A] @ ''out_time= 0 '' @ [CHR 0x0A] @ ''progress=continue'')
   = Some \<lparr> frame = NaN, fps = NaN, streamQ = NaN, bitrate = NaN, totalSize = NaN,
            outTimeMicroseconds = NaN, outTime = ''0'', duplicateFrames = NaN,
            dropFrames = NaN, speed = NaN, progress = ''continue'' \<rparr>"
  by code_simp

lemma forced_width:
  "\<not> isSnapshot \<Longrightarrow> forceMax cfg \<Longrightarrow> maxWidth cfg = Some mw \<Longrightarrow>
   width (determineResolution cfg request isSnapshot) = mw"
  by (simp add: determineResolution_def Let_def)

lemma forced_height:
  "\<not> isSnapshot \<Longrightarrow> forceMax cfg \<Longrightarrow> maxHeight cfg = Some mh \<Longrightarrow>
   height (determineResolution cfg request isSnapshot) = mh"
  by (simp add: determineResolution_def Let_def)

lemma resize_present:
  "''none'' \<notin> set (configured_filters cfg) \<Longrightarrow>
   width (determineResolution cfg request isSnapshot) > 0 \<or> height (determineResolution cfg request isSnapshot) > 0 \<Longrightarrow>
   resizeFilter (determineResolution cfg request isSnapshot)
     = Some (scale_filter (width (determineResolution cfg request isSnapshot))
                          (height (determineResolution cfg request isSnapshot)))"
  by (simp add: determineResolution_def Let_def index_of_None_iff)

lemma unforced_width:
  "\<not> forceMax cfg \<Longrightarrow> (case maxWidth cfg of None \<Rightarrow> True | Some mw \<Rightarrow> width request \<le> mw) \<Longrightarrow>
   width (determineResolution cfg request isSnapshot) = width request"
  by (simp add: determineResolution_def Let_def split: option.splits)

lemma unforced_height:
  "\<not> forceMax cfg \<Longrightarrow> (case maxHeight cfg of None \<Rightarrow> True | Some mh \<Rightarrow> height request \<le> mh) \<Longrightarrow>
   height (determineResolution cfg request isSnapshot) = height request"
  by (simp add: determineResolution_def Let_def split: option.splits)

lemma snapshot_dims:
  "width (determineResolution cfg request True) = width request"
  "height (determineResolution cfg request True) = height request"
  by (simp_all add: determineResolution_def Let_def)

lemma scale_1280_720:
  "scale_filter 1280 720 = ''scale='' @ [CHR 0x27] @ ''min(1280,iw)'' @ [CHR 0x27] @ '':'' @ [CHR 0x27] @ ''min(720,ih)'' @ [CHR 0x27] @ '':force_original_aspect_ratio=decrease''"
  by code_simp

lemma resize_absent:
  "''none'' \<in> set (configured_filters cfg) \<Longrightarrow>
   resizeFilter (determineResolution cfg request isSnapshot) = None"
  by (simp add: determineResolution_def Let_def index_of_None_iff)

lemma none_filters:
  "configured_filters (defaultVideoConfig\<lparr>videoFilter := Some ''none''\<rparr>) = [''none'']"
  by (simp add: configured_filters_def)

text \<open>
  Claim C7 as stated fails when the configured filter list has a \<open>none\<close> entry: with
  \<open>maxWidth = 1280\<close>, \<open>maxHeight = 720\<close> and \<open>forceMax\<close> the live-stream request of
  1920 x 1080 is clamped to 1280 x 720, but no resize filter is built.
\<close>

theorem determineResolution_none_counterexample:
  "maxWidth (defaultVideoConfig\<lparr>videoFilter := Some ''none''\<rparr>) = Some 1280
   \<and> maxHeight (defaultVideoConfig\<lparr>videoFilter := Some ''none''\<rparr>) = Some 720
   \<and> forceMax (defaultVideoConfig\<lparr>videoFilter := Some ''none''\<rparr>)
   \<and> width (determineResolution (defaultVideoConfig\<lparr>videoFilter := Some ''none''\<rparr>)
              \<lparr>width = 1920, height = 1080\<rparr> False) = 1280
   \<and> height (determineResolution (defaultVideoConfig\<lparr>videoFilter := Some ''none''\<rparr>)
              \<lparr>width = 1920, height = 1080\<rparr> False) = 720
   \<and> resizeFilter (determineResolution (defaultVideoConfig\<lparr>videoFilter := Some ''none''\<rparr>)
              \<lparr>width = 1920, height = 1080\<rparr> False) = None"
proof -
  let ?c = "defaultVideoConfig\<lparr>videoFilter := Some ''none''\<rparr>"
  let ?r = "\<lparr>width = 1920, height = 1080\<rparr>"
  have c: "maxWidth ?c = Some 1280" "maxHeight ?c = Some 720" "forceMax ?c"
    by (simp_all add: defaultVideoConfig_def)
  have w: "width (determineResolution ?c ?r False) = 1280"
    by (rule forced_width [OF _ c(3) c(1)]) simp
  have h: "height (determineResolution ?c ?r False) = 720"
    by (rule forced_height [OF _ c(3) c(2)]) simp
  have "''none'' \<in> set (configured_filters ?c)" by (simp add: none_filters)
  then have f: "resizeFilter (determineResolution ?c ?r False) = None" by (rule resize_absent)
  from c w h f show ?thesis by simp
qed

text \<open>
  Claim C7, as the code has it. With \<open>maxWidth = 1280\<close>, \<open>maxHeight = 720\<close> and \<open>forceMax\<close>, a
  live-stream request (of 1920 x 1080, and of any other size) gets 1280 x 720, whatever
  the configured filters are; the resize filter for these dimensions is present exactly
  when the configured filter list has no \<open>none\<close> entry. Without \<open>forceMax\<close>, a request
  within the maxima keeps its dimensions; a snapshot request always keeps them.
\<close>

theorem determineResolution_plan:
  fixes cfg :: VideoConfig and request :: "'a SnapshotRequest_scheme"
  shows
  "(maxWidth cfg = Some 1280 \<and> maxHeight cfg = Some 720 \<and> forceMax cfg \<longrightarrow>
      width (determineResolution cfg request False) = 1280
      \<and> height (determineResolution cfg request False) = 720
      \<and> resizeFilter (determineResolution cfg request False)
          = (if ''none'' \<in> set (configured_filters cfg) then None
             else Some (scale_filter 1280 720)))
   \<and> (\<not> forceMax cfg
        \<and> (case maxWidth cfg of None \<Rightarrow> True | Some mw \<Rightarrow> width request \<le> mw)
        \<and> (case maxHeight cfg of None \<Rightarrow> True | Some mh \<Rightarrow> height request \<le> mh) \<longrightarrow>
        width (determineResolution cfg request isSnapshot) = width request
        \<and> height (determineResolution cfg request isSnapshot) = height request)
   \<and> width (determineResolution cfg request True) = width request
   \<and> height (determineResolution cfg request True) = height request"
proof -
  have a: "width (determineResolution cfg request False) = 1280
      \<and> height (determineResolution cfg request False) = 720
      \<and> resizeFilter (determineResolution cfg request False)
          = (if ''none'' \<in> set (configured_filters cfg) then None
             else Some (scale_filter 1280 720))"
    if h: "maxWidth cfg = Some 1280 \<and> maxHeight cfg = Some 720 \<and> forceMax cfg"
  proof -
    have w: "width (determineResolution cfg request False) = 1280"
      using h forced_width [of False cfg 1280 request] by simp
    have hh: "height (determineResolution cfg request False) = 720"
      using h forced_height [of False cfg 720 request] by simp
    have "resizeFilter (determineResolution cfg request False)
          = (if ''none'' \<in> set (configured_filters cfg) then None
             else Some (scale_filter 1280 720))"
    proof (cases "''none'' \<in> set (configured_filters cfg)")
      case True
      then show ?thesis by (simp add: resize_absent)
    next
      case False
      then show ?thesis using resize_present [of cfg request False] w hh by simp
    qed
    with w hh show ?thesis by simp
  qed
  have b: "width (determineResolution cfg request isSnapshot) = width request
        \<and> height (determineResolution cfg request isSnapshot) = height request"
    if "\<not> forceMax cfg
        \<and> (case maxWidth cfg of None \<Rightarrow> True | Some mw \<Rightarrow> width request \<le> mw)
        \<and> (case maxHeight cfg of None \<Rightarrow> True | Some mh \<Rightarrow> height request \<le> mh)"
    using that unforced_width [of cfg request isSnapshot] unforced_height [of cfg request isSnapshot]
    by simp
  from a b snapshot_dims [of cfg request] show ?thesis by blast
qed

theorem determineResolution_plan_witness:
  "determineResolution defaultVideoConfig \<lparr>width = 1920, height = 1080\<rparr> False
     = \<lparr> width = 1280, height = 720,
         streamFilter = Some (scale_filter 1280 720 @ '',scale=trunc(iw/2)*2:trunc(ih/2)*2''),
         snapshotFilter = Some [],
         resizeFilter = Some (''scale='' @ [CHR 0x27] @ ''min(1280,iw)'' @ [CHR 0x27] @ '':''
            @ [CHR 0x27] @ ''min(720,ih)'' @ [CHR 0x27] @ '':force_original_aspect_ratio=decrease'') \<rparr>
   \<and> width (determineResolution (defaultVideoConfig\<lparr>forceMax := False\<rparr>)
              \<lparr>width = 640, height = 480\<rparr> False) = 640
   \<and> height (determineResolution (defaultVideoConfig\<lparr>forceMax := False\<rparr>)
              \<lparr>width = 640, height = 480\<rparr> False) = 480
   \<and> width (determineResolution defaultVideoConfig \<lparr>width = 1920, height = 1080\<rparr> True) = 1920
   \<and> height (determineResolution defaultVideoConfig \<lparr>width = 1920, height = 1080\<rparr> True) = 1080"
proof -
  let ?r = "\<lparr>width = 1920, height = 1080\<rparr>"
  let ?q = "\<lparr>width = 640, height = 480\<rparr>"
  let ?c = "defaultVideoConfig\<lparr>forceMax := False\<rparr>"
  have c1: "maxWidth defaultVideoConfig = Some 1280 \<and> maxHeight defaultVideoConfig = Some 720
      \<and> forceMax defaultVideoConfig"
    by (simp add: defaultVideoConfig_def)
  have n: "''none'' \<notin> set (configured_filters defaultVideoConfig)"
    by (simp add: defaultVideoConfig_def configured_filters_def)
  have c2: "\<not> forceMax ?c
        \<and> (case maxWidth ?c of None \<Rightarrow> True | Some mw \<Rightarrow> width ?q \<le> mw)
        \<and> (case maxHeight ?c of None \<Rightarrow> True | Some mh \<Rightarrow> height ?q \<le> mh)"
    by (simp add: defaultVideoConfig_def)
  have f: "streamFilter (determineResolution defaultVideoConfig ?r False)
             = Some (scale_filter 1280 720 @ '',scale=trunc(iw/2)*2:trunc(ih/2)*2'')"
    "snapshotFilter (determineResolution defaultVideoConfig ?r False) = Some []"
    by (simp_all add: determineResolution_def Let_def defaultVideoConfig_def configured_filters_def)
  have "width (determineResolution defaultVideoConfig ?r False) = 1280
      \<and> height (determineResolution defaultVideoConfig ?r False) = 720
      \<and> resizeFilter (determineResolution defaultVideoConfig ?r False)
          = (if ''none'' \<in> set (configured_filters defaultVideoConfig) then None
             else Some (scale_filter 1280 720))"
    using determineResolution_plan [of defaultVideoConfig ?r False] c1 by blast
  with n have 1: "width (determineResolution defaultVideoConfig ?r False) = 1280
      \<and> height (determineResolution defaultVideoConfig ?r False) = 720
      \<and> resizeFilter (determineResolution defaultVideoConfig ?r False) = Some (scale_filter 1280 720)"
    by simp
  have 2: "width (determineResolution ?c ?q False) = width ?q
        \<and> height (determineResolution ?c ?q False) = height ?q"
    using determineResolution_plan [of ?c ?q False] c2 by blast
  have 3: "width (determineResolution defaultVideoConfig ?r True) = width ?r
     \<and> height (determineResolution defaultVideoConfig ?r True) = height ?r"
    using determineResolution_plan [of defaultVideoConfig ?r True] by blast
  have e: "determineResolution defaultVideoConfig ?r False
     = \<lparr> width = 1280, height = 720,
         streamFilter = Some (scale_filter 1280 720 @ '',scale=trunc(iw/2)*2:trunc(ih/2)*2''),
         snapshotFilter = Some [],
         resizeFilter = Some (scale_filter 1280 720) \<rparr>"
    using 1 f by (cases "determineResolution defaultVideoConfig ?r False") simp
  show ?thesis using e 2 3 scale_1280_720 by simp
qed

section \<open>Statements, releases and stopStream: lemmas\<close>

lemma ok_apply [simp]: "ok f s = Inr (f s)" by (simp add: ok_def)
lemma skip_apply [simp]: "skip s = Inr s" by (simp add: skip_def)
lemma log_msg_apply [simp]: "log_msg l m s = Inr (s\<lparr>logged := logged s @ [Log l m]\<rparr>)" by (simp add: log_msg_def)
lemma emit_apply [simp]: "emit e s = Inr (s\<lparr>outputs := outputs s @ [e]\<rparr>)" by (simp add: emit_def)
lemma clearTimeout_apply [simp]: "clearTimeout h s = Inr (s\<lparr>timers := (timers s)(h := None)\<rparr>)" by (simp add: clearTimeout_def)
lemma clearInterval_apply [simp]: "clearInterval h s = Inr (s\<lparr>timers := (timers s)(h := None)\<rparr>)" by (simp add: clearInterval_def)
lemma optionally_None [simp]: "optionally f None s = Inr s" by (simp add: optionally_def)
lemma optionally_Some [simp]: "optionally f (Some x) s = f x s" by (simp add: optionally_def)

lemma only_resources_iff:
  "only_resources s s' \<longleftrightarrow>
     now s' = now s \<and> config s' = config s \<and> ctx s' = ctx s \<and> sessions s' = sessions s
     \<and> pendingSessions s' = pendingSessions s \<and> ongoingSessions s' = ongoingSessions s
     \<and> snapshotPromise s' = snapshotPromise s \<and> promises s' = promises s
     \<and> snapshotProcesses s' = snapshotProcesses s \<and> alternativeSnapshot s' = alternativeSnapshot s
     \<and> idleImage s' = idleImage s \<and> faulty s' = faulty s \<and> outputs s' = outputs s"
proof
  assume "only_resources s s'"
  then have e: "s' = s\<lparr>fresh := fresh s', timers := timers s', sockets := sockets s',
            processes := processes s', logged := logged s'\<rparr>"
    by (simp add: only_resources_def)
  show "now s' = now s \<and> config s' = config s \<and> ctx s' = ctx s \<and> sessions s' = sessions s
     \<and> pendingSessions s' = pendingSessions s \<and> ongoingSessions s' = ongoingSessions s
     \<and> snapshotPromise s' = snapshotPromise s \<and> promises s' = promises s
     \<and> snapshotProcesses s' = snapshotProcesses s \<and> alternativeSnapshot s' = alternativeSnapshot s
     \<and> idleImage s' = idleImage s \<and> faulty s' = faulty s \<and> outputs s' = outputs s"
    by (subst e, simp)+
next
  assume "now s' = now s \<and> config s' = config s \<and> ctx s' = ctx s \<and> sessions s' = sessions s
     \<and> pendingSessions s' = pendingSessions s \<and> ongoingSessions s' = ongoingSessions s
     \<and> snapshotPromise s' = snapshotPromise s \<and> promises s' = promises s
     \<and> snapshotProcesses s' = snapshotProcesses s \<and> alternativeSnapshot s' = alternativeSnapshot s
     \<and> idleImage s' = idleImage s \<and> faulty s' = faulty s \<and> outputs s' = outputs s"
  then show "only_resources s s'"
    unfolding only_resources_def by (intro world.equality) simp_all
qed

lemma only_resources_refl: "only_resources s s"
  by (simp add: only_resources_iff)

lemma only_resources_trans: "only_resources s t \<Longrightarrow> only_resources t u \<Longrightarrow> only_resources s u"
  by (simp add: only_resources_iff)



lemma after_Inr: "c s = Inr s' \<Longrightarrow> after c s = s'"
  by (simp add: after_def)

lemma try_log_run:
  "try_catch body (\<lambda>err. log_msg l (m err)) s = Inr (after (try_catch body (\<lambda>err. log_msg l (m err))) s)"
  by (simp add: try_catch_def after_def split: sum.splits)

lemma try_log_Inr:
  "body s = Inr s' \<Longrightarrow> after (try_catch body (\<lambda>err. log_msg l (m err))) s = s'"
  by (simp add: try_catch_def after_def)

lemma try_log_Inl:
  "body s = Inl e \<Longrightarrow>
   after (try_catch body (\<lambda>err. log_msg l (m err))) s = s\<lparr>logged := logged s @ [Log l (m e)]\<rparr>"
  by (simp add: try_catch_def after_def)

lemma clear_run: "optionally clearTimeout t s = Inr (after (optionally clearTimeout t) s)"
  by (cases t) (simp_all add: after_def)

lemma clear_eq:
  "after (optionally clearTimeout t) s =
     s\<lparr>timers := (case t of None \<Rightarrow> timers s | Some h \<Rightarrow> (timers s)(h := None))\<rparr>"
  by (cases t) (simp_all add: after_def)

lemma clearI_run: "optionally clearInterval t s = Inr (after (optionally clearInterval t) s)"
  by (cases t) (simp_all add: after_def)

lemma clearI_eq:
  "after (optionally clearInterval t) s =
     s\<lparr>timers := (case t of None \<Rightarrow> timers s | Some h \<Rightarrow> (timers s)(h := None))\<rparr>"
  by (cases t) (simp_all add: after_def)

text \<open>socket close in a try\<close>


lemma close_frame: "only_resources s (after (trying_close ko m) s)"
proof (cases ko)
  case None
  then show ?thesis by (simp add: trying_close_def try_log_Inr only_resources_iff)
next
  case (Some k)
  show ?thesis
  proof (cases "socket_close k s")
    case (Inl e)
    with Some show ?thesis by (simp add: trying_close_def try_log_Inl only_resources_iff)
  next
    case (Inr s')
    then have "only_resources s s'"
      by (auto simp: socket_close_def only_resources_iff split: option.splits if_splits)
    with Some Inr show ?thesis by (simp add: trying_close_def try_log_Inr)
  qed
qed

lemma close_keeps:
  "fresh (after (trying_close ko m) s) = fresh s"
  "timers (after (trying_close ko m) s) = timers s"
  "processes (after (trying_close ko m) s) = processes s"
proof -
  have "fresh (after (trying_close ko m) s) = fresh s \<and> timers (after (trying_close ko m) s) = timers s
     \<and> processes (after (trying_close ko m) s) = processes s"
  proof (cases ko)
    case None
    then show ?thesis by (simp add: trying_close_def try_log_Inr)
  next
    case (Some k)
    show ?thesis
    proof (cases "socket_close k s")
      case (Inl e)
      with Some show ?thesis by (simp add: trying_close_def try_log_Inl)
    next
      case (Inr s')
      then have "fresh s' = fresh s \<and> timers s' = timers s \<and> processes s' = processes s"
        by (auto simp: socket_close_def split: option.splits if_splits)
      with Some Inr show ?thesis by (simp add: trying_close_def try_log_Inr)
    qed
  qed
  then show "fresh (after (trying_close ko m) s) = fresh s"
  "timers (after (trying_close ko m) s) = timers s"
  "processes (after (trying_close ko m) s) = processes s" by simp_all
qed

lemma close_done:
  "sockets s k = Some so \<Longrightarrow> running so \<Longrightarrow> k \<notin> faulty s \<Longrightarrow>
   sockets (after (trying_close (Some k) m) s) = (sockets s)(k \<mapsto> so\<lparr>running := False\<rparr>)"
  by (simp add: trying_close_def try_log_Inr socket_close_def)

lemma close_failed:
  "(case sockets s k of None \<Rightarrow> True | Some so \<Rightarrow> \<not> running so \<or> k \<in> faulty s) \<Longrightarrow>
   after (trying_close (Some k) m) s = s\<lparr>logged := logged s @ [Log Err (m (Error ''Not running''))]\<rparr>"
proof -
  assume "case sockets s k of None \<Rightarrow> True | Some so \<Rightarrow> \<not> running so \<or> k \<in> faulty s"
  then have "socket_close k s = Inl (Error ''Not running'')"
    by (auto simp: socket_close_def split: option.splits)
  then show ?thesis by (simp add: trying_close_def try_log_Inl)
qed

lemma close_log: "\<exists>l. logged (after (trying_close ko m) s) = logged s @ l"
proof (cases ko)
  case None
  then show ?thesis by (simp add: trying_close_def try_log_Inr)
next
  case (Some k)
  show ?thesis
  proof (cases "socket_close k s")
    case (Inl e)
    with Some show ?thesis by (simp add: trying_close_def try_log_Inl)
  next
    case (Inr s')
    then have "logged s' = logged s"
      by (auto simp: socket_close_def split: option.splits if_splits)
    with Some Inr show ?thesis by (simp add: trying_close_def try_log_Inr)
  qed
qed

text \<open>process stop in a try\<close>


lemma stop_Inr:
  "FFmpegProcess_stop p s = Inr s' \<Longrightarrow>
   \<exists>pr. processes s p = Some pr \<and> p \<notin> faulty s \<and>
     s' = s\<lparr>fresh := Suc (fresh s),
            timers := (timers s)(fresh s \<mapsto> \<lparr>due = now s + 2000, every = None, action = KillProcess p\<rparr>),
            processes := (processes s)(p \<mapsto> pr\<lparr>stdinEnded := True, killTimeout := Some (fresh s)\<rparr>)\<rparr>"
  by (auto simp: FFmpegProcess_stop_def setTimeout_def split: option.splits if_splits)

lemma stop_ok:
  "processes s p = Some pr \<Longrightarrow> p \<notin> faulty s \<Longrightarrow>
   after (trying_stop (Some p) m) s =
     s\<lparr>fresh := Suc (fresh s),
       timers := (timers s)(fresh s \<mapsto> \<lparr>due = now s + 2000, every = None, action = KillProcess p\<rparr>),
       processes := (processes s)(p \<mapsto> pr\<lparr>stdinEnded := True, killTimeout := Some (fresh s)\<rparr>)\<rparr>"
  by (simp add: trying_stop_def try_log_Inr FFmpegProcess_stop_def setTimeout_def)

lemma stop_cases:
  "after (trying_stop po m) s = s
   \<or> (\<exists>e. after (trying_stop po m) s = s\<lparr>logged := logged s @ [Log Err (m e)]\<rparr>)
   \<or> (\<exists>p pr. po = Some p \<and> processes s p = Some pr \<and> p \<notin> faulty s \<and>
        after (trying_stop po m) s =
          s\<lparr>fresh := Suc (fresh s),
            timers := (timers s)(fresh s \<mapsto> \<lparr>due = now s + 2000, every = None, action = KillProcess p\<rparr>),
            processes := (processes s)(p \<mapsto> pr\<lparr>stdinEnded := True, killTimeout := Some (fresh s)\<rparr>)\<rparr>)"
proof (cases po)
  case None
  then show ?thesis by (simp add: trying_stop_def try_log_Inr)
next
  case (Some p)
  show ?thesis
  proof (cases "FFmpegProcess_stop p s")
    case (Inl e)
    with Some have "after (trying_stop po m) s = s\<lparr>logged := logged s @ [Log Err (m e)]\<rparr>"
      by (simp add: trying_stop_def try_log_Inl)
    then show ?thesis by blast
  next
    case (Inr s')
    from stop_Inr [OF Inr] obtain pr where pr: "processes s p = Some pr" "p \<notin> faulty s" by blast
    from stop_ok [OF pr] Some pr show ?thesis by blast
  qed
qed

lemma stop_failed:
  "processes s p = None \<or> p \<in> faulty s \<Longrightarrow>
   \<exists>e. after (trying_stop (Some p) m) s = s\<lparr>logged := logged s @ [Log Err (m e)]\<rparr>"
proof -
  assume "processes s p = None \<or> p \<in> faulty s"
  then have "\<exists>e. FFmpegProcess_stop p s = Inl e"
    by (auto simp: FFmpegProcess_stop_def split: option.splits)
  then show ?thesis by (auto simp: trying_stop_def try_log_Inl)
qed

lemma stop_frame: "only_resources s (after (trying_stop po m) s)"
  using stop_cases [of po m s] by (auto simp: only_resources_iff)

lemma stop_keeps:
  "sockets (after (trying_stop po m) s) = sockets s"
  "fresh s \<le> fresh (after (trying_stop po m) s)"
  "h < fresh s \<Longrightarrow> timers (after (trying_stop po m) s) h = timers s h"
  "po \<noteq> Some q \<Longrightarrow> processes (after (trying_stop po m) s) q = processes s q"
  "map_option callback (processes (after (trying_stop po m) s) q) = map_option callback (processes s q)"
  "map_option started (processes (after (trying_stop po m) s) q) = map_option started (processes s q)"
  "(processes (after (trying_stop po m) s) q = None) = (processes s q = None)"
  "\<exists>l. logged (after (trying_stop po m) s) = logged s @ l"
  using stop_cases [of po m s] by (auto split: if_splits)

lemma stop_requested_now:
  "processes s p \<noteq> None \<Longrightarrow> p \<notin> faulty s \<Longrightarrow>
   stop_requested (after (trying_stop (Some p) m) s) p (now s + 2000)
   \<and> (\<forall>pr h. processes (after (trying_stop (Some p) m) s) p = Some pr \<and> killTimeout pr = Some h
         \<longrightarrow> h < fresh (after (trying_stop (Some p) m) s))"
  by (auto simp: stop_ok stop_requested_def)

lemma stop_requested_kept:
  assumes r: "stop_requested s p d"
    and h: "\<forall>pr h. processes s p = Some pr \<and> killTimeout pr = Some h \<longrightarrow> h < fresh s"
    and d: "d = now s + 2000"
  shows "stop_requested (after (trying_stop po m) s) p d"
  using stop_cases [of po m s] r h d
  by (auto simp: stop_requested_def split: option.splits if_splits)

lemma stop_requested_cong:
  "processes t = processes s \<Longrightarrow> timers t = timers s \<Longrightarrow> stop_requested t p d = stop_requested s p d"
  by (simp add: stop_requested_def cong: option.case_cong)

lemma stopStream_absent:
  "ongoingSessions s sid = None \<Longrightarrow>
   stopStream sid s = Inr (s\<lparr>logged := logged s @ [Log Info (tag s @ ''Stopped video stream'')]\<rparr>)"
  by (simp add: stopStream_def fun_upd_idem)

lemma stopStream_present:
  fixes s :: world and sid :: string and a :: handle
  assumes a: "ongoingSessions s sid = Some a"
  defines "t \<equiv> after (stopStream sid) s"
  shows "stopStream sid s = Inr t"
    and "only_resources s (t\<lparr>ongoingSessions := ongoingSessions s\<rparr>)"
    and "ongoingSessions t = (ongoingSessions s)(sid := None)"
    and "fresh s \<le> fresh t"
    and "\<forall>h. h < fresh s \<longrightarrow> timers t h = None \<or> timers t h = timers s h"
    and "\<forall>q. map_option callback (processes t q) = map_option callback (processes s q)"
    and "\<forall>q. map_option started (processes t q) = map_option started (processes s q)"
    and "\<forall>q. (processes t q = None) = (processes s q = None)"
    and "\<forall>h. timeout (session_at s a) = Some h \<and> h < fresh s \<longrightarrow> timers t h = None"
    and "\<forall>h. feedInterval (session_at s a) = Some h \<and> h < fresh s \<longrightarrow> timers t h = None"
    and "\<forall>k so. socket (session_at s a) = Some k \<and> sockets s k = Some so \<and> running so \<and> k \<notin> faulty s
            \<longrightarrow> sockets t = (sockets s)(k \<mapsto> so\<lparr>running := False\<rparr>)"
    and "\<forall>k. socket (session_at s a) = Some k
              \<and> (case sockets s k of None \<Rightarrow> True | Some so \<Rightarrow> \<not> running so \<or> k \<in> faulty s)
            \<longrightarrow> sockets t = sockets s
                \<and> Log Err (tag s @ ''Error occurred closing socket: '' @ show_error (Error ''Not running''))
                    \<in> set (logged t)"
    and "\<forall>p. mainProcess (session_at s a) = Some p \<and> processes s p \<noteq> None \<and> p \<notin> faulty s
            \<longrightarrow> stop_requested t p (now s + 2000)"
    and "\<forall>p. returnProcess (session_at s a) = Some p \<and> processes s p \<noteq> None \<and> p \<notin> faulty s
            \<longrightarrow> stop_requested t p (now s + 2000)"
    and "\<forall>p. mainProcess (session_at s a) = Some p \<and> (processes s p = None \<or> p \<in> faulty s)
            \<longrightarrow> (\<exists>e. Log Err (tag s @ ''Error occurred terminating main FFmpeg process: ''
                                  @ show_error e) \<in> set (logged t))"
    and "\<forall>p. returnProcess (session_at s a) = Some p \<and> (processes s p = None \<or> p \<in> faulty s)
            \<longrightarrow> (\<exists>e. Log Err (tag s @ ''Error occurred terminating two-way FFmpeg process: ''
                                  @ show_error e) \<in> set (logged t))"
proof -
  let ?x = "session_at s a"
  let ?m3 = "\<lambda>err. tag s @ ''Error occurred closing socket: '' @ show_error err"
  let ?m4 = "\<lambda>err. tag s @ ''Error occurred terminating main FFmpeg process: '' @ show_error err"
  let ?m5 = "\<lambda>err. tag s @ ''Error occurred terminating two-way FFmpeg process: '' @ show_error err"
  define s1 where "s1 = after (optionally clearTimeout (timeout ?x)) s"
  define s2 where "s2 = after (optionally clearInterval (feedInterval ?x)) s1"
  define s3 where "s3 = after (trying_close (socket ?x) ?m3) s2"
  define s4 where "s4 = after (trying_stop (mainProcess ?x) ?m4) s3"
  define s5 where "s5 = after (trying_stop (returnProcess ?x) ?m5) s4"
  define s' where "s' = s5\<lparr>ongoingSessions := (ongoingSessions s5)(sid := None),
                 logged := logged s5 @ [Log Info (tag s @ ''Stopped video stream'')]\<rparr>"
  have r1: "optionally clearTimeout (timeout ?x) s = Inr s1"
    unfolding s1_def by (rule clear_run)
  have r2: "optionally clearInterval (feedInterval ?x) s1 = Inr s2"
    unfolding s2_def by (rule clearI_run)
  have r3: "try_catch (optionally socket_close (socket ?x)) (\<lambda>err. log_msg Err (?m3 err)) s2 = Inr s3"
    unfolding s3_def trying_close_def by (rule try_log_run)
  have r4: "try_catch (optionally FFmpegProcess_stop (mainProcess ?x)) (\<lambda>err. log_msg Err (?m4 err)) s3 = Inr s4"
    unfolding s4_def trying_stop_def by (rule try_log_run)
  have r5: "try_catch (optionally FFmpegProcess_stop (returnProcess ?x)) (\<lambda>err. log_msg Err (?m5 err)) s4 = Inr s5"
    unfolding s5_def trying_stop_def by (rule try_log_run)
  have run: "stopStream sid s = Inr s'"
    using a r1 r2 r3 r4 r5 by (simp add: stopStream_def Let_def s'_def)
  have e1: "s1 = s\<lparr>timers := (case timeout ?x of None \<Rightarrow> timers s | Some h \<Rightarrow> (timers s)(h := None))\<rparr>"
    unfolding s1_def by (rule clear_eq)
  have e2: "s2 = s1\<lparr>timers := (case feedInterval ?x of None \<Rightarrow> timers s1 | Some h \<Rightarrow> (timers s1)(h := None))\<rparr>"
    unfolding s2_def by (rule clearI_eq)
  have o1: "only_resources s s1" by (subst e1) (simp add: only_resources_iff)
  have o2: "only_resources s1 s2" by (subst e2) (simp add: only_resources_iff)
  have o3: "only_resources s2 s3" unfolding s3_def by (rule close_frame)
  have o4: "only_resources s3 s4" unfolding s4_def by (rule stop_frame)
  have o5: "only_resources s4 s5" unfolding s5_def by (rule stop_frame)
  have o12: "only_resources s s2" using o1 o2 by (rule only_resources_trans)
  have o13: "only_resources s s3" using o12 o3 by (rule only_resources_trans)
  have o14: "only_resources s s4" using o13 o4 by (rule only_resources_trans)
  have o15: "only_resources s s5" using o14 o5 by (rule only_resources_trans)
  have fr2: "fresh s2 = fresh s" "sockets s2 = sockets s" "processes s2 = processes s"
    by (simp_all add: e2 e1)
  have fr3: "fresh s3 = fresh s" "processes s3 = processes s" "timers s3 = timers s2"
    using close_keeps [where ko="socket ?x" and m="?m3" and s=s2] fr2 by (simp_all add: s3_def)
  have fr4: "fresh s \<le> fresh s4" "sockets s4 = sockets s3"
    using stop_keeps(1,2) [where s=s3 and po="mainProcess ?x" and m="?m4"] fr3 by (simp_all add: s4_def)
  have fr5: "fresh s4 \<le> fresh s5" "sockets s5 = sockets s4"
    using stop_keeps(1,2) [where s=s4 and po="returnProcess ?x" and m="?m5"] by (simp_all add: s5_def)
  have t2: "timers s2 h = None \<or> timers s2 h = timers s h" for h
    by (simp add: e2 e1 split: option.splits)
  have t5: "timers s5 h = timers s2 h" if "h < fresh s" for h
  proof -
    have "timers s4 h = timers s3 h"
      using stop_keeps(3) [where h=h and s=s3 and po="mainProcess ?x" and m="?m4"] that fr3 by (simp add: s4_def)
    moreover have "timers s5 h = timers s4 h"
      using stop_keeps(3) [where h=h and s=s4 and po="returnProcess ?x" and m="?m5"] that fr4 by (simp add: s5_def)
    ultimately show ?thesis using fr3 by simp
  qed
  have c1: "only_resources s (s'\<lparr>ongoingSessions := ongoingSessions s\<rparr>)"
    using o15 by (simp add: only_resources_iff s'_def)
  have c2: "ongoingSessions s' = (ongoingSessions s)(sid := None)"
    using o15 by (simp add: only_resources_iff s'_def)
  have c3: "fresh s \<le> fresh s'"
    using fr4 fr5 by (simp add: s'_def)
  have c4: "\<forall>h. h < fresh s \<longrightarrow> timers s' h = None \<or> timers s' h = timers s h"
    using t5 t2 by (simp add: s'_def)
  have c5: "\<forall>q. map_option callback (processes s' q) = map_option callback (processes s q)"
    using stop_keeps(5) [where s=s4 and po="returnProcess ?x" and m="?m5"] stop_keeps(5) [where s=s3 and po="mainProcess ?x" and m="?m4"] fr3
    by (simp add: s'_def s5_def s4_def)
  have c6: "\<forall>q. map_option started (processes s' q) = map_option started (processes s q)"
    using stop_keeps(6) [where s=s4 and po="returnProcess ?x" and m="?m5"] stop_keeps(6) [where s=s3 and po="mainProcess ?x" and m="?m4"] fr3
    by (simp add: s'_def s5_def s4_def)
  have c7: "\<forall>q. (processes s' q = None) = (processes s q = None)"
    using stop_keeps(7) [where s=s4 and po="returnProcess ?x" and m="?m5"] stop_keeps(7) [where s=s3 and po="mainProcess ?x" and m="?m4"] fr3
    by (simp add: s'_def s5_def s4_def)
  have c8: "\<forall>h. timeout ?x = Some h \<and> h < fresh s \<longrightarrow> timers s' h = None"
    using t5 by (auto simp: s'_def e2 e1 split: option.splits)
  have c9: "\<forall>h. feedInterval ?x = Some h \<and> h < fresh s \<longrightarrow> timers s' h = None"
    using t5 by (auto simp: s'_def e2 e1 split: option.splits)
  have c10: "\<forall>k so. socket ?x = Some k \<and> sockets s k = Some so \<and> running so \<and> k \<notin> faulty s
            \<longrightarrow> sockets s' = (sockets s)(k \<mapsto> so\<lparr>running := False\<rparr>)"
  proof (intro allI impI)
    fix k so
    assume h: "socket ?x = Some k \<and> sockets s k = Some so \<and> running so \<and> k \<notin> faulty s"
    have "faulty s2 = faulty s" using o12 by (simp add: only_resources_iff)
    with h fr2 have "sockets s3 = (sockets s2)(k \<mapsto> so\<lparr>running := False\<rparr>)"
      using close_done [where s=s2 and k=k and so=so and m="?m3"] by (simp add: s3_def)
    with fr2 fr4 fr5 show "sockets s' = (sockets s)(k \<mapsto> so\<lparr>running := False\<rparr>)"
      by (simp add: s'_def)
  qed
  have c11: "\<forall>k. socket ?x = Some k
              \<and> (case sockets s k of None \<Rightarrow> True | Some so \<Rightarrow> \<not> running so \<or> k \<in> faulty s)
            \<longrightarrow> sockets s' = sockets s
                \<and> Log Err (?m3 (Error ''Not running'')) \<in> set (logged s')"
  proof (intro allI impI)
    fix k
    assume h: "socket ?x = Some k
              \<and> (case sockets s k of None \<Rightarrow> True | Some so \<Rightarrow> \<not> running so \<or> k \<in> faulty s)"
    have f2: "faulty s2 = faulty s" using o12 by (simp add: only_resources_iff)
    have hyp2: "case sockets s2 k of None \<Rightarrow> True | Some so \<Rightarrow> \<not> running so \<or> k \<in> faulty s2"
      using h by (simp add: fr2 f2 cong: option.case_cong)
    have e3: "s3 = s2\<lparr>logged := logged s2 @ [Log Err (?m3 (Error ''Not running''))]\<rparr>"
      unfolding s3_def using h close_failed [OF hyp2, where m="?m3"] by simp
    obtain l4 where l4: "logged s4 = logged s3 @ l4"
      using stop_keeps(8) [where s=s3 and po="mainProcess ?x" and m="?m4"] by (auto simp: s4_def)
    obtain l5 where l5: "logged s5 = logged s4 @ l5"
      using stop_keeps(8) [where s=s4 and po="returnProcess ?x" and m="?m5"] by (auto simp: s5_def)
    have "sockets s3 = sockets s2" by (subst e3) simp
    moreover have "Log Err (?m3 (Error ''Not running'')) \<in> set (logged s3)" by (subst e3) simp
    ultimately show "sockets s' = sockets s \<and> Log Err (?m3 (Error ''Not running'')) \<in> set (logged s')"
      using fr2 fr4 fr5 l4 l5 by (simp add: s'_def)
  qed
  have n: "now s3 = now s" "now s4 = now s" "faulty s3 = faulty s" "faulty s4 = faulty s"
    using o13 o14 by (simp_all add: only_resources_iff)
  have c12: "\<forall>p. mainProcess ?x = Some p \<and> processes s p \<noteq> None \<and> p \<notin> faulty s
            \<longrightarrow> stop_requested s' p (now s + 2000)"
  proof (intro allI impI)
    fix p
    assume h: "mainProcess ?x = Some p \<and> processes s p \<noteq> None \<and> p \<notin> faulty s"
    have q: "processes s3 p \<noteq> None" "p \<notin> faulty s3" using h fr3 n by simp_all
    have s4e: "s4 = after (trying_stop (Some p) ?m4) s3" unfolding s4_def using h by simp
    have A: "stop_requested s4 p (now s3 + 2000)
       \<and> (\<forall>pr h. processes s4 p = Some pr \<and> killTimeout pr = Some h \<longrightarrow> h < fresh s4)"
      unfolding s4e by (rule stop_requested_now [OF q])
    have A1: "stop_requested s4 p (now s + 2000)" using A n by simp
    have A2: "\<forall>pr h. processes s4 p = Some pr \<and> killTimeout pr = Some h \<longrightarrow> h < fresh s4"
      using A by blast
    have A3: "now s + 2000 = now s4 + 2000" using n by simp
    have "stop_requested s5 p (now s + 2000)"
      unfolding s5_def by (rule stop_requested_kept [OF A1 A2 A3])
    moreover have "stop_requested s' p (now s + 2000) = stop_requested s5 p (now s + 2000)"
      by (rule stop_requested_cong) (simp_all add: s'_def)
    ultimately show "stop_requested s' p (now s + 2000)" by simp
  qed
  have c13: "\<forall>p. returnProcess ?x = Some p \<and> processes s p \<noteq> None \<and> p \<notin> faulty s
            \<longrightarrow> stop_requested s' p (now s + 2000)"
  proof (intro allI impI)
    fix p
    assume h: "returnProcess ?x = Some p \<and> processes s p \<noteq> None \<and> p \<notin> faulty s"
    have "(processes s4 p = None) = (processes s3 p = None)"
      unfolding s4_def by (rule stop_keeps(7))
    then have q: "processes s4 p \<noteq> None" "p \<notin> faulty s4" using h fr3 n by simp_all
    have s5e: "s5 = after (trying_stop (Some p) ?m5) s4" unfolding s5_def using h by simp
    have "stop_requested s5 p (now s4 + 2000)
       \<and> (\<forall>pr h. processes s5 p = Some pr \<and> killTimeout pr = Some h \<longrightarrow> h < fresh s5)"
      unfolding s5e by (rule stop_requested_now [OF q])
    then have "stop_requested s5 p (now s + 2000)" using n by simp
    moreover have "stop_requested s' p (now s + 2000) = stop_requested s5 p (now s + 2000)"
      by (rule stop_requested_cong) (simp_all add: s'_def)
    ultimately show "stop_requested s' p (now s + 2000)" by simp
  qed
  have c14: "\<forall>p. mainProcess ?x = Some p \<and> (processes s p = None \<or> p \<in> faulty s)
            \<longrightarrow> (\<exists>e. Log Err (?m4 e) \<in> set (logged s'))"
  proof (intro allI impI)
    fix p
    assume h: "mainProcess ?x = Some p \<and> (processes s p = None \<or> p \<in> faulty s)"
    have q: "processes s3 p = None \<or> p \<in> faulty s3" using h fr3 n by simp
    have s4e: "s4 = after (trying_stop (Some p) ?m4) s3" unfolding s4_def using h by simp
    obtain e where e: "s4 = s3\<lparr>logged := logged s3 @ [Log Err (?m4 e)]\<rparr>"
      unfolding s4e using stop_failed [OF q, where m="?m4"] by blast
    obtain l5 where l5: "logged s5 = logged s4 @ l5"
      using stop_keeps(8) [where s=s4 and po="returnProcess ?x" and m="?m5"] by (auto simp: s5_def)
    have "Log Err (?m4 e) \<in> set (logged s4)" by (subst e) simp
    then have "Log Err (?m4 e) \<in> set (logged s')" using l5 by (simp add: s'_def)
    then show "\<exists>e. Log Err (?m4 e) \<in> set (logged s')" by blast
  qed
  have c15: "\<forall>p. returnProcess ?x = Some p \<and> (processes s p = None \<or> p \<in> faulty s)
            \<longrightarrow> (\<exists>e. Log Err (?m5 e) \<in> set (logged s'))"
  proof (intro allI impI)
    fix p
    assume h: "returnProcess ?x = Some p \<and> (processes s p = None \<or> p \<in> faulty s)"
    have "(processes s4 p = None) = (processes s3 p = None)"
      unfolding s4_def by (rule stop_keeps(7))
    then have q: "processes s4 p = None \<or> p \<in> faulty s4" using h fr3 n by simp
    have s5e: "s5 = after (trying_stop (Some p) ?m5) s4" unfolding s5_def using h by simp
    obtain e where e: "s5 = s4\<lparr>logged := logged s4 @ [Log Err (?m5 e)]\<rparr>"
      unfolding s5e using stop_failed [OF q, where m="?m5"] by blast
    have "Log Err (?m5 e) \<in> set (logged s5)" by (subst e) simp
    then have "Log Err (?m5 e) \<in> set (logged s')" by (simp add: s'_def)
    then show "\<exists>e. Log Err (?m5 e) \<in> set (logged s')" by blast
  qed
  have eq: "t = s'" unfolding t_def using run by (simp add: after_def)
  show "stopStream sid s = Inr t" unfolding eq by (rule run)
  show "only_resources s (t\<lparr>ongoingSessions := ongoingSessions s\<rparr>)" unfolding eq by (rule c1)
  show "ongoingSessions t = (ongoingSessions s)(sid := None)" unfolding eq by (rule c2)
  show "fresh s \<le> fresh t" unfolding eq by (rule c3)
  show "\<forall>h. h < fresh s \<longrightarrow> timers t h = None \<or> timers t h = timers s h" unfolding eq by (rule c4)
  show "\<forall>q. map_option callback (processes t q) = map_option callback (processes s q)" unfolding eq by (rule c5)
  show "\<forall>q. map_option started (processes t q) = map_option started (processes s q)" unfolding eq by (rule c6)
  show "\<forall>q. (processes t q = None) = (processes s q = None)" unfolding eq by (rule c7)
  show "\<forall>h. timeout (session_at s a) = Some h \<and> h < fresh s \<longrightarrow> timers t h = None" unfolding eq by (rule c8)
  show "\<forall>h. feedInterval (session_at s a) = Some h \<and> h < fresh s \<longrightarrow> timers t h = None" unfolding eq by (rule c9)
  show "\<forall>k so. socket (session_at s a) = Some k \<and> sockets s k = Some so \<and> running so \<and> k \<notin> faulty s
            \<longrightarrow> sockets t = (sockets s)(k \<mapsto> so\<lparr>running := False\<rparr>)" unfolding eq by (rule c10)
  show "\<forall>k. socket (session_at s a) = Some k
              \<and> (case sockets s k of None \<Rightarrow> True | Some so \<Rightarrow> \<not> running so \<or> k \<in> faulty s)
            \<longrightarrow> sockets t = sockets s
                \<and> Log Err (tag s @ ''Error occurred closing socket: '' @ show_error (Error ''Not running''))
                    \<in> set (logged t)" unfolding eq by (rule c11)
  show "\<forall>p. mainProcess (session_at s a) = Some p \<and> processes s p \<noteq> None \<and> p \<notin> faulty s
            \<longrightarrow> stop_requested t p (now s + 2000)" unfolding eq by (rule c12)
  show "\<forall>p. returnProcess (session_at s a) = Some p \<and> processes s p \<noteq> None \<and> p \<notin> faulty s
            \<longrightarrow> stop_requested t p (now s + 2000)" unfolding eq by (rule c13)
  show "\<forall>p. mainProcess (session_at s a) = Some p \<and> (processes s p = None \<or> p \<in> faulty s)
            \<longrightarrow> (\<exists>e. Log Err (tag s @ ''Error occurred terminating main FFmpeg process: ''
                                  @ show_error e) \<in> set (logged t))" unfolding eq by (rule c14)
  show "\<forall>p. returnProcess (session_at s a) = Some p \<and> (processes s p = None \<or> p \<in> faulty s)
            \<longrightarrow> (\<exists>e. Log Err (tag s @ ''Error occurred terminating two-way FFmpeg process: ''
                                  @ show_error e) \<in> set (logged t))" unfolding eq by (rule c15)
qed

section \<open>startStream: lemmas\<close>


lemma start_session_fields:
  "now (start_session r cb info s) = now s"
  "config (start_session r cb info s) = config s"
  "ctx (start_session r cb info s) = ctx s"
  "outputs (start_session r cb info s) = outputs s"
  "faulty (start_session r cb info s) = faulty s"
  "snapshotPromise (start_session r cb info s) = snapshotPromise s"
  "promises (start_session r cb info s) = promises s"
  "snapshotProcesses (start_session r cb info s) = snapshotProcesses s"
  "alternativeSnapshot (start_session r cb info s) = alternativeSnapshot s"
  "idleImage (start_session r cb info s) = idleImage s"
  "ongoingSessions (start_session r cb info s) = (ongoingSessions s)(sessionID r \<mapsto> fresh s)"
  "pendingSessions (start_session r cb info s) = (pendingSessions s)(sessionID r := None)"
  by (simp_all add: start_session_def Let_def new_FFmpegProcess_def setInterval_def update_session_def
        split: prod.splits)

lemma start_session_fresh:
  "fresh (start_session r cb info s) =
     (if truthy (returnAudioTarget (config s)) then fresh s + 5 else fresh s + 4)"
  by (simp add: start_session_def Let_def new_FFmpegProcess_def setInterval_def update_session_def
        eval_nat_numeral split: prod.splits)

lemma start_session_session:
  "session_at (start_session r cb info s) (fresh s) =
     \<lparr> mainProcess = Some (fresh s + 2),
       returnProcess = (if truthy (returnAudioTarget (config s)) then Some (fresh s + 3) else None),
       timeout = None,
       feedInterval = Some (if truthy (returnAudioTarget (config s)) then fresh s + 4 else fresh s + 3),
       socket = Some (fresh s + 1) \<rparr>"
  by (simp add: start_session_def Let_def new_FFmpegProcess_def setInterval_def update_session_def
        session_at_def emptySession_def eval_nat_numeral split: prod.splits)

lemma start_session_timers:
  "timers (start_session r cb info s) =
     (timers s)((if truthy (returnAudioTarget (config s)) then fresh s + 4 else fresh s + 3) \<mapsto>
        \<lparr>due = now s + 1000 / 30, every = Some (1000 / 30), action = FeedFrame (fresh s)\<rparr>)"
  by (simp add: start_session_def Let_def new_FFmpegProcess_def setInterval_def update_session_def
        eval_nat_numeral split: prod.splits)

lemma start_session_socket:
  "sockets (start_session r cb info s) =
     (sockets s)(fresh s + 1 \<mapsto>
        \<lparr> family = (if ipv6 info then ''udp6'' else ''udp4''), bound = Some (videoReturnPort info),
          running = True, ownerSession = fresh s, ownerRequest = r \<rparr>)"
  by (simp add: start_session_def Let_def new_FFmpegProcess_def setInterval_def update_session_def
        eval_nat_numeral split: prod.splits)

lemma start_session_main:
  "processes (start_session r cb info s) (fresh s + 2) =
     Some \<lparr> cameraName = displayName (ctx s), sessionId = sessionID r,
            spawnArgs = split_ws (stream_ffmpegArgs (config s) r info),
            callback = Some cb, started = False, startTime = now s, killTimeout = None,
            killed = False, stdinWritten = [], stdinEnded = False, stdinDestroyed = False \<rparr>"
  by (simp add: start_session_def Let_def new_FFmpegProcess_def setInterval_def update_session_def
        eval_nat_numeral split: prod.splits)

lemma start_session_old_processes:
  "h < fresh s \<Longrightarrow> processes (start_session r cb info s) h = processes s h"
  by (simp add: start_session_def Let_def new_FFmpegProcess_def setInterval_def update_session_def
        eval_nat_numeral split: prod.splits)

lemma block_logs:
  "block [log_msg a x, log_msg b y, (if c then log_msg d z else skip), ok f] s =
     Inr (f (s\<lparr>logged := logged s @ [Log a x, Log b y] @ (if c then [Log d z] else [])\<rparr>))"
  by simp

lemma startStream_found:
  assumes "pendingSessions s (sessionID r) = Some info"
  shows "\<exists>l. startStream r cb s = Inr (start_session r cb info (s\<lparr>logged := logged s @ l\<rparr>))"
  unfolding startStream_def assms option.case block_logs by blast

lemma startStream_missing:
  "pendingSessions s (sessionID r) = None \<Longrightarrow>
   startStream r cb s =
     Inr (s\<lparr>logged := logged s @ [Log Err (tag s @ ''Error finding session information'')],
            outputs := outputs s @ [StreamCallback cb (Some (Error ''Error finding session information''))]\<rparr>)"
  by (simp add: startStream_def)

section \<open>stopStream releases every resource once\<close>

lemma after_stop: "stopStream sid s = Inr s' \<Longrightarrow> after (stopStream sid) s = s'"
  by (simp add: after_def)

lemma stopStream_total: "\<exists>s'. stopStream sid s = Inr s'"
proof (cases "ongoingSessions s sid")
  case None
  then show ?thesis by (simp add: stopStream_absent)
next
  case (Some a)
  from stopStream_present(1) [OF Some] show ?thesis by blast
qed

lemma stopStream_gone: "stopStream sid s = Inr s' \<Longrightarrow> ongoingSessions s' sid = None"
proof (cases "ongoingSessions s sid")
  case None
  assume "stopStream sid s = Inr s'"
  with None show ?thesis by (auto simp: stopStream_absent)
next
  case (Some a)
  assume r: "stopStream sid s = Inr s'"
  have "ongoingSessions (after (stopStream sid) s) = (ongoingSessions s)(sid := None)"
    by (rule stopStream_present(3) [OF Some])
  then show ?thesis by (simp add: after_stop [OF r])
qed

lemma inactivity_after_stop:
  assumes "ongoingSessions s sid = None"
  shows "inactivity_timeout sid s =
     Inr (s\<lparr>logged := logged s @ [Log Info (tag s @ ''Device appears to be inactive. Stopping stream.''),
                                    Log Info (tag s @ ''Stopped video stream'')],
            outputs := outputs s @ [ForceStopStreamingSession sid]\<rparr>)"
proof -
  let ?t = "s\<lparr>logged := logged s @ [Log Info (tag s @ ''Device appears to be inactive. Stopping stream.'')],
             outputs := outputs s @ [ForceStopStreamingSession sid]\<rparr>"
  have "ongoingSessions ?t sid = None" using assms by simp
  from stopStream_absent [OF this] have "stopStream sid ?t = Inr (?t\<lparr>logged := logged ?t @ [Log Info (tag ?t @ ''Stopped video stream'')]\<rparr>)" .
  then show ?thesis by (simp add: inactivity_timeout_def tag_def)
qed

text \<open>
  Claim C1. \<open>stopStream\<close> never throws. Without an Active entry it only logs. With one,
  it disarms the inactivity timer and the feed timer, closes the liveness socket and asks
  the main and the return process to stop (stdin ended, kill timer armed two seconds
  ahead); a release that fails is logged and the others are still done; the Active entry
  is removed in every case. A second \<open>stopStream\<close>, or the inactivity timeout, for the same
  id then only logs (the timeout also signals the forced stop): timers, sockets and
  processes are left as the first call left them.
\<close>

theorem stopStream_releases_once:
  "(\<exists>s'. stopStream sid s = Inr s')
   \<and> (ongoingSessions s sid = None \<longrightarrow>
        stopStream sid s = Inr (s\<lparr>logged := logged s @ [Log Info (tag s @ ''Stopped video stream'')]\<rparr>))
   \<and> (\<forall>a s'. ongoingSessions s sid = Some a \<and> stopStream sid s = Inr s' \<longrightarrow>
        ongoingSessions s' sid = None
        \<and> (\<forall>t. timeout (session_at s a) = Some t \<and> t < fresh s \<longrightarrow> timers s' t = None)
        \<and> (\<forall>t. feedInterval (session_at s a) = Some t \<and> t < fresh s \<longrightarrow> timers s' t = None)
        \<and> (\<forall>k so. socket (session_at s a) = Some k \<and> sockets s k = Some so \<and> running so \<and> k \<notin> faulty s
              \<longrightarrow> sockets s' k = Some (so\<lparr>running := False\<rparr>))
        \<and> (\<forall>k. socket (session_at s a) = Some k
                \<and> (case sockets s k of None \<Rightarrow> True | Some so \<Rightarrow> \<not> running so \<or> k \<in> faulty s)
              \<longrightarrow> Log Err (tag s @ ''Error occurred closing socket: '' @ show_error (Error ''Not running''))
                    \<in> set (logged s'))
        \<and> (\<forall>p. mainProcess (session_at s a) = Some p \<and> processes s p \<noteq> None \<and> p \<notin> faulty s
              \<longrightarrow> stop_requested s' p (now s + 2000))
        \<and> (\<forall>p. mainProcess (session_at s a) = Some p \<and> (processes s p = None \<or> p \<in> faulty s)
              \<longrightarrow> (\<exists>e. Log Err (tag s @ ''Error occurred terminating main FFmpeg process: ''
                                  @ show_error e) \<in> set (logged s')))
        \<and> (\<forall>p. returnProcess (session_at s a) = Some p \<and> processes s p \<noteq> None \<and> p \<notin> faulty s
              \<longrightarrow> stop_requested s' p (now s + 2000))
        \<and> (\<forall>p. returnProcess (session_at s a) = Some p \<and> (processes s p = None \<or> p \<in> faulty s)
              \<longrightarrow> (\<exists>e. Log Err (tag s @ ''Error occurred terminating two-way FFmpeg process: ''
                                  @ show_error e) \<in> set (logged s')))
        \<and> stopStream sid s' = Inr (s'\<lparr>logged := logged s' @ [Log Info (tag s' @ ''Stopped video stream'')]\<rparr>)
        \<and> inactivity_timeout sid s' =
            Inr (s'\<lparr>logged := logged s' @ [Log Info (tag s' @ ''Device appears to be inactive. Stopping stream.''),
                                            Log Info (tag s' @ ''Stopped video stream'')],
                    outputs := outputs s' @ [ForceStopStreamingSession sid]\<rparr>))"
proof (intro conjI allI impI)
  show "\<exists>s'. stopStream sid s = Inr s'" by (rule stopStream_total)
next
  assume "ongoingSessions s sid = None"
  then show "stopStream sid s = Inr (s\<lparr>logged := logged s @ [Log Info (tag s @ ''Stopped video stream'')]\<rparr>)"
    by (rule stopStream_absent)
next
  fix a s' assume h: "ongoingSessions s sid = Some a \<and> stopStream sid s = Inr s'"
  then have a: "ongoingSessions s sid = Some a" and r: "stopStream sid s = Inr s'" by simp_all
  from stopStream_gone [OF r] show g: "ongoingSessions s' sid = None" .
  from stopStream_absent [OF g]
  show "stopStream sid s' = Inr (s'\<lparr>logged := logged s' @ [Log Info (tag s' @ ''Stopped video stream'')]\<rparr>)" .
  from inactivity_after_stop [OF g]
  show "inactivity_timeout sid s' =
            Inr (s'\<lparr>logged := logged s' @ [Log Info (tag s' @ ''Device appears to be inactive. Stopping stream.''),
                                            Log Info (tag s' @ ''Stopped video stream'')],
                    outputs := outputs s' @ [ForceStopStreamingSession sid]\<rparr>)" .
  have e: "after (stopStream sid) s = s'" by (rule after_stop [OF r])
  note f = stopStream_present [OF a, unfolded e]
  { fix t assume "timeout (session_at s a) = Some t \<and> t < fresh s"
    with f(9) show "timers s' t = None" by blast }
  { fix t assume "feedInterval (session_at s a) = Some t \<and> t < fresh s"
    with f(10) show "timers s' t = None" by blast }
  { fix k so assume "socket (session_at s a) = Some k \<and> sockets s k = Some so \<and> running so \<and> k \<notin> faulty s"
    with f(11) have "sockets s' = (sockets s)(k \<mapsto> so\<lparr>running := False\<rparr>)" by blast
    then show "sockets s' k = Some (so\<lparr>running := False\<rparr>)" by simp }
  { fix k assume "socket (session_at s a) = Some k
                \<and> (case sockets s k of None \<Rightarrow> True | Some so \<Rightarrow> \<not> running so \<or> k \<in> faulty s)"
    with f(12)
    show "Log Err (tag s @ ''Error occurred closing socket: '' @ show_error (Error ''Not running''))
                    \<in> set (logged s')" by blast }
  { fix p assume "mainProcess (session_at s a) = Some p \<and> processes s p \<noteq> None \<and> p \<notin> faulty s"
    with f(13) show "stop_requested s' p (now s + 2000)" by blast }
  { fix p assume "mainProcess (session_at s a) = Some p \<and> (processes s p = None \<or> p \<in> faulty s)"
    with f(15)
    show "\<exists>e. Log Err (tag s @ ''Error occurred terminating main FFmpeg process: ''
                                  @ show_error e) \<in> set (logged s')" by blast }
  { fix p assume "returnProcess (session_at s a) = Some p \<and> processes s p \<noteq> None \<and> p \<notin> faulty s"
    with f(14) show "stop_requested s' p (now s + 2000)" by blast }
  { fix p assume "returnProcess (session_at s a) = Some p \<and> (processes s p = None \<or> p \<in> faulty s)"
    with f(16)
    show "\<exists>e. Log Err (tag s @ ''Error occurred terminating two-way FFmpeg process: ''
                                  @ show_error e) \<in> set (logged s')" by blast }
qed

section \<open>The concrete accessory: its states\<close>

lemma prepareStream_ok:
  "prepareStream request cb (Inr vp) vs (Inr ap) as s =
     Inr (s\<lparr>pendingSessions := (pendingSessions s)(prepareSessionID request \<mapsto>
              \<lparr> address = targetAddress request,
                ipv6 = (addressVersion request = ''ipv6''),
                videoPort = port (prepareVideo request),
                videoReturnPort = vp,
                videoCryptoSuite = srtpCryptoSuite (prepareVideo request),
                videoSRTP = srtp_key (prepareVideo request) @ srtp_salt (prepareVideo request),
                videoSSRC = vs,
                audioPort = port (prepareAudio request),
                audioReturnPort = ap,
                audioCryptoSuite = srtpCryptoSuite (prepareAudio request),
                audioSRTP = srtp_key (prepareAudio request) @ srtp_salt (prepareAudio request),
                audioSSRC = as \<rparr>),
            outputs := outputs s @ [PrepareCallback cb
                    \<lparr> responseVideo =
                        \<lparr> responsePort = vp, ssrc = vs,
                          response_key = srtp_key (prepareVideo request),
                          response_salt = srtp_salt (prepareVideo request) \<rparr>,
                      responseAudio =
                        \<lparr> responsePort = ap, ssrc = as,
                          response_key = srtp_key (prepareAudio request),
                          response_salt = srtp_salt (prepareAudio request) \<rparr> \<rparr>]\<rparr>)"
  by (simp add: prepareStream_def)

lemma prepareStream_rejected:
  "prepareStream request cb (Inl e) vs ap as s = Inl e"
  "prepareStream request cb (Inr vp) vs (Inl e) as s = Inl e"
  by (simp_all add: prepareStream_def)

lemma demo_prepared_run: "handle_event demo_prepare_event demo_world = Inr demo_prepared"
  by (simp add: demo_prepared_def after_def handle_event_def demo_prepare_event_def prepareStream_ok)

lemma demo_prepared_fields:
  "pendingSessions demo_prepared = [''a'' \<mapsto> demo_info]"
  "ongoingSessions demo_prepared = Map.empty"
  "fresh demo_prepared = 0"
  "now demo_prepared = 0"
  "faulty demo_prepared = {}"
  "timers demo_prepared = Map.empty"
  "sockets demo_prepared = Map.empty"
  "processes demo_prepared = Map.empty"
  "sessions demo_prepared = Map.empty"
  "config demo_prepared = defaultVideoConfig"
  "displayName (ctx demo_prepared) = ''Door''"
  by (simp_all add: demo_prepared_def after_def handle_event_def demo_prepare_event_def prepareStream_ok
        demo_world_def initial_def demo_prepare_def demo_info_def)

lemma demo_pending: "pendingSessions demo_prepared (sessionID demo_start) = Some demo_info"
  by (simp add: demo_prepared_fields demo_start_def)

lemma demo_started_eq:
  "\<exists>l. demo_started = start_session demo_start 7 demo_info (demo_prepared\<lparr>logged := logged demo_prepared @ l\<rparr>)
       \<and> handle_event (StreamRequest (START demo_start) 7) demo_prepared = Inr demo_started"
proof -
  from startStream_found [OF demo_pending, of 7] obtain l where
    l: "startStream demo_start 7 demo_prepared
          = Inr (start_session demo_start 7 demo_info (demo_prepared\<lparr>logged := logged demo_prepared @ l\<rparr>))"
    by blast
  then have "handle_event (StreamRequest (START demo_start) 7) demo_prepared
          = Inr (start_session demo_start 7 demo_info (demo_prepared\<lparr>logged := logged demo_prepared @ l\<rparr>))"
    by (simp add: handle_event_def handleStreamRequest_def)
  then show ?thesis by (auto simp: demo_started_def after_def)
qed

lemma not_truthy_default: "\<not> truthy (returnAudioTarget defaultVideoConfig)"
  by (simp add: truthy_def defaultVideoConfig_def)

lemma demo_started_fields:
  "ongoingSessions demo_started = [''a'' \<mapsto> 0]"
  "pendingSessions demo_started = Map.empty"
  "fresh demo_started = 4"
  "now demo_started = 0"
  "faulty demo_started = {}"
  "outputs demo_started = outputs demo_prepared"
  "session_at demo_started 0 =
     \<lparr>mainProcess = Some 2, returnProcess = None, timeout = None, feedInterval = Some 3, socket = Some 1\<rparr>"
  "timers demo_started = [3 \<mapsto> \<lparr>due = 100 / 3, every = Some (100 / 3), action = FeedFrame 0\<rparr>]"
  "sockets demo_started = [1 \<mapsto> \<lparr> family = ''udp4'', bound = Some 40000, running = True,
                                   ownerSession = 0, ownerRequest = demo_start \<rparr>]"
  "map_option callback (processes demo_started 2) = Some (Some 7)"
  "map_option started (processes demo_started 2) = Some False"
  "map_option sessionId (processes demo_started 2) = Some ''a''"
  "map_option killTimeout (processes demo_started 2) = Some None"
  "ctx demo_started = ctx demo_prepared"
proof -
  from demo_started_eq obtain l where
    e: "demo_started = start_session demo_start 7 demo_info (demo_prepared\<lparr>logged := logged demo_prepared @ l\<rparr>)"
    by blast
  let ?p = "demo_prepared\<lparr>logged := logged demo_prepared @ l\<rparr>"
  have f: "fresh ?p = 0" "config ?p = defaultVideoConfig" "now ?p = 0"
    by (simp_all add: demo_prepared_fields)
  show "ongoingSessions demo_started = [''a'' \<mapsto> 0]"
    by (simp add: e start_session_fields demo_prepared_fields demo_start_def)
  show "pendingSessions demo_started = Map.empty"
    by (simp add: e start_session_fields demo_prepared_fields demo_start_def)
  show "fresh demo_started = 4"
    by (simp add: e start_session_fresh f not_truthy_default)
  show "now demo_started = 0"
    by (simp add: e start_session_fields f)
  show "ctx demo_started = ctx demo_prepared"
    by (simp add: e start_session_fields)
  show "faulty demo_started = {}"
    by (simp add: e start_session_fields demo_prepared_fields)
  show "outputs demo_started = outputs demo_prepared"
    by (simp add: e start_session_fields)
  show "session_at demo_started 0 =
     \<lparr>mainProcess = Some 2, returnProcess = None, timeout = None, feedInterval = Some 3, socket = Some 1\<rparr>"
    using start_session_session [of demo_start 7 demo_info ?p]
    by (simp add: e f not_truthy_default)
  show "timers demo_started = [3 \<mapsto> \<lparr>due = 100 / 3, every = Some (100 / 3), action = FeedFrame 0\<rparr>]"
    using start_session_timers [of demo_start 7 demo_info ?p]
    by (simp add: e f not_truthy_default demo_prepared_fields)
  show "sockets demo_started = [1 \<mapsto> \<lparr> family = ''udp4'', bound = Some 40000, running = True,
                                   ownerSession = 0, ownerRequest = demo_start \<rparr>]"
    using start_session_socket [of demo_start 7 demo_info ?p]
    by (simp add: e f demo_prepared_fields demo_info_def)
  have m: "processes demo_started 2 = Some \<lparr> cameraName = displayName (ctx ?p), sessionId = sessionID demo_start,
            spawnArgs = split_ws (stream_ffmpegArgs (config ?p) demo_start demo_info),
            callback = Some 7, started = False, startTime = now ?p, killTimeout = None,
            killed = False, stdinWritten = [], stdinEnded = False, stdinDestroyed = False \<rparr>"
    using start_session_main [of demo_start 7 demo_info ?p]
    by (simp add: e f numeral_2_eq_2)
  show "map_option callback (processes demo_started 2) = Some (Some 7)"
    by (subst m) simp
  show "map_option started (processes demo_started 2) = Some False"
    by (subst m) simp
  show "map_option sessionId (processes demo_started 2) = Some ''a''"
    by (subst m) (simp add: demo_start_def)
  show "map_option killTimeout (processes demo_started 2) = Some None"
    by (subst m) simp
qed

section \<open>stopStream on the concrete accessory\<close>

lemma session_at_faulty [simp]: "session_at (s\<lparr>faulty := F\<rparr>) a = session_at s a"
  by (simp add: session_at_def)

lemma tag_faulty [simp]: "tag (s\<lparr>faulty := F\<rparr>) = tag s"
  by (simp add: tag_def)

lemma tag_demo_started: "tag demo_started = ''[Door] ''"
  by (simp add: tag_def demo_started_fields demo_prepared_fields)

theorem stopStream_releases_once_witness:
  "ongoingSessions demo_started ''a'' = Some 0
   \<and> (\<exists>s'. stopStream ''a'' demo_started = Inr s'
         \<and> ongoingSessions s' ''a'' = None
         \<and> timers s' 3 = None
         \<and> map_option running (sockets s' 1) = Some False
         \<and> stop_requested s' 2 2000
         \<and> stopStream ''a'' s' = Inr (s'\<lparr>logged := logged s' @ [Log Info (tag s' @ ''Stopped video stream'')]\<rparr>))
   \<and> (\<exists>s'. stopStream ''a'' (demo_started\<lparr>faulty := {1}\<rparr>) = Inr s'
         \<and> ongoingSessions s' ''a'' = None
         \<and> Log Err (''[Door] Error occurred closing socket: Error: Not running'') \<in> set (logged s')
         \<and> stop_requested s' 2 2000)"
proof -
  have a: "ongoingSessions demo_started ''a'' = Some 0"
    by (simp add: demo_started_fields)
  note T = stopStream_releases_once [of "''a''" demo_started]
  from T [THEN conjunct1] obtain s' where r: "stopStream ''a'' demo_started = Inr s'" by blast
  note C = T [THEN conjunct2, THEN conjunct2, rule_format, of 0 s', OF conjI [OF a r]]
  have x: "timeout (session_at demo_started 0) = None" "feedInterval (session_at demo_started 0) = Some 3"
    "socket (session_at demo_started 0) = Some 1" "mainProcess (session_at demo_started 0) = Some 2"
    by (simp_all add: demo_started_fields)
  have so: "sockets demo_started 1 = Some \<lparr> family = ''udp4'', bound = Some 40000, running = True,
                                   ownerSession = 0, ownerRequest = demo_start \<rparr>"
    by (simp add: demo_started_fields)
  have pr: "processes demo_started 2 \<noteq> None"
    using demo_started_fields(10) by auto
  note C1 = C [THEN conjunct1]
  note R1 = C [THEN conjunct2]
  note R2 = R1 [THEN conjunct2]
  note C3 = R2 [THEN conjunct1]
  note R3 = R2 [THEN conjunct2]
  note C4 = R3 [THEN conjunct1]
  note R4 = R3 [THEN conjunct2]
  note R5 = R4 [THEN conjunct2]
  note C6 = R5 [THEN conjunct1]
  note R6 = R5 [THEN conjunct2]
  note R7 = R6 [THEN conjunct2]
  note R8 = R7 [THEN conjunct2]
  note R9 = R8 [THEN conjunct2]
  note C10 = R9 [THEN conjunct1]
  have h3: "feedInterval (session_at demo_started 0) = Some 3 \<and> 3 < fresh demo_started"
    by (simp add: demo_started_fields)
  note c2 = C3 [rule_format, OF h3]
  have h4: "socket (session_at demo_started 0) = Some 1 \<and> sockets demo_started 1 = Some \<lparr> family = ''udp4'', bound = Some 40000, running = True,
                                   ownerSession = 0, ownerRequest = demo_start \<rparr>
     \<and> running \<lparr> family = ''udp4'', bound = Some 40000, running = True,
                                   ownerSession = 0, ownerRequest = demo_start \<rparr> \<and> 1 \<notin> faulty demo_started"
    by (simp add: demo_started_fields)
  note c3 = C4 [rule_format, OF h4]
  have h6: "mainProcess (session_at demo_started 0) = Some 2 \<and> processes demo_started 2 \<noteq> None \<and> 2 \<notin> faulty demo_started"
    using pr by (simp add: demo_started_fields)
  have c4: "stop_requested s' 2 2000"
    using C6 [rule_format, OF h6] by (simp add: demo_started_fields)
  have first: "\<exists>s'. stopStream ''a'' demo_started = Inr s'
         \<and> ongoingSessions s' ''a'' = None
         \<and> timers s' 3 = None
         \<and> map_option running (sockets s' 1) = Some False
         \<and> stop_requested s' 2 2000
         \<and> stopStream ''a'' s' = Inr (s'\<lparr>logged := logged s' @ [Log Info (tag s' @ ''Stopped video stream'')]\<rparr>)"
  proof (intro exI [of _ s'] conjI)
    show "map_option running (sockets s' 1) = Some False" using c3 by simp
  qed (rule r C1 c2 c4 C10)+
  let ?f = "demo_started\<lparr>faulty := {1}\<rparr>"
  have fa: "ongoingSessions ?f ''a'' = Some 0" using a by simp
  note U = stopStream_releases_once [of "''a''" ?f]
  from U [THEN conjunct1] obtain u where ru: "stopStream ''a'' ?f = Inr u" by blast
  note D = U [THEN conjunct2, THEN conjunct2, rule_format, of 0 u, OF conjI [OF fa ru]]
  note D1 = D [THEN conjunct1]
  note D5 = D [THEN conjunct2, THEN conjunct2, THEN conjunct2, THEN conjunct2, THEN conjunct1]
  note D6 = D [THEN conjunct2, THEN conjunct2, THEN conjunct2, THEN conjunct2, THEN conjunct2, THEN conjunct1]
  have g5: "socket (session_at ?f 0) = Some 1
                \<and> (case sockets ?f 1 of None \<Rightarrow> True | Some so \<Rightarrow> \<not> running so \<or> 1 \<in> faulty ?f)"
    by (simp add: demo_started_fields)
  note d5 = D5 [rule_format, OF g5]
  have d5': "Log Err (''[Door] Error occurred closing socket: Error: Not running'') \<in> set (logged u)"
    using d5 by (simp add: tag_demo_started show_error_def)
  have g6: "mainProcess (session_at ?f 0) = Some 2 \<and> processes ?f 2 \<noteq> None \<and> 2 \<notin> faulty ?f"
    using pr by (simp add: demo_started_fields)
  have d6: "stop_requested u 2 2000"
    using D6 [rule_format, OF g6] by (simp add: demo_started_fields)
  have second: "\<exists>s'. stopStream ''a'' ?f = Inr s'
         \<and> ongoingSessions s' ''a'' = None
         \<and> Log Err (''[Door] Error occurred closing socket: Error: Not running'') \<in> set (logged s')
         \<and> stop_requested s' 2 2000"
    by (intro exI [of _ u] conjI) (rule ru D1 d5' d6)+
  from a first second show ?thesis by blast
qed

section \<open>Start without a pending session\<close>

lemma stopStream_keeps:
  assumes "stopStream sid s = Inr s'"
  shows "pendingSessions s' = pendingSessions s" "outputs s' = outputs s" "now s' = now s"
    "ctx s' = ctx s" "config s' = config s" "sessions s' = sessions s" "faulty s' = faulty s"
    "snapshotPromise s' = snapshotPromise s" "promises s' = promises s"
    "snapshotProcesses s' = snapshotProcesses s" "alternativeSnapshot s' = alternativeSnapshot s"
    "idleImage s' = idleImage s"
    "ongoingSessions s' = (ongoingSessions s)(sid := None)"
proof -
  have "pendingSessions s' = pendingSessions s \<and> outputs s' = outputs s \<and> now s' = now s
    \<and> ctx s' = ctx s \<and> config s' = config s \<and> sessions s' = sessions s \<and> faulty s' = faulty s
    \<and> snapshotPromise s' = snapshotPromise s \<and> promises s' = promises s
    \<and> snapshotProcesses s' = snapshotProcesses s \<and> alternativeSnapshot s' = alternativeSnapshot s
    \<and> idleImage s' = idleImage s \<and> ongoingSessions s' = (ongoingSessions s)(sid := None)"
  proof (cases "ongoingSessions s sid")
    case None
    with assms show ?thesis by (auto simp: stopStream_absent fun_upd_idem)
  next
    case (Some a)
    have e: "after (stopStream sid) s = s'" by (rule after_stop [OF assms])
    note f = stopStream_present(2,3) [OF Some, unfolded e]
    from f(1) have "pendingSessions s' = pendingSessions s \<and> outputs s' = outputs s \<and> now s' = now s
    \<and> ctx s' = ctx s \<and> config s' = config s \<and> sessions s' = sessions s \<and> faulty s' = faulty s
    \<and> snapshotPromise s' = snapshotPromise s \<and> promises s' = promises s
    \<and> snapshotProcesses s' = snapshotProcesses s \<and> alternativeSnapshot s' = alternativeSnapshot s
    \<and> idleImage s' = idleImage s"
      by (simp add: only_resources_iff)
    with f(2) show ?thesis by simp
  qed
  then show "pendingSessions s' = pendingSessions s" "outputs s' = outputs s" "now s' = now s"
    "ctx s' = ctx s" "config s' = config s" "sessions s' = sessions s" "faulty s' = faulty s"
    "snapshotPromise s' = snapshotPromise s" "promises s' = promises s"
    "snapshotProcesses s' = snapshotProcesses s" "alternativeSnapshot s' = alternativeSnapshot s"
    "idleImage s' = idleImage s"
    "ongoingSessions s' = (ongoingSessions s)(sid := None)"
    by simp_all
qed

lemma startStream_pending_gone:
  assumes "startStream request cb s = Inr s'"
  shows "pendingSessions s' (sessionID request) = None"
proof (cases "pendingSessions s (sessionID request)")
  case None
  with assms show ?thesis by (auto simp: startStream_missing)
next
  case (Some info)
  from startStream_found [OF Some, of cb] assms obtain l where
    "s' = start_session request cb info (s\<lparr>logged := logged s @ l\<rparr>)" by auto
  then show ?thesis by (simp add: start_session_fields)
qed

text \<open>
  Claim C2. A start for a session id with no pending entry logs the error, reports
  "Error finding session information" through the request's callback and changes nothing
  else: both session maps and every resource are as before. That is the case before any
  prepare, and again once a start has consumed the pending entry and a stop has removed
  the session.
\<close>

theorem startStream_session_not_found:
  "(pendingSessions s (sessionID request) = None \<longrightarrow>
      startStream request cb s =
        Inr (s\<lparr>logged := logged s @ [Log Err (tag s @ ''Error finding session information'')],
               outputs := outputs s @
                 [StreamCallback cb (Some (Error ''Error finding session information''))]\<rparr>))
   \<and> (\<forall>s1 s2. startStream request cb0 s = Inr s1 \<and> stopStream (sessionID request) s1 = Inr s2 \<longrightarrow>
        pendingSessions s2 (sessionID request) = None
        \<and> ongoingSessions s2 (sessionID request) = None
        \<and> startStream request cb s2 =
            Inr (s2\<lparr>logged := logged s2 @ [Log Err (tag s2 @ ''Error finding session information'')],
                    outputs := outputs s2 @
                      [StreamCallback cb (Some (Error ''Error finding session information''))]\<rparr>))"
proof (intro conjI allI impI)
  assume "pendingSessions s (sessionID request) = None"
  then show "startStream request cb s =
        Inr (s\<lparr>logged := logged s @ [Log Err (tag s @ ''Error finding session information'')],
               outputs := outputs s @
                 [StreamCallback cb (Some (Error ''Error finding session information''))]\<rparr>)"
    by (rule startStream_missing)
next
  fix s1 s2
  assume h: "startStream request cb0 s = Inr s1 \<and> stopStream (sessionID request) s1 = Inr s2"
  then have a: "pendingSessions s1 (sessionID request) = None"
    using startStream_pending_gone by blast
  from h have b: "pendingSessions s2 = pendingSessions s1"
    using stopStream_keeps(1) by blast
  from a b show p: "pendingSessions s2 (sessionID request) = None" by simp
  from h show "ongoingSessions s2 (sessionID request) = None"
    using stopStream_gone by blast
  from p show "startStream request cb s2 =
            Inr (s2\<lparr>logged := logged s2 @ [Log Err (tag s2 @ ''Error finding session information'')],
                    outputs := outputs s2 @
                      [StreamCallback cb (Some (Error ''Error finding session information''))]\<rparr>)"
    by (rule startStream_missing)
qed

lemma demo_stopped_run: "stopStream ''a'' demo_started = Inr demo_stopped"
  unfolding demo_stopped_def using stopStream_present(1) [of demo_started "''a''" 0]
  by (simp add: demo_started_fields)

lemma demo_start_run: "startStream demo_start 7 demo_prepared = Inr demo_started"
  using demo_started_eq by (auto simp: handle_event_def handleStreamRequest_def)

theorem startStream_session_not_found_witness:
  "pendingSessions demo_world (sessionID demo_start) = None
   \<and> startStream demo_start 7 demo_world =
        Inr (demo_world\<lparr>logged := logged demo_world @ [Log Err (tag demo_world @ ''Error finding session information'')],
               outputs := outputs demo_world @
                 [StreamCallback 7 (Some (Error ''Error finding session information''))]\<rparr>)
   \<and> startStream demo_start 7 demo_prepared = Inr demo_started
   \<and> stopStream (sessionID demo_start) demo_started = Inr demo_stopped
   \<and> pendingSessions demo_stopped (sessionID demo_start) = None
   \<and> ongoingSessions demo_stopped (sessionID demo_start) = None
   \<and> startStream demo_start 9 demo_stopped =
        Inr (demo_stopped\<lparr>logged := logged demo_stopped @ [Log Err (tag demo_stopped @ ''Error finding session information'')],
               outputs := outputs demo_stopped @
                 [StreamCallback 9 (Some (Error ''Error finding session information''))]\<rparr>)"
proof -
  have a: "pendingSessions demo_world (sessionID demo_start) = None"
    by (simp add: demo_world_def initial_def)
  note A = startStream_session_not_found [of demo_world demo_start 7, THEN conjunct1, rule_format, OF a]
  have sid: "sessionID demo_start = ''a''" by (simp add: demo_start_def)
  have b: "startStream demo_start 7 demo_prepared = Inr demo_started
           \<and> stopStream (sessionID demo_start) demo_started = Inr demo_stopped"
    using demo_start_run demo_stopped_run by (simp add: sid)
  note B = startStream_session_not_found [of demo_prepared demo_start 9 7, THEN conjunct2, rule_format, OF b]
  from a A b B show ?thesis by blast
qed

section \<open>The two session maps\<close>

lemma startStream_maps:
  assumes "pendingSessions s (sessionID request) = Some info" "startStream request cb s = Inr s'"
  shows "pendingSessions s' = (pendingSessions s)(sessionID request := None)"
    and "ongoingSessions s' = (ongoingSessions s)(sessionID request \<mapsto> fresh s)"
proof -
  from startStream_found [OF assms(1), of cb] assms(2) obtain l where
    e: "s' = start_session request cb info (s\<lparr>logged := logged s @ l\<rparr>)" by auto
  show "pendingSessions s' = (pendingSessions s)(sessionID request := None)"
    by (simp add: e start_session_fields)
  show "ongoingSessions s' = (ongoingSessions s)(sessionID request \<mapsto> fresh s)"
    by (simp add: e start_session_fields)
qed

lemma startStream_disjoint:
  assumes d: "sessions_disjoint s" and r: "startStream request cb s = Inr s'"
  shows "sessions_disjoint s'"
proof (cases "pendingSessions s (sessionID request)")
  case None
  with r have "pendingSessions s' = pendingSessions s \<and> ongoingSessions s' = ongoingSessions s"
    by (auto simp: startStream_missing)
  with d show ?thesis by (simp add: sessions_disjoint_def)
next
  case (Some info)
  from startStream_maps [OF Some r] d show ?thesis
    by (auto simp: sessions_disjoint_def)
qed

lemma stopStream_disjoint:
  assumes d: "sessions_disjoint s" and r: "stopStream sid s = Inr s'"
  shows "sessions_disjoint s'"
  using d stopStream_keeps(1,13) [OF r] by (auto simp: sessions_disjoint_def)

lemma prepareStream_maps:
  assumes "prepareStream p cb vp vs ap as s = Inr s'"
  shows "ongoingSessions s' = ongoingSessions s"
    and "\<exists>info. pendingSessions s' = (pendingSessions s)(prepareSessionID p \<mapsto> info)"
proof -
  from assms obtain v a where va: "vp = Inr v" "ap = Inr a"
    by (cases vp; cases ap) (simp_all add: prepareStream_rejected)
  from assms show "ongoingSessions s' = ongoingSessions s"
    unfolding va prepareStream_ok by auto
  from assms show "\<exists>info. pendingSessions s' = (pendingSessions s)(prepareSessionID p \<mapsto> info)"
    unfolding va prepareStream_ok by auto
qed

lemma prepareStream_disjoint:
  assumes d: "sessions_disjoint s" and n: "ongoingSessions s (prepareSessionID p) = None"
    and r: "prepareStream p cb vp vs ap as s = Inr s'"
  shows "sessions_disjoint s'"
proof -
  from prepareStream_maps [OF r] obtain info where
    o: "ongoingSessions s' = ongoingSessions s"
    and q: "pendingSessions s' = (pendingSessions s)(prepareSessionID p \<mapsto> info)" by blast
  have "pendingSessions s' x = None \<or> ongoingSessions s' x = None" for x
  proof (cases "x = prepareSessionID p")
    case True
    with n o show ?thesis by simp
  next
    case False
    with d o q show ?thesis by (simp add: sessions_disjoint_def)
  qed
  then show ?thesis by (simp add: sessions_disjoint_def)
qed

text \<open>
  Claim C3, as the code has it. \<open>startStream\<close> and \<open>stopStream\<close> keep the two session
  maps disjoint, and so does a \<open>prepareStream\<close> for an id that has no Active entry; a
  start that finds the pending entry removes it and stores the new Active entry under the
  id, whatever was there.
\<close>

theorem session_maps_stay_disjoint:
  "(sessions_disjoint s \<and> startStream request cb s = Inr s' \<longrightarrow> sessions_disjoint s')
   \<and> (sessions_disjoint s \<and> stopStream sid s = Inr s' \<longrightarrow> sessions_disjoint s')
   \<and> (sessions_disjoint s \<and> ongoingSessions s (prepareSessionID p) = None
        \<and> prepareStream p pcb vp vs ap as s = Inr s' \<longrightarrow> sessions_disjoint s')
   \<and> (pendingSessions s (sessionID request) \<noteq> None \<and> startStream request cb s = Inr s' \<longrightarrow>
        pendingSessions s' = (pendingSessions s)(sessionID request := None)
        \<and> ongoingSessions s' = (ongoingSessions s)(sessionID request \<mapsto> fresh s))"
proof (intro conjI impI)
  assume "sessions_disjoint s \<and> startStream request cb s = Inr s'"
  then show "sessions_disjoint s'" using startStream_disjoint by blast
next
  assume "sessions_disjoint s \<and> stopStream sid s = Inr s'"
  then show "sessions_disjoint s'" using stopStream_disjoint by blast
next
  assume "sessions_disjoint s \<and> ongoingSessions s (prepareSessionID p) = None
        \<and> prepareStream p pcb vp vs ap as s = Inr s'"
  then show "sessions_disjoint s'" using prepareStream_disjoint by blast
next
  assume h: "pendingSessions s (sessionID request) \<noteq> None \<and> startStream request cb s = Inr s'"
  then obtain info where i: "pendingSessions s (sessionID request) = Some info" by auto
  from h have r: "startStream request cb s = Inr s'" by simp
  show "pendingSessions s' = (pendingSessions s)(sessionID request := None)"
    by (rule startStream_maps(1) [OF i r])
  show "ongoingSessions s' = (ongoingSessions s)(sessionID request \<mapsto> fresh s)"
    by (rule startStream_maps(2) [OF i r])
qed

lemma demo_prepare_again: "handle_event demo_prepare_event demo_started = Inr demo_reprepared"
  by (simp add: demo_reprepared_def after_def handle_event_def demo_prepare_event_def prepareStream_ok)

lemma demo_reprepared_maps:
  "pendingSessions demo_reprepared ''a'' = Some demo_info"
  "ongoingSessions demo_reprepared ''a'' = Some 0"
  by (simp_all add: demo_reprepared_def after_def handle_event_def demo_prepare_event_def
        prepareStream_ok demo_started_fields demo_prepare_def demo_info_def)

lemma enabled_request [simp]:
  "enabled s (Prepare p cb vp vs ap as)" "enabled s (StreamRequest q cb)"
  by (simp_all add: enabled_def)

text \<open>
  Claim C3 as stated fails: after prepare, start and a second prepare of the same id, the
  id is both Pending and Active.
\<close>

theorem session_in_both_maps_counterexample:
  "run [demo_prepare_event, StreamRequest (START demo_start) 7, demo_prepare_event] demo_world
     = Some (Inr demo_reprepared)
   \<and> pendingSessions demo_reprepared ''a'' = Some demo_info
   \<and> ongoingSessions demo_reprepared ''a'' = Some 0
   \<and> \<not> sessions_disjoint demo_reprepared"
proof -
  have e: "enabled demo_world demo_prepare_event" "enabled demo_started demo_prepare_event"
    by (simp_all add: demo_prepare_event_def)
  have r: "run [demo_prepare_event, StreamRequest (START demo_start) 7, demo_prepare_event] demo_world
     = Some (Inr demo_reprepared)"
    using demo_started_eq
    by (auto simp: e demo_prepared_run demo_prepare_again)
  have "\<not> sessions_disjoint demo_reprepared"
    using demo_reprepared_maps by (auto simp: sessions_disjoint_def)
  with r demo_reprepared_maps show ?thesis by simp
qed

theorem session_maps_stay_disjoint_witness:
  "sessions_disjoint demo_prepared
   \<and> startStream demo_start 7 demo_prepared = Inr demo_started
   \<and> sessions_disjoint demo_started
   \<and> pendingSessions demo_started = (pendingSessions demo_prepared)(''a'' := None)
   \<and> ongoingSessions demo_started = (ongoingSessions demo_prepared)(''a'' \<mapsto> 0)
   \<and> stopStream ''a'' demo_started = Inr demo_stopped
   \<and> sessions_disjoint demo_stopped
   \<and> ongoingSessions demo_world (prepareSessionID demo_prepare) = None
   \<and> prepareStream demo_prepare 1 (Inr 40000) 111 (Inr 40002) 222 demo_world = Inr demo_prepared"
proof -
  have w: "sessions_disjoint demo_world"
    by (simp add: sessions_disjoint_def demo_world_def initial_def)
  have n: "ongoingSessions demo_world (prepareSessionID demo_prepare) = None"
    by (simp add: demo_world_def initial_def)
  have p: "prepareStream demo_prepare 1 (Inr 40000) 111 (Inr 40002) 222 demo_world = Inr demo_prepared"
    using demo_prepared_run by (simp add: handle_event_def demo_prepare_event_def)
  note T1 = session_maps_stay_disjoint [where s=demo_world and request=demo_start and cb=7 and s'=demo_prepared
      and sid="''a''" and p=demo_prepare and pcb=1 and vp="Inr 40000" and vs=111 and ap="Inr 40002" and as=222]
  have d1: "sessions_disjoint demo_prepared"
    using T1 [THEN conjunct2, THEN conjunct2, THEN conjunct1] w n p by simp
  note T2 = session_maps_stay_disjoint [where s=demo_prepared and request=demo_start and cb=7 and s'=demo_started
      and sid="''a''" and p=demo_prepare and pcb=1 and vp="Inr 40000" and vs=111 and ap="Inr 40002" and as=222]
  have d2: "sessions_disjoint demo_started"
    using T2 [THEN conjunct1] d1 demo_start_run by simp
  have m: "pendingSessions demo_started = (pendingSessions demo_prepared)(''a'' := None)
   \<and> ongoingSessions demo_started = (ongoingSessions demo_prepared)(''a'' \<mapsto> 0)"
    using T2 [THEN conjunct2, THEN conjunct2, THEN conjunct2] demo_start_run demo_pending
    by (simp add: demo_start_def demo_prepared_fields)
  note T3 = session_maps_stay_disjoint [where s=demo_started and request=demo_start and cb=7 and s'=demo_stopped
      and sid="''a''" and p=demo_prepare and pcb=1 and vp="Inr 40000" and vs=111 and ap="Inr 40002" and as=222]
  have d3: "sessions_disjoint demo_stopped"
    using T3 [THEN conjunct2, THEN conjunct1] d2 demo_stopped_run by simp
  from d1 demo_start_run d2 m demo_stopped_run d3 n p show ?thesis by simp
qed

section \<open>The liveness socket and the inactivity timer\<close>

lemma on_socket_message_result:
  assumes "sockets s k = Some so"
  shows "on_socket_message k s =
     Inr (update_session (ownerSession so) (\<lambda>x. x\<lparr>timeout := Some (fresh s)\<rparr>)
           (s\<lparr>fresh := Suc (fresh s),
              timers := ((case timeout (session_at s (ownerSession so)) of
                            None \<Rightarrow> timers s | Some t \<Rightarrow> (timers s)(t := None)))
                        (fresh s \<mapsto> \<lparr>due = now s + rtcp_interval (video (ownerRequest so)) * 5 * 1000,
                                     every = None,
                                     action = InactivityTimeout (sessionID (ownerRequest so))\<rparr>)\<rparr>))"
proof (cases "timeout (session_at s (ownerSession so))")
  case None
  with assms show ?thesis
    by (simp add: on_socket_message_def setTimeout_def update_session_def session_at_def)
next
  case (Some t)
  with assms show ?thesis
    by (simp add: on_socket_message_def setTimeout_def update_session_def session_at_def)
qed

lemma on_socket_message_effect:
  assumes so: "sockets s k = Some so" and r: "on_socket_message k s = Inr s'"
  shows "timeout (session_at s' (ownerSession so)) = Some (fresh s)"
    and "timers s' (fresh s) =
           Some \<lparr>due = now s + rtcp_interval (video (ownerRequest so)) * 5 * 1000, every = None,
                 action = InactivityTimeout (sessionID (ownerRequest so))\<rparr>"
    and "\<forall>t. timeout (session_at s (ownerSession so)) = Some t \<and> t < fresh s \<longrightarrow> timers s' t = None"
    and "ongoingSessions s' = ongoingSessions s" and "outputs s' = outputs s" and "now s' = now s"
    and "fresh s' = Suc (fresh s)"
proof -
  note e = r [unfolded on_socket_message_result [OF so], simplified]
  show "timeout (session_at s' (ownerSession so)) = Some (fresh s)"
    by (simp add: e [symmetric] update_session_def session_at_def)
  show "timers s' (fresh s) =
           Some \<lparr>due = now s + rtcp_interval (video (ownerRequest so)) * 5 * 1000, every = None,
                 action = InactivityTimeout (sessionID (ownerRequest so))\<rparr>"
    by (simp add: e [symmetric] update_session_def)
  show "\<forall>t. timeout (session_at s (ownerSession so)) = Some t \<and> t < fresh s \<longrightarrow> timers s' t = None"
    by (auto simp: e [symmetric] update_session_def)
  show "ongoingSessions s' = ongoingSessions s" "outputs s' = outputs s" "now s' = now s"
    "fresh s' = Suc (fresh s)"
    by (simp_all add: e [symmetric] update_session_def)
qed

lemma fire_inactivity:
  assumes t: "timers s h = Some \<lparr>due = d, every = None, action = InactivityTimeout sid\<rparr>"
  shows "\<exists>s'. fire h s = Inr s' \<and> ongoingSessions s' sid = None
           \<and> outputs s' = outputs s @ [ForceStopStreamingSession sid]"
proof -
  let ?s1 = "s\<lparr>timers := (timers s)(h := None)\<rparr>"
  let ?s3 = "?s1\<lparr>logged := logged ?s1 @ [Log Info (tag ?s1 @ ''Device appears to be inactive. Stopping stream.'')],
                 outputs := outputs ?s1 @ [ForceStopStreamingSession sid]\<rparr>"
  from stopStream_total [of sid ?s3] obtain s' where r: "stopStream sid ?s3 = Inr s'" by blast
  have f: "fire h s = Inr s'"
    using t r by (simp add: fire_def run_action_def inactivity_timeout_def)
  have o: "outputs s' = outputs s @ [ForceStopStreamingSession sid]"
    using stopStream_keeps(2) [OF r] by simp
  have g: "ongoingSessions s' sid = None" by (rule stopStream_gone [OF r])
  from f o g show ?thesis by blast
qed

lemma elapse_bounded:
  assumes "enabled s (Elapse e)" "timers s h = Some t" "h < fresh s"
  shows "now s + e \<le> due t"
proof -
  from assms(1) have "list_all (\<lambda>h. case timers s h of None \<Rightarrow> True | Some x \<Rightarrow> now s + e \<le> due x) [0..<fresh s]"
    by (simp add: enabled_def no_timer_before_def)
  then have "case timers s h of None \<Rightarrow> True | Some x \<Rightarrow> now s + e \<le> due x"
    using assms(3) by (simp add: list_all_iff)
  with assms(2) show ?thesis by simp
qed

lemma startStream_arms_feed_only:
  assumes p: "pendingSessions s (sessionID r) = Some info" and r: "startStream r cb s = Inr s'"
  shows "timeout (session_at s' (fresh s)) = None"
    and "ongoingSessions s' (sessionID r) = Some (fresh s)"
    and "\<exists>f. timers s' = (timers s)(f \<mapsto> \<lparr>due = now s + 1000 / 30, every = Some (1000 / 30),
                                         action = FeedFrame (fresh s)\<rparr>)"
proof -
  from startStream_found [OF p, of cb] r obtain l where
    e: "s' = start_session r cb info (s\<lparr>logged := logged s @ l\<rparr>)" by auto
  let ?s0 = "s\<lparr>logged := logged s @ l\<rparr>"
  show "timeout (session_at s' (fresh s)) = None"
    using start_session_session [of r cb info ?s0] by (simp add: e)
  show "ongoingSessions s' (sessionID r) = Some (fresh s)"
    by (simp add: e start_session_fields)
  show "\<exists>f. timers s' = (timers s)(f \<mapsto> \<lparr>due = now s + 1000 / 30, every = Some (1000 / 30),
                                         action = FeedFrame (fresh s)\<rparr>)"
    using start_session_timers [of r cb info ?s0] by (auto simp: e)
qed

text \<open>
  Claim C4, as the code has it. \<open>startStream\<close> arms the feed interval and nothing else:
  the new session has no inactivity timer. Each datagram on the liveness socket cancels
  the session's inactivity timer, if it has one, and arms a new one for
  \<open>rtcp_interval * 5 * 1000\<close> milliseconds from now. Time does not pass an armed timer, the
  timer can fire once it is due, and when it fires the forced stop is signalled to the
  hub and \<open>stopStream\<close> removes the Active entry.
\<close>

theorem inactivity_timer_armed_by_datagram:
  "(pendingSessions s (sessionID r) = Some info \<and> startStream r cb s = Inr s' \<longrightarrow>
      ongoingSessions s' (sessionID r) = Some (fresh s)
      \<and> timeout (session_at s' (fresh s)) = None
      \<and> (\<exists>f. timers s' = (timers s)(f \<mapsto> \<lparr>due = now s + 1000 / 30, every = Some (1000 / 30),
                                          action = FeedFrame (fresh s)\<rparr>)))
   \<and> (sockets s k = Some so \<longrightarrow>
        (\<exists>s2. on_socket_message k s = Inr s2
           \<and> timeout (session_at s2 (ownerSession so)) = Some (fresh s)
           \<and> timers s2 (fresh s) =
                Some \<lparr>due = now s + rtcp_interval (video (ownerRequest so)) * 5 * 1000, every = None,
                      action = InactivityTimeout (sessionID (ownerRequest so))\<rparr>
           \<and> (\<forall>t. timeout (session_at s (ownerSession so)) = Some t \<and> t < fresh s \<longrightarrow>
                  timers s2 t = None)))
   \<and> (timers s h = Some x \<and> h < fresh s \<and> enabled s (Elapse e) \<longrightarrow> now s + e \<le> due x)
   \<and> (timers s h = Some \<lparr>due = d, every = None, action = InactivityTimeout sid\<rparr> \<longrightarrow>
        enabled s (TimerFires h) = (d \<le> now s)
        \<and> (\<exists>s3. fire h s = Inr s3 \<and> ongoingSessions s3 sid = None
               \<and> outputs s3 = outputs s @ [ForceStopStreamingSession sid]))"
proof (intro conjI impI)
  assume h: "pendingSessions s (sessionID r) = Some info \<and> startStream r cb s = Inr s'"
  then have p: "pendingSessions s (sessionID r) = Some info" and q: "startStream r cb s = Inr s'"
    by simp_all
  show "ongoingSessions s' (sessionID r) = Some (fresh s)" by (rule startStream_arms_feed_only(2) [OF p q])
  show "timeout (session_at s' (fresh s)) = None" by (rule startStream_arms_feed_only(1) [OF p q])
  show "\<exists>f. timers s' = (timers s)(f \<mapsto> \<lparr>due = now s + 1000 / 30, every = Some (1000 / 30),
                                          action = FeedFrame (fresh s)\<rparr>)"
    by (rule startStream_arms_feed_only(3) [OF p q])
next
  assume so: "sockets s k = Some so"
  from on_socket_message_result [OF so] obtain s2 where r: "on_socket_message k s = Inr s2" by blast
  note f = on_socket_message_effect [OF so r]
  show "\<exists>s2. on_socket_message k s = Inr s2
           \<and> timeout (session_at s2 (ownerSession so)) = Some (fresh s)
           \<and> timers s2 (fresh s) =
                Some \<lparr>due = now s + rtcp_interval (video (ownerRequest so)) * 5 * 1000, every = None,
                      action = InactivityTimeout (sessionID (ownerRequest so))\<rparr>
           \<and> (\<forall>t. timeout (session_at s (ownerSession so)) = Some t \<and> t < fresh s \<longrightarrow>
                  timers s2 t = None)"
    by (intro exI [of _ s2] conjI) (rule r f(1) f(2) f(3))+
next
  assume "timers s h = Some x \<and> h < fresh s \<and> enabled s (Elapse e)"
  then show "now s + e \<le> due x" using elapse_bounded by blast
next
  assume t: "timers s h = Some \<lparr>due = d, every = None, action = InactivityTimeout sid\<rparr>"
  then show "enabled s (TimerFires h) = (d \<le> now s)" by (simp add: enabled_def)
  from fire_inactivity [OF t]
  show "\<exists>s3. fire h s = Inr s3 \<and> ongoingSessions s3 sid = None
               \<and> outputs s3 = outputs s @ [ForceStopStreamingSession sid]" .
qed

lemma run_append:
  "run (es @ fs) s = (case run es s of Some (Inr t) \<Rightarrow> run fs t | Some (Inl e) \<Rightarrow> Some (Inl e) | None \<Rightarrow> None)"
  by (induction es arbitrary: s) (auto split: sum.splits)

lemma feed_rounds_Suc: "feed_rounds (Suc n) = feed_rounds n @ [Elapse (100 / 3), TimerFires 3]"
proof -
  have "replicate (Suc n) [Elapse (100 / 3), TimerFires 3]
          = replicate n [Elapse (100 / 3), TimerFires 3] @ [[Elapse (100 / 3), TimerFires 3]]"
    by (simp add: replicate_append_same)
  then show ?thesis by (simp add: feed_rounds_def del: replicate_Suc)
qed

lemma createAlternativeSnapshot_frame:
  "createAlternativeSnapshot s = (r, s') \<Longrightarrow>
   s' = s\<lparr>alternativeSnapshot := alternativeSnapshot s', logged := logged s'\<rparr>"
  by (auto simp: createAlternativeSnapshot_def Let_def split: option.splits sum.splits)

lemma source_image_frame:
  "source_image s = (r, s') \<Longrightarrow>
   s' = s\<lparr>alternativeSnapshot := alternativeSnapshot s', logged := logged s'\<rparr>"
  by (auto simp: source_image_def split: option.splits dest: createAlternativeSnapshot_frame)

lemma feed_frame_frame:
  "\<exists>s'. feed_frame a s = Inr s'
        \<and> s' = s\<lparr>alternativeSnapshot := alternativeSnapshot s', logged := logged s',
                  processes := processes s'\<rparr>"
proof -
  obtain r s1 where si: "source_image s = (r, s1)" by (cases "source_image s") auto
  note f = source_image_frame [OF si]
  show ?thesis
  proof (cases r)
    case (Inl e)
    with si have "feed_frame a s = Inr s1" by (simp add: feed_frame_def)
    moreover have "s1 = s\<lparr>alternativeSnapshot := alternativeSnapshot s1, logged := logged s1,
                  processes := processes s1\<rparr>"
      by (subst f, simp)+
    ultimately show ?thesis by blast
  next
    case (Inr img)
    have ps: "processes s1 = processes s" by (subst f) simp
    show ?thesis
    proof (cases "mainProcess (session_at s1 a)")
      case None
      with si Inr have "feed_frame a s = Inr s1" by (simp add: feed_frame_def)
      moreover have "s1 = s\<lparr>alternativeSnapshot := alternativeSnapshot s1, logged := logged s1,
                  processes := processes s1\<rparr>"
        by (subst f, simp)+
      ultimately show ?thesis by blast
    next
      case (Some p)
      show ?thesis
      proof (cases "processes s1 p")
        case None
        with si Inr Some have "feed_frame a s = Inr s1" by (simp add: feed_frame_def)
        moreover have "s1 = s\<lparr>alternativeSnapshot := alternativeSnapshot s1, logged := logged s1,
                  processes := processes s1\<rparr>"
          by (subst f, simp)+
        ultimately show ?thesis by blast
      next
        case (Some pr)
        let ?t = "s1\<lparr>processes := (processes s1)(p \<mapsto> pr\<lparr>stdinWritten := stdinWritten pr @ [Bytes img]\<rparr>)\<rparr>"
        from si Inr \<open>mainProcess (session_at s1 a) = Some p\<close> Some
        have "feed_frame a s = Inr ?t" by (simp add: feed_frame_def)
        moreover have "?t = s\<lparr>alternativeSnapshot := alternativeSnapshot ?t, logged := logged ?t,
                  processes := processes ?t\<rparr>"
          by (subst f) simp
        ultimately show ?thesis by blast
      qed
    qed
  qed
qed

lemma feeding_round:
  assumes "feeding n t"
  shows "\<exists>u. run [Elapse (100 / 3), TimerFires 3] t = Some (Inr u) \<and> feeding (Suc n) u"
proof -
  from assms have a: "now t = of_nat n * (100 / 3)" "fresh t = 4"
    "timers t = [3 \<mapsto> \<lparr>due = now t + 100 / 3, every = Some (100 / 3), action = FeedFrame 0\<rparr>]"
    "ongoingSessions t = [''a'' \<mapsto> 0]" "outputs t = outputs demo_started"
    "sessions t = sessions demo_started"
    by (simp_all add: feeding_def)
  have e1: "enabled t (Elapse (100 / 3))"
    by (simp add: enabled_def no_timer_before_def list_all_iff a)
  let ?t1 = "t\<lparr>now := now t + 100 / 3\<rparr>"
  have h1: "handle_event (Elapse (100 / 3)) t = Inr ?t1" by (simp add: handle_event_def)
  have e2: "enabled ?t1 (TimerFires 3)" by (simp add: enabled_def a)
  let ?t2 = "?t1\<lparr>timers := (timers ?t1)(3 \<mapsto> \<lparr>due = now ?t1 + 100 / 3, every = Some (100 / 3), action = FeedFrame 0\<rparr>)\<rparr>"
  from feed_frame_frame [of 0 ?t2] obtain u where
    u: "feed_frame 0 ?t2 = Inr u"
       "u = ?t2\<lparr>alternativeSnapshot := alternativeSnapshot u, logged := logged u, processes := processes u\<rparr>"
    by blast
  have h2: "handle_event (TimerFires 3) ?t1 = Inr u"
    using u(1) by (simp add: handle_event_def fire_def a run_action_def)
  have r: "run [Elapse (100 / 3), TimerFires 3] t = Some (Inr u)"
    using e1 h1 e2 h2 by simp
  have f: "now u = now t + 100 / 3" "fresh u = 4"
    "timers u = [3 \<mapsto> \<lparr>due = now t + 100 / 3 + 100 / 3, every = Some (100 / 3), action = FeedFrame 0\<rparr>]"
    "ongoingSessions u = [''a'' \<mapsto> 0]" "outputs u = outputs demo_started"
    "sessions u = sessions demo_started"
    by (subst u(2), simp add: a)+
  have "feeding (Suc n) u"
    using f a(1) by (simp add: feeding_def algebra_simps)
  with r show ?thesis by blast
qed

lemma feeding_rounds: "\<exists>t. run (feed_rounds n) demo_started = Some (Inr t) \<and> feeding n t"
proof (induction n)
  case 0
  have "feeding 0 demo_started"
    by (simp add: feeding_def demo_started_fields)
  then show ?case by (simp add: feed_rounds_def)
next
  case (Suc n)
  then obtain t where t: "run (feed_rounds n) demo_started = Some (Inr t)" "feeding n t" by blast
  from feeding_round [OF t(2)] obtain u where
    u: "run [Elapse (100 / 3), TimerFires 3] t = Some (Inr u)" "feeding (Suc n) u" by blast
  have "run (feed_rounds (Suc n)) demo_started = Some (Inr u)"
    unfolding feed_rounds_Suc run_append t(1) using u(1) by simp
  with u(2) show ?case by blast
qed

lemma no_force_stop_prepared: "ForceStopStreamingSession sid \<notin> set (outputs demo_prepared)"
  by (simp add: demo_prepared_def after_def handle_event_def demo_prepare_event_def prepareStream_ok
        demo_world_def initial_def)

text \<open>
  Claim C4 as stated fails: after the start, with no datagram at all, the feed interval
  fires 150 times while \<open>rtcp_interval * 5\<close> seconds pass twice over; the session is
  still Active, no forced stop was signalled, and no inactivity timer is armed.
\<close>

theorem no_datagram_no_timeout_counterexample:
  "run (feed_rounds 150) demo_started = Some (Inr demo_idle)
   \<and> now demo_idle = 2 * (rtcp_interval (video demo_start) * 5 * 1000)
   \<and> ongoingSessions demo_idle ''a'' = Some 0
   \<and> timeout (session_at demo_idle 0) = None
   \<and> ForceStopStreamingSession ''a'' \<notin> set (outputs demo_idle)
   \<and> armed demo_idle (InactivityTimeout ''a'') = []"
proof -
  from feeding_rounds [of 150] obtain t where
    t: "run (feed_rounds 150) demo_started = Some (Inr t)" "feeding 150 t" by blast
  have e: "demo_idle = t" by (simp add: demo_idle_def after_run_def t(1))
  from t(2) have a: "now t = 150 * (100 / 3)" "fresh t = 4"
    "timers t = [3 \<mapsto> \<lparr>due = now t + 100 / 3, every = Some (100 / 3), action = FeedFrame 0\<rparr>]"
    "ongoingSessions t = [''a'' \<mapsto> 0]" "outputs t = outputs demo_started"
    "sessions t = sessions demo_started"
    by (simp_all add: feeding_def)
  have 1: "now t = 2 * (rtcp_interval (video demo_start) * 5 * 1000)"
    by (simp add: a demo_start_def)
  have 2: "ongoingSessions t ''a'' = Some 0" by (simp add: a)
  have "session_at t 0 = session_at demo_started 0" by (simp add: session_at_def a)
  then have 3: "timeout (session_at t 0) = None" by (simp add: demo_started_fields)
  have 4: "ForceStopStreamingSession ''a'' \<notin> set (outputs t)"
    by (simp add: a demo_started_fields no_force_stop_prepared)
  have 5: "armed t (InactivityTimeout ''a'') = []"
    by (simp add: armed_def a filter_empty_conv)
  from t(1) 1 2 3 4 5 show ?thesis unfolding e by blast
qed

lemma demo_socket: "sockets demo_started 1 = Some \<lparr> family = ''udp4'', bound = Some 40000, running = True,
                                   ownerSession = 0, ownerRequest = demo_start \<rparr>"
  by (simp add: demo_started_fields)

lemma demo_heard_run: "on_socket_message 1 demo_started = Inr demo_heard"
  using on_socket_message_result [OF demo_socket] by (simp add: demo_heard_def after_def)

lemma demo_heard_fields:
  "timers demo_heard = [3 \<mapsto> \<lparr>due = 100 / 3, every = Some (100 / 3), action = FeedFrame 0\<rparr>,
                        4 \<mapsto> \<lparr>due = 2500, every = None, action = InactivityTimeout ''a''\<rparr>]"
  "fresh demo_heard = 5" "now demo_heard = 0"
  "outputs demo_heard = outputs demo_started"
proof -
  have e: "demo_heard = update_session 0 (\<lambda>x. x\<lparr>timeout := Some 4\<rparr>)
           (demo_started\<lparr>fresh := 5,
              timers := (timers demo_started)
                        (4 \<mapsto> \<lparr>due = 2500, every = None, action = InactivityTimeout ''a''\<rparr>)\<rparr>)"
    using demo_heard_run [unfolded on_socket_message_result [OF demo_socket]]
    by (simp add: demo_started_fields demo_start_def)
  show "timers demo_heard = [3 \<mapsto> \<lparr>due = 100 / 3, every = Some (100 / 3), action = FeedFrame 0\<rparr>,
                        4 \<mapsto> \<lparr>due = 2500, every = None, action = InactivityTimeout ''a''\<rparr>]"
    by (subst e) (simp add: update_session_def demo_started_fields)
  show "fresh demo_heard = 5" by (subst e) (simp add: update_session_def)
  show "now demo_heard = 0" by (subst e) (simp add: update_session_def demo_started_fields)
  show "outputs demo_heard = outputs demo_started" by (subst e) (simp add: update_session_def)
qed

theorem inactivity_timer_armed_by_datagram_witness:
  "pendingSessions demo_prepared (sessionID demo_start) = Some demo_info
   \<and> startStream demo_start 7 demo_prepared = Inr demo_started
   \<and> ongoingSessions demo_started ''a'' = Some 0
   \<and> timeout (session_at demo_started 0) = None
   \<and> (\<exists>s2. on_socket_message 1 demo_started = Inr s2
          \<and> timeout (session_at s2 0) = Some 4
          \<and> timers s2 4 = Some \<lparr>due = 2500, every = None, action = InactivityTimeout ''a''\<rparr>)
   \<and> enabled demo_heard (Elapse (100 / 3))
   \<and> 0 + 100 / 3 \<le> (2500 :: rat)
   \<and> enabled (demo_heard\<lparr>now := 2500\<rparr>) (TimerFires 4)
   \<and> (\<exists>s3. fire 4 (demo_heard\<lparr>now := 2500\<rparr>) = Inr s3 \<and> ongoingSessions s3 ''a'' = None
          \<and> outputs s3 = outputs demo_started @ [ForceStopStreamingSession ''a''])"
proof -
  note A = inactivity_timer_armed_by_datagram [where s=demo_prepared and r=demo_start and info=demo_info
      and cb=7 and s'=demo_started, THEN conjunct1, rule_format, OF conjI [OF demo_pending demo_start_run]]
  have a: "ongoingSessions demo_started ''a'' = Some 0 \<and> timeout (session_at demo_started 0) = None"
    using A by (simp add: demo_start_def demo_prepared_fields)
  note B = inactivity_timer_armed_by_datagram [where s=demo_started and k=1
      and so="\<lparr> family = ''udp4'', bound = Some 40000, running = True,
                                   ownerSession = 0, ownerRequest = demo_start \<rparr>",
      THEN conjunct2, THEN conjunct1, rule_format, OF demo_socket]
  have b: "\<exists>s2. on_socket_message 1 demo_started = Inr s2
          \<and> timeout (session_at s2 0) = Some 4
          \<and> timers s2 4 = Some \<lparr>due = 2500, every = None, action = InactivityTimeout ''a''\<rparr>"
    using B by (auto simp: demo_started_fields demo_start_def)
  have t4: "timers demo_heard 4 = Some \<lparr>due = 2500, every = None, action = InactivityTimeout ''a''\<rparr>"
    by (simp add: demo_heard_fields)
  have en: "enabled demo_heard (Elapse (100 / 3))"
    by (auto simp: enabled_def no_timer_before_def list_all_iff demo_heard_fields)
  have c0: "timers demo_heard 4 = Some \<lparr>due = 2500, every = None, action = InactivityTimeout ''a''\<rparr>
      \<and> 4 < fresh demo_heard \<and> enabled demo_heard (Elapse (100 / 3))"
    using t4 en by (simp add: demo_heard_fields)
  note C = inactivity_timer_armed_by_datagram [where s=demo_heard and h=4 and e="100 / 3"
      and x="\<lparr>due = 2500, every = None, action = InactivityTimeout ''a''\<rparr>",
      THEN conjunct2, THEN conjunct2, THEN conjunct1, rule_format, OF c0]
  have c: "0 + 100 / 3 \<le> (2500 :: rat)" using C by (simp add: demo_heard_fields)
  let ?d = "demo_heard\<lparr>now := 2500\<rparr>"
  have d0: "timers ?d 4 = Some \<lparr>due = 2500, every = None, action = InactivityTimeout ''a''\<rparr>"
    using t4 by simp
  note D = inactivity_timer_armed_by_datagram [where s="?d" and h=4 and d=2500 and sid="''a''",
      THEN conjunct2, THEN conjunct2, THEN conjunct2, rule_format, OF d0]
  have d1: "enabled ?d (TimerFires 4)" using D by simp
  have d2: "\<exists>s3. fire 4 ?d = Inr s3 \<and> ongoingSessions s3 ''a'' = None
          \<and> outputs s3 = outputs demo_started @ [ForceStopStreamingSession ''a'']"
    using D by (simp add: demo_heard_fields)
  from demo_pending demo_start_run a b en c d1 d2 show ?thesis by blast
qed

section \<open>The ready callback of FFmpegProcess\<close>

lemma stopStream_callbacks:
  assumes "stopStream sid s = Inr s'"
  shows "map_option callback (processes s' q) = map_option callback (processes s q)"
proof (cases "ongoingSessions s sid")
  case None
  with assms show ?thesis by (auto simp: stopStream_absent)
next
  case (Some a)
  have e: "after (stopStream sid) s = s'" by (rule after_stop [OF assms])
  from stopStream_present(6) [OF Some, unfolded e] show ?thesis by blast
qed

lemma stderr_line_fires:
  assumes "processes s p = Some pr" "callback pr = Some cb"
  shows "\<exists>s'. on_stderr_line p line s = Inr s' \<and> outputs s' = outputs s @ [StreamCallback cb None]
           \<and> map_option callback (processes s' p) = Some None"
  using assms by (cases "is_error_line line") (simp_all add: on_stderr_line_def)

lemma stderr_line_silent:
  assumes "processes s p = Some pr" "callback pr = None"
  shows "\<exists>s'. on_stderr_line p line s = Inr s' \<and> outputs s' = outputs s
           \<and> map_option callback (processes s' p) = Some None"
  using assms by (cases "is_error_line line") (simp_all add: on_stderr_line_def)

lemma process_error_fires:
  assumes "processes s p = Some pr" "callback pr = Some cb"
  shows "\<exists>s'. on_process_error p m s = Inr s'
           \<and> outputs s' = outputs s @ [StreamCallback cb (Some (Error ''FFmpeg process creation failed''))]
           \<and> map_option callback (processes s' p) = Some (Some cb)"
proof -
  let ?s2 = "s\<lparr>logged := logged s @ [Log Err (''['' @ cameraName pr @ ''] FFmpeg process creation failed: '' @ m)],
               outputs := outputs s @ [StreamCallback cb (Some (Error ''FFmpeg process creation failed''))]\<rparr>"
  from stopStream_total [of "sessionId pr" ?s2] obtain s' where r: "stopStream (sessionId pr) ?s2 = Inr s'"
    by blast
  have f: "on_process_error p m s = Inr s'"
    using assms r by (simp add: on_process_error_def)
  have o: "outputs s' = outputs s @ [StreamCallback cb (Some (Error ''FFmpeg process creation failed''))]"
    using stopStream_keeps(2) [OF r] by simp
  have c: "map_option callback (processes s' p) = Some (Some cb)"
    using stopStream_callbacks [OF r, of p] assms by simp
  from f o c show ?thesis by blast
qed

lemma process_exit_fires:
  assumes "processes s p = Some pr" "callback pr = Some cb" "\<not> started pr" "killTimeout pr = None"
    "code \<noteq> 255"
  shows "\<exists>s'. on_process_exit p (Some code) sig s = Inr s'
           \<and> outputs s' = outputs s @ [StreamCallback cb (Some (Error (exit_message (Some code) sig)))]
           \<and> map_option callback (processes s' p) = Some (Some cb)"
proof -
  let ?s2 = "s\<lparr>logged := logged s @ [Log Err (''['' @ cameraName pr @ ''] '' @ exit_message (Some code) sig @ '' (Error)'')]\<rparr>"
  from stopStream_total [of "sessionId pr" ?s2] obtain s3 where r: "stopStream (sessionId pr) ?s2 = Inr s3"
    by blast
  let ?s' = "s3\<lparr>outputs := outputs s3 @ [StreamCallback cb (Some (Error (exit_message (Some code) sig)))]\<rparr>"
  have f: "on_process_exit p (Some code) sig s = Inr ?s'"
    using assms r by (simp add: on_process_exit_def)
  have o: "outputs ?s' = outputs s @ [StreamCallback cb (Some (Error (exit_message (Some code) sig)))]"
    using stopStream_keeps(2) [OF r] by simp
  have c: "map_option callback (processes ?s' p) = Some (Some cb)"
    using stopStream_callbacks [OF r, of p] assms by simp
  from f o c show ?thesis by blast
qed

text \<open>
  Claim C5 fails on the code. The stderr listener resets \<open>callback\<close> after it has called
  it; the "error" and the "exit" listeners call it and leave it set. So when the process
  exits with an error code before its first stderr line is read, or reports an error
  and then prints a line, the callback of the start request is invoked twice: once with
  the failure and once more with success.
\<close>

theorem ready_callback_invoked_twice:
  "(processes s p = Some pr \<and> callback pr = Some cb \<and> \<not> started pr \<and> killTimeout pr = None
      \<and> code \<noteq> 255 \<longrightarrow>
      (\<exists>sa sb. on_process_exit p (Some code) sig s = Inr sa
          \<and> enabled sa (ProcessStderrLine p line) \<and> on_stderr_line p line sa = Inr sb
          \<and> outputs sb = outputs s @ [StreamCallback cb (Some (Error (exit_message (Some code) sig))),
                                       StreamCallback cb None]))
   \<and> (processes s p = Some pr \<and> callback pr = Some cb \<longrightarrow>
      (\<exists>sa sb. on_process_error p m s = Inr sa
          \<and> enabled sa (ProcessStderrLine p line) \<and> on_stderr_line p line sa = Inr sb
          \<and> outputs sb = outputs s @ [StreamCallback cb (Some (Error ''FFmpeg process creation failed'')),
                                       StreamCallback cb None]))
   \<and> (processes s p = Some pr \<and> callback pr = Some cb \<longrightarrow>
      (\<exists>sa sb. on_stderr_line p line s = Inr sa
          \<and> enabled sa (ProcessStderrLine p line) \<and> on_stderr_line p line sa = Inr sb
          \<and> outputs sb = outputs s @ [StreamCallback cb None]))"
proof (intro conjI impI)
  assume h: "processes s p = Some pr \<and> callback pr = Some cb \<and> \<not> started pr \<and> killTimeout pr = None
      \<and> code \<noteq> 255"
  then have h1: "processes s p = Some pr" and h2: "callback pr = Some cb" and h3: "\<not> started pr"
    and h4: "killTimeout pr = None" and h5: "code \<noteq> 255" by simp_all
  from process_exit_fires [OF h1 h2 h3 h4 h5, of sig] obtain sa where
    a: "on_process_exit p (Some code) sig s = Inr sa"
       "outputs sa = outputs s @ [StreamCallback cb (Some (Error (exit_message (Some code) sig)))]"
       "map_option callback (processes sa p) = Some (Some cb)" by blast
  from a(3) obtain pa where pa: "processes sa p = Some pa" "callback pa = Some cb" by auto
  from stderr_line_fires [OF pa, of line] obtain sb where
    b: "on_stderr_line p line sa = Inr sb" "outputs sb = outputs sa @ [StreamCallback cb None]" by blast
  have en: "enabled sa (ProcessStderrLine p line)" using pa by (simp add: enabled_def)
  from a(1) en b(1) a(2) b(2)
  show "\<exists>sa sb. on_process_exit p (Some code) sig s = Inr sa
          \<and> enabled sa (ProcessStderrLine p line) \<and> on_stderr_line p line sa = Inr sb
          \<and> outputs sb = outputs s @ [StreamCallback cb (Some (Error (exit_message (Some code) sig))),
                                       StreamCallback cb None]"
    by (intro exI [of _ sa] exI [of _ sb]) simp
next
  assume h: "processes s p = Some pr \<and> callback pr = Some cb"
  then have h1: "processes s p = Some pr" and h2: "callback pr = Some cb" by simp_all
  from process_error_fires [OF h1 h2, of m] obtain sa where
    a: "on_process_error p m s = Inr sa"
       "outputs sa = outputs s @ [StreamCallback cb (Some (Error ''FFmpeg process creation failed''))]"
       "map_option callback (processes sa p) = Some (Some cb)" by blast
  from a(3) obtain pa where pa: "processes sa p = Some pa" "callback pa = Some cb" by auto
  from stderr_line_fires [OF pa, of line] obtain sb where
    b: "on_stderr_line p line sa = Inr sb" "outputs sb = outputs sa @ [StreamCallback cb None]" by blast
  have en: "enabled sa (ProcessStderrLine p line)" using pa by (simp add: enabled_def)
  from a(1) en b(1) a(2) b(2)
  show "\<exists>sa sb. on_process_error p m s = Inr sa
          \<and> enabled sa (ProcessStderrLine p line) \<and> on_stderr_line p line sa = Inr sb
          \<and> outputs sb = outputs s @ [StreamCallback cb (Some (Error ''FFmpeg process creation failed'')),
                                       StreamCallback cb None]"
    by (intro exI [of _ sa] exI [of _ sb]) simp
next
  assume h: "processes s p = Some pr \<and> callback pr = Some cb"
  then have h1: "processes s p = Some pr" and h2: "callback pr = Some cb" by simp_all
  from stderr_line_fires [OF h1 h2, of line] obtain sa where
    a: "on_stderr_line p line s = Inr sa" "outputs sa = outputs s @ [StreamCallback cb None]"
       "map_option callback (processes sa p) = Some None" by blast
  from a(3) obtain pa where pa: "processes sa p = Some pa" "callback pa = None" by auto
  from stderr_line_silent [OF pa, of line] obtain sb where
    b: "on_stderr_line p line sa = Inr sb" "outputs sb = outputs sa" by blast
  have en: "enabled sa (ProcessStderrLine p line)" using pa by (simp add: enabled_def)
  from a(1) en b(1) a(2) b(2)
  show "\<exists>sa sb. on_stderr_line p line s = Inr sa
          \<and> enabled sa (ProcessStderrLine p line) \<and> on_stderr_line p line sa = Inr sb
          \<and> outputs sb = outputs s @ [StreamCallback cb None]"
    by (intro exI [of _ sa] exI [of _ sb]) simp
qed

lemma exit_message_1: "exit_message (Some 1) None = ''FFmpeg exited with code: 1 and signal: null''"
  by code_simp

theorem ready_callback_invoked_twice_witness:
  "run [ProcessExit 2 (Some 1) None, ProcessStderrLine 2 ''Conversion failed!''] demo_started
     = Some (Inr demo_crashed)
   \<and> outputs demo_crashed =
       outputs demo_started @
         [StreamCallback 7 (Some (Error ''FFmpeg exited with code: 1 and signal: null'')),
          StreamCallback 7 None]"
proof -
  from demo_started_fields(10,11,13) obtain pr where
    pr: "processes demo_started 2 = Some pr" "callback pr = Some 7" "\<not> started pr" "killTimeout pr = None"
    by auto
  have h: "processes demo_started 2 = Some pr \<and> callback pr = Some 7 \<and> \<not> started pr \<and> killTimeout pr = None
      \<and> (1 :: int) \<noteq> 255"
    using pr by simp
  from ready_callback_invoked_twice [where s=demo_started and p=2 and pr=pr and cb=7 and code=1
      and sig=None and line="''Conversion failed!''", THEN conjunct1, rule_format, OF h]
  obtain sa sb where
    r: "on_process_exit 2 (Some 1) None demo_started = Inr sa"
       "enabled sa (ProcessStderrLine 2 ''Conversion failed!'')"
       "on_stderr_line 2 ''Conversion failed!'' sa = Inr sb"
       "outputs sb = outputs demo_started @ [StreamCallback 7 (Some (Error (exit_message (Some 1) None))),
                                       StreamCallback 7 None]"
    by blast
  have e1: "enabled demo_started (ProcessExit 2 (Some 1) None)"
    using pr by (simp add: enabled_def)
  have run: "run [ProcessExit 2 (Some 1) None, ProcessStderrLine 2 ''Conversion failed!''] demo_started
     = Some (Inr sb)"
    using e1 r(1,2,3) by (simp add: handle_event_def)
  then have e: "demo_crashed = sb" by (simp add: demo_crashed_def after_run_def)
  show ?thesis unfolding e using run r(4) by (simp add: exit_message_1)
qed

section \<open>The snapshot pipeline: lemmas\<close>











lemma enabled_timer:
  "timers s h = Some x \<Longrightarrow> enabled s (TimerFires h) = (due x \<le> now s)"
  by (simp add: enabled_def)


lemma elapse_enabled:
  assumes "0 \<le> e" "\<forall>h x. timers s h = Some x \<longrightarrow> now s + e \<le> due x"
  shows "enabled s (Elapse e)"
  unfolding enabled_def no_timer_before_def list_all_iff
  using assms by (auto split: option.splits)

lemma elapse_run: "handle_event (Elapse e) s = Inr (s\<lparr>now := now s + e\<rparr>)"
  by (simp add: handle_event_def)



lemma continue_request_frame:
  "timers (continue_request r w s) = timers s"
  "snapshotPromise (continue_request r w s) = snapshotPromise s"
  "now (continue_request r w s) = now s"
  by (cases r; simp add: continue_request_def spawn_snapshot_def Let_def)+

lemma continue_all_frame:
  "timers (continue_all st ws s) = timers s \<and> snapshotPromise (continue_all st ws s) = snapshotPromise s
   \<and> now (continue_all st ws s) = now s"
  unfolding continue_all_def
  by (induction ws arbitrary: s) (simp_all add: continue_request_frame)

text \<open>Whatever the fetch produced: the slot stays, and the expiry timer is armed.\<close>

lemma fetch_close_slot:
  assumes "snapshotProcesses s f = Some sp" "role sp = FetchFor q"
  shows "\<exists>s'. on_snapshot_close f s = Inr s' \<and> snapshotPromise s' = snapshotPromise s
           \<and> now s' = now s
           \<and> timers s' (fresh s) = Some \<lparr>due = now s + 3 * 1000, every = None, action = ExpireSnapshot\<rparr>"
proof -
  define st where "st = (if length (collected sp) > 0 then Resolved (collected sp)
                          else Rejected ''Failed to fetch snapshot'')"
  obtain ws s1 where se: "settle q st s = (ws, s1)" by (cases "settle q st s") auto
  then have f1: "timers s1 = timers s" "fresh s1 = fresh s" "snapshotPromise s1 = snapshotPromise s"
      "now s1 = now s"
    by (auto simp: settle_def split: option.splits if_splits)
  define s3 where "s3 = s1\<lparr>fresh := Suc (fresh s1),
        timers := (timers s1)(fresh s1 \<mapsto> \<lparr>due = now s1 + 3 * 1000, every = None, action = ExpireSnapshot\<rparr>),
        logged := logged s1 @
                           [LogRuntime (runtime_level ((now s - spawnedAt sp) / 1000))
                              (tag s @ ''Fetching snapshot took'') ((now s - spawnedAt sp) / 1000)]\<rparr>"
  have h: "on_snapshot_close f s = Inr (continue_all st ws s3)"
  proof (cases "collected sp = []")
    case True
    then have "st = Rejected ''Failed to fetch snapshot''" by (simp add: st_def)
    with assms se True show ?thesis
      by (simp add: on_snapshot_close_def Let_def setTimeout_def s3_def)
  next
    case False
    then have "st = Resolved (collected sp)" by (simp add: st_def)
    with assms se False show ?thesis
      by (simp add: on_snapshot_close_def Let_def setTimeout_def s3_def)
  qed
  have f3: "timers s3 (fresh s) = Some \<lparr>due = now s + 3 * 1000, every = None, action = ExpireSnapshot\<rparr>"
      "snapshotPromise s3 = snapshotPromise s" "now s3 = now s"
    by (simp_all add: s3_def f1)
  show ?thesis
    unfolding h using continue_all_frame [of st ws s3] f3 by simp
qed




lemma continue_request_kept:
  "config (continue_request r w s) = config s"
  "ctx (continue_request r w s) = ctx s"
  "alternativeSnapshot (continue_request r w s) = alternativeSnapshot s"
  "idleImage (continue_request r w s) = idleImage s"
  "fresh s \<le> fresh (continue_request r w s)"
  by (cases r; simp add: continue_request_def spawn_snapshot_def Let_def)+

lemma continue_request_spawns:
  assumes "snapshotProcesses (continue_request r w s) h = Some sp'" "snapshotProcesses s h \<noteq> Some sp'"
  shows "\<exists>c. role sp' = ResizeFor c"
  using assms
  by (cases r) (auto simp: continue_request_def spawn_snapshot_def Let_def split: if_splits)

lemma continue_all_kept:
  "config (continue_all st ws s) = config s \<and> ctx (continue_all st ws s) = ctx s
   \<and> alternativeSnapshot (continue_all st ws s) = alternativeSnapshot s
   \<and> idleImage (continue_all st ws s) = idleImage s
   \<and> fresh s \<le> fresh (continue_all st ws s)"
  unfolding continue_all_def
proof (induction ws arbitrary: s)
  case Nil
  show ?case by simp
next
  case (Cons w ws)
  let ?s1 = "continue_request (outcome st) w s"
  from Cons.IH [of ?s1] continue_request_kept [where r = "outcome st" and w = w and s = s]
  show ?case by simp
qed

lemma continue_all_spawns:
  "snapshotProcesses (continue_all st ws s) h = Some sp' \<Longrightarrow> snapshotProcesses s h \<noteq> Some sp' \<Longrightarrow>
   \<exists>c. role sp' = ResizeFor c"
  unfolding continue_all_def
proof (induction ws arbitrary: s)
  case Nil
  then show ?case by simp
next
  case (Cons w ws)
  let ?s1 = "continue_request (outcome st) w s"
  from Cons.prems(1) have a: "snapshotProcesses (foldl (\<lambda>t w. continue_request (outcome st) w t) ?s1 ws) h = Some sp'"
    by simp
  show ?case
  proof (cases "snapshotProcesses ?s1 h = Some sp'")
    case True
    from True Cons.prems(2) show ?thesis by (rule continue_request_spawns)
  next
    case False
    from Cons.IH [OF a False] show ?thesis .
  qed
qed

text \<open>The close of the fetch transcoder, whatever it produced and whatever its promise.\<close>

lemma fetch_close_frame:
  assumes "snapshotProcesses s f = Some sp" "role sp = FetchFor q"
  shows "\<exists>s'. on_snapshot_close f s = Inr s' \<and> snapshotPromise s' = snapshotPromise s
           \<and> now s' = now s \<and> config s' = config s \<and> ctx s' = ctx s
           \<and> alternativeSnapshot s' = alternativeSnapshot s \<and> idleImage s' = idleImage s
           \<and> fresh s < fresh s'
           \<and> timers s' = (timers s)(fresh s \<mapsto>
                \<lparr>due = now s + 3 * 1000, every = None, action = ExpireSnapshot\<rparr>)
           \<and> (\<forall>h sp'. snapshotProcesses s' h = Some sp' \<and> snapshotProcesses s h \<noteq> Some sp' \<longrightarrow>
                 (\<exists>c. role sp' = ResizeFor c))"
proof -
  define st where "st = (if length (collected sp) > 0 then Resolved (collected sp)
                          else Rejected ''Failed to fetch snapshot'')"
  obtain ws s1 where se: "settle q st s = (ws, s1)" by (cases "settle q st s") auto
  then have f1: "timers s1 = timers s" "fresh s1 = fresh s" "snapshotPromise s1 = snapshotPromise s"
      "now s1 = now s" "config s1 = config s" "ctx s1 = ctx s"
      "alternativeSnapshot s1 = alternativeSnapshot s" "idleImage s1 = idleImage s"
      "snapshotProcesses s1 = snapshotProcesses s"
    by (auto simp: settle_def split: option.splits if_splits)
  define s3 where "s3 = s1\<lparr>fresh := Suc (fresh s1),
        timers := (timers s1)(fresh s1 \<mapsto> \<lparr>due = now s1 + 3 * 1000, every = None, action = ExpireSnapshot\<rparr>),
        logged := logged s1 @
                           [LogRuntime (runtime_level ((now s - spawnedAt sp) / 1000))
                              (tag s @ ''Fetching snapshot took'') ((now s - spawnedAt sp) / 1000)]\<rparr>"
  have h: "on_snapshot_close f s = Inr (continue_all st ws s3)"
  proof (cases "collected sp = []")
    case True
    then have "st = Rejected ''Failed to fetch snapshot''" by (simp add: st_def)
    with assms se True show ?thesis
      by (simp add: on_snapshot_close_def Let_def setTimeout_def s3_def)
  next
    case False
    then have "st = Resolved (collected sp)" by (simp add: st_def)
    with assms se False show ?thesis
      by (simp add: on_snapshot_close_def Let_def setTimeout_def s3_def)
  qed
  have f3: "timers s3 = (timers s)(fresh s \<mapsto> \<lparr>due = now s + 3 * 1000, every = None, action = ExpireSnapshot\<rparr>)"
      "snapshotPromise s3 = snapshotPromise s" "now s3 = now s" "config s3 = config s" "ctx s3 = ctx s"
      "alternativeSnapshot s3 = alternativeSnapshot s" "idleImage s3 = idleImage s"
      "fresh s3 = Suc (fresh s)" "snapshotProcesses s3 = snapshotProcesses s"
    by (simp_all add: s3_def f1)
  have n: "\<exists>c. role sp' = ResizeFor c"
    if "snapshotProcesses (continue_all st ws s3) h = Some sp'" "snapshotProcesses s h \<noteq> Some sp'"
    for h sp'
    using continue_all_spawns [of st ws s3 h sp'] that by (simp add: f3)
  have k: "fresh s < fresh (continue_all st ws s3)"
    using continue_all_kept [of st ws s3] by (simp add: f3)
  show ?thesis
    unfolding h
    using continue_all_frame [of st ws s3] continue_all_kept [of st ws s3] f3 n k by auto
qed





section \<open>Snapshot requests share one fetch\<close>





lemma demo_world_fields:
  "snapshotPromise demo_world = None" "fresh demo_world = 0" "now demo_world = 0"
  "promises demo_world = Map.empty" "snapshotProcesses demo_world = Map.empty"
  "visitorInfo (ctx demo_world) = None" "logged demo_world = []" "outputs demo_world = []"
  "timers demo_world = Map.empty" "config demo_world = defaultVideoConfig"
  by (simp_all add: demo_world_def initial_def)







subsection \<open>The snapshot filter\<close>
















section \<open>The snapshot filter and the cached fetch\<close>




section \<open>The motion timer: lemmas\<close>

lemma visitor_picture_result:
  assumes "cameraLocation v = accessoryLocation (ctx s)"
  shows "on_visitor_picture v img s =
     Inr (s\<lparr>timers := (case motionTimer (ctx s) of None \<Rightarrow> timers s | Some t \<Rightarrow> (timers s)(t := None)),
            logged := logged s @
              [Log Debug (tag s @ ''Snapshot resize command: ffmpeg '' @ padding_args (config s))],
            fresh := Suc (fresh s),
            snapshotProcesses := (snapshotProcesses s)(fresh s \<mapsto>
              \<lparr> role = PadFor v, snapshotArgs = split_ws (padding_args (config s)),
                inputBuffer = img, collected = [], spawnedAt = now s, answered = False \<rparr>)\<rparr>)"
  using assms
  by (cases "motionTimer (ctx s)") (simp_all add: on_visitor_picture_def spawn_snapshot_def)

lemma visitor_picture_elsewhere:
  "cameraLocation v \<noteq> accessoryLocation (ctx s) \<Longrightarrow> on_visitor_picture v img s = Inr s"
  by (simp add: on_visitor_picture_def)

lemma visitor_complete_result:
  assumes "snapshotProcesses s p = Some sp" "role sp = PadFor v" "\<not> answered sp"
  shows "on_snapshot_close p s =
     Inr (s\<lparr>snapshotProcesses := (snapshotProcesses s)(p \<mapsto> sp\<lparr>answered := True\<rparr>),
            logged := logged s @ [Log Debug ''Creating a new motion detector timer''],
            fresh := Suc (fresh s),
            timers := (timers s)(fresh s \<mapsto>
              \<lparr>due = now s + CAMERA_TIMEOUT_DURATION, every = None, action = InvalidateMotion\<rparr>),
            ctx := (ctx s)\<lparr>visitorInfo := Some (v\<lparr>snapshot := Some (collected sp)\<rparr>),
                            motionTimer := Some (fresh s), motionOnCamera := True, init := True\<rparr>,
            outputs := outputs s @ [SetMotionDetected True]\<rparr>)"
  using assms
  by (simp add: on_snapshot_close_def complete_visitor_def setTimeout_def Let_def)

lemma fire_invalidate:
  assumes "timers s h = Some \<lparr>due = d, every = None, action = InvalidateMotion\<rparr>"
  shows "fire h s =
     Inr (s\<lparr>timers := (case motionTimer (ctx s) of
                           None \<Rightarrow> (timers s)(h := None)
                         | Some t \<Rightarrow> (timers s)(h := None, t := None)),
            logged := logged s @ [Log Debug ''Invalidating the motion detector timer''],
            ctx := (ctx s)\<lparr>visitorInfo := None, motionTimer := None, motionOnCamera := False\<rparr>,
            outputs := outputs s @ [SetMotionDetected False]\<rparr>)"
  using assms
  by (cases "motionTimer (ctx s)") (simp_all add: fire_def run_action_def invalidate_motion_def)

lemma motion_get_result:
  "on_motion_get cb s = Inr (s\<lparr>outputs := outputs s @ [MotionDetectedCallback cb (motionOnCamera (ctx s))]\<rparr>)"
  by (simp add: on_motion_get_def)

lemma timeout_duration: "CAMERA_TIMEOUT_DURATION = 120000"
  by (simp add: CAMERA_TIMEOUT_DURATION_def)

subsection \<open>Which handlers touch the motion state\<close>

lemma block_ctx:
  assumes "\<forall>c \<in> set cs. \<forall>t t'. c t = Inr t' \<longrightarrow> ctx t' = ctx t" and "block cs s = Inr s'"
  shows "ctx s' = ctx s"
  using assms
proof (induction cs arbitrary: s)
  case Nil
  then show ?case by simp
next
  case (Cons c cs)
  from Cons.prems(2) obtain s1 where c: "c s = Inr s1" and b: "block cs s1 = Inr s'"
    by (auto split: sum.splits)
  from Cons.prems(1) c have "ctx s1 = ctx s" by simp
  moreover from Cons.prems(1) have "\<forall>c \<in> set cs. \<forall>t t'. c t = Inr t' \<longrightarrow> ctx t' = ctx t" by simp
  from Cons.IH [OF this b] have "ctx s' = ctx s1" .
  ultimately show ?case by simp
qed

lemma stopStream_ctx: "stopStream sid t = Inr t' \<Longrightarrow> ctx t' = ctx t"
  by (rule stopStream_keeps(4))

lemma log_ctx: "log_msg l m t = Inr t' \<Longrightarrow> ctx t' = ctx t" by auto
lemma emit_ctx: "emit e t = Inr t' \<Longrightarrow> ctx t' = ctx t" by auto
lemma skip_ctx: "skip t = Inr t' \<Longrightarrow> ctx t' = ctx t" by auto
lemma clear_ctx: "optionally clearTimeout x t = Inr t' \<Longrightarrow> ctx t' = ctx t"
  by (cases x) auto

lemma prepare_ctx: "prepareStream request cb vp vs ap as s = Inr s' \<Longrightarrow> ctx s' = ctx s"
  by (auto simp: prepareStream_def split: sum.splits)

lemma start_ctx: "startStream r cb s = Inr s' \<Longrightarrow> ctx s' = ctx s"
proof (cases "pendingSessions s (sessionID r)")
  case None
  assume "startStream r cb s = Inr s'"
  with startStream_missing [OF None, of cb] show ?thesis by auto
next
  case (Some info)
  assume a: "startStream r cb s = Inr s'"
  from startStream_found [OF Some, of cb] obtain l where
    "startStream r cb s = Inr (start_session r cb info (s\<lparr>logged := logged s @ l\<rparr>))" by blast
  with a have "s' = start_session r cb info (s\<lparr>logged := logged s @ l\<rparr>)" by simp
  then show ?thesis by (simp add: start_session_fields)
qed

lemma stream_request_ctx: "handleStreamRequest request cb s = Inr s' \<Longrightarrow> ctx s' = ctx s"
proof (cases request)
  case (START r)
  assume "handleStreamRequest request cb s = Inr s'"
  with START show ?thesis by (simp add: handleStreamRequest_def start_ctx)
next
  case (STOP sid)
  assume "handleStreamRequest request cb s = Inr s'"
  with STOP have "block [stopStream sid, emit (StreamCallback cb None)] s = Inr s'"
    by (simp add: handleStreamRequest_def)
  then show ?thesis
    by (rule block_ctx [rotated]) (auto dest: stopStream_ctx)
next
  case (RECONFIGURE r)
  assume "handleStreamRequest request cb s = Inr s'"
  with RECONFIGURE show ?thesis by (auto simp: handleStreamRequest_def)
qed

lemma socket_message_ctx: "on_socket_message k s = Inr s' \<Longrightarrow> ctx s' = ctx s"
  by (cases "sockets s k"; cases "timeout (session_at s (ownerSession (the (sockets s k))))")
     (auto simp: on_socket_message_def setTimeout_def update_session_def Let_def)

lemma socket_error_ctx: "on_socket_error k m s = Inr s' \<Longrightarrow> ctx s' = ctx s"
proof (cases "sockets s k")
  case None
  assume "on_socket_error k m s = Inr s'"
  with None show ?thesis by (simp add: on_socket_error_def)
next
  case (Some so)
  assume "on_socket_error k m s = Inr s'"
  with Some have "block [log_msg Err (tag s @ ''Socket error: '' @ m),
             stopStream (sessionID (ownerRequest so))] s = Inr s'"
    by (simp add: on_socket_error_def)
  then show ?thesis
    by (rule block_ctx [rotated]) (auto dest: stopStream_ctx)
qed

lemma stdout_ctx: "on_stdout p d s = Inr s' \<Longrightarrow> ctx s' = ctx s"
  by (auto simp: on_stdout_def Let_def split: option.splits if_splits)

lemma stderr_line_ctx: "on_stderr_line p l s = Inr s' \<Longrightarrow> ctx s' = ctx s"
  by (auto simp: on_stderr_line_def split: option.splits if_splits)

lemma process_error_ctx: "on_process_error p m s = Inr s' \<Longrightarrow> ctx s' = ctx s"
proof (cases "processes s p")
  case None
  assume "on_process_error p m s = Inr s'"
  with None show ?thesis by (simp add: on_process_error_def)
next
  case (Some pr)
  assume "on_process_error p m s = Inr s'"
  with Some have "block
            [log_msg Err (''['' @ cameraName pr @ ''] FFmpeg process creation failed: '' @ m),
             (case callback pr of
                Some cb \<Rightarrow> emit (StreamCallback cb (Some (Error ''FFmpeg process creation failed'')))
              | None \<Rightarrow> skip),
             stopStream (sessionId pr)] s = Inr s'"
    by (simp add: on_process_error_def)
  then show ?thesis
    by (rule block_ctx [rotated]) (auto dest: stopStream_ctx split: option.splits)
qed

lemma process_exit_ctx: "on_process_exit p code signal s = Inr s' \<Longrightarrow> ctx s' = ctx s"
proof (cases "processes s p")
  case None
  assume "on_process_exit p code signal s = Inr s'"
  with None show ?thesis by (simp add: on_process_exit_def)
next
  case (Some pr)
  define blk where "blk = block
                  [log_msg Err (''['' @ cameraName pr @ ''] '' @ exit_message code signal @ '' (Error)''),
                   stopStream (sessionId pr),
                   (case callback pr of
                      Some cb \<Rightarrow>
                        if \<not> started pr then emit (StreamCallback cb (Some (Error (exit_message code signal))))
                        else emit (ForceStopStreamingSession (sessionId pr))
                    | None \<Rightarrow> emit (ForceStopStreamingSession (sessionId pr)))]"
  have inner: "ctx t' = ctx t" if "blk t = Inr t'" for t t'
    using that unfolding blk_def
    by (rule block_ctx [rotated]) (auto dest: stopStream_ctx split: option.splits if_splits)
  define c2 where "c2 = (if killTimeout pr \<noteq> None \<and> code = Some 0 then
                log_msg Debug (''['' @ cameraName pr @ ''] '' @ exit_message code signal @ '' (Expected)'')
              else if code = None \<or> code = Some 255 then
                (if killed pr then
                   log_msg Debug (''['' @ cameraName pr @ ''] '' @ exit_message code signal @ '' (Forced)'')
                 else
                   log_msg Err (''['' @ cameraName pr @ ''] '' @ exit_message code signal @ '' (Unexpected)''))
              else blk)"
  have c2: "ctx t' = ctx t" if "c2 t = Inr t'" for t t'
    using that inner unfolding c2_def by (auto split: if_splits)
  assume a: "on_process_exit p code signal s = Inr s'"
  have "on_process_exit p code signal s = block [optionally clearTimeout (killTimeout pr), c2] s"
    unfolding on_process_exit_def Some option.case c2_def blk_def by (rule refl)
  with a have "block [optionally clearTimeout (killTimeout pr), c2] s = Inr s'" by simp
  then show ?thesis
    by (rule block_ctx [rotated]) (auto dest: clear_ctx c2)
qed

lemma continue_request_ctx0: "ctx (continue_request r w s) = ctx s"
  by (cases r) (simp_all add: continue_request_def spawn_snapshot_def Let_def)

lemma continue_all_ctx: "ctx (continue_all st ws s) = ctx s"
  unfolding continue_all_def
  by (induction ws arbitrary: s) (simp_all add: continue_request_ctx0)

lemma await_snapshot_ctx: "ctx (await_snapshot q w s) = ctx s"
  by (simp add: await_snapshot_def continue_request_ctx0 split: option.splits promise_state.splits)

lemma fetchSnapshot_ctx: "ctx (snd (fetchSnapshot f s)) = ctx s"
proof -
  let ?s0 = "s\<lparr>fresh := Suc (fresh s),
                 promises := (promises s)(fresh s \<mapsto> \<lparr>settled = Pending, waiters = []\<rparr>),
                 snapshotPromise := Some (fresh s)\<rparr>"
  obtain r s1 where si: "source_image ?s0 = (r, s1)" by (cases "source_image ?s0") auto
  from source_image_frame [OF si]
  have "ctx s1 = ctx (?s0\<lparr>alternativeSnapshot := alternativeSnapshot s1, logged := logged s1\<rparr>)"
    by simp
  then have c: "ctx s1 = ctx s" by simp
  show ?thesis
    using si c by (cases r) (simp_all add: fetchSnapshot_def Let_def spawn_snapshot_def)
qed

lemma snapshot_request_ctx: "handleSnapshotRequest request cb s = Inr s' \<Longrightarrow> ctx s' = ctx s"
proof -
  assume a: "handleSnapshotRequest request cb s = Inr s'"
  let ?s1 = "s\<lparr>logged := logged s @
                 [Log Debug (tag s @ ''Snapshot requested: '' @ show_int (width request) @ '' x ''
                             @ show_int (height request))]\<rparr>"
  show ?thesis
  proof (cases "snapshotPromise s")
    case None
    obtain q s2 where f: "fetchSnapshot (snapshotFilter (determineResolution (config s) request True)) ?s1 = (q, s2)"
      by (cases "fetchSnapshot (snapshotFilter (determineResolution (config s) request True)) ?s1") auto
    from fetchSnapshot_ctx [of "snapshotFilter (determineResolution (config s) request True)" ?s1] f
    have "ctx s2 = ctx s" by simp
    with a None f show ?thesis
      by (auto simp: handleSnapshotRequest_def Let_def await_snapshot_ctx)
  next
    case (Some q)
    with a show ?thesis
      by (auto simp: handleSnapshotRequest_def Let_def await_snapshot_ctx)
  qed
qed

lemma snapshot_stdout_ctx: "on_snapshot_stdout f d s = Inr s' \<Longrightarrow> ctx s' = ctx s"
  by (auto simp: on_snapshot_stdout_def split: option.splits)

lemma snapshot_stderr_ctx: "on_snapshot_stderr f d s = Inr s' \<Longrightarrow> ctx s' = ctx s"
  by (auto simp: on_snapshot_stderr_def split: option.splits snapshot_role.splits)

lemma settle_ctx: "settle q st s = (ws, s1) \<Longrightarrow> ctx s1 = ctx s"
  by (auto simp: settle_def split: option.splits if_splits)

lemma snapshot_error_ctx: "on_snapshot_error f m s = Inr s' \<Longrightarrow> ctx s' = ctx s"
proof (cases "snapshotProcesses s f")
  case None
  assume "on_snapshot_error f m s = Inr s'"
  with None show ?thesis by (simp add: on_snapshot_error_def)
next
  case (Some sp)
  assume a: "on_snapshot_error f m s = Inr s'"
  show ?thesis
  proof (cases "role sp")
    case (FetchFor q)
    obtain ws s1 where st: "settle q (Rejected (''FFmpeg process creation failed: '' @ m)) s = (ws, s1)"
      by (cases "settle q (Rejected (''FFmpeg process creation failed: '' @ m)) s") auto
    with a Some FetchFor show ?thesis
      by (auto simp: on_snapshot_error_def Let_def continue_all_ctx dest: settle_ctx)
  next
    case (ResizeFor c)
    with a Some show ?thesis by (auto simp: on_snapshot_error_def split: if_splits)
  next
    case (PadFor v)
    with a Some show ?thesis by (auto simp: on_snapshot_error_def)
  qed
qed

lemma snapshot_close_ctx:
  assumes "on_snapshot_close f s = Inr s'" "\<not> completes_visitor s (SnapshotClose f)"
  shows "ctx s' = ctx s"
proof (cases "snapshotProcesses s f")
  case None
  with assms show ?thesis by (simp add: on_snapshot_close_def)
next
  case (Some sp)
  show ?thesis
  proof (cases "role sp")
    case (FetchFor q)
    from fetch_close_frame [OF Some FetchFor] assms(1) show ?thesis by auto
  next
    case (ResizeFor c)
    with assms Some show ?thesis by (auto simp: on_snapshot_close_def split: if_splits)
  next
    case (PadFor v)
    with assms Some show ?thesis by (auto simp: on_snapshot_close_def completes_visitor_def)
  qed
qed

lemma visitor_picture_ctx: "on_visitor_picture v img s = Inr s' \<Longrightarrow> ctx s' = ctx s"
  by (cases "cameraLocation v = accessoryLocation (ctx s)")
     (auto simp: visitor_picture_result visitor_picture_elsewhere)

lemma inactivity_ctx: "inactivity_timeout sid s = Inr s' \<Longrightarrow> ctx s' = ctx s"
proof -
  assume "inactivity_timeout sid s = Inr s'"
  then have "block
       [log_msg Info (tag s @ ''Device appears to be inactive. Stopping stream.''),
        emit (ForceStopStreamingSession sid),
        stopStream sid] s = Inr s'"
    unfolding inactivity_timeout_def .
  then show ?thesis
    by (rule block_ctx [rotated]) (auto dest: stopStream_ctx)
qed

lemma feed_frame_ctx: "feed_frame a s = Inr s' \<Longrightarrow> ctx s' = ctx s"
proof -
  assume a: "feed_frame a s = Inr s'"
  from feed_frame_frame [of a s] a
  have "s' = s\<lparr>alternativeSnapshot := alternativeSnapshot s', logged := logged s',
                  processes := processes s'\<rparr>" by auto
  then have "ctx s' = ctx (s\<lparr>alternativeSnapshot := alternativeSnapshot s', logged := logged s',
                  processes := processes s'\<rparr>)" by simp
  then show ?thesis by simp
qed

lemma kill_ctx: "kill_process p s = Inr s' \<Longrightarrow> ctx s' = ctx s"
  by (auto simp: kill_process_def split: option.splits)

lemma fire_clear:
  assumes "fire h s = Inr s'" "motion_clear s"
  shows "motion_clear s'"
proof (cases "timers s h")
  case None
  with assms show ?thesis by (simp add: fire_def)
next
  case (Some t)
  define s0 where "s0 = s\<lparr>timers := (timers s)(h := (case every t of
                                                   None \<Rightarrow> None
                                                 | Some d \<Rightarrow> Some (t\<lparr>due := now s + d\<rparr>)))\<rparr>"
  have r: "run_action (action t) s0 = Inr s'"
    using assms(1) Some by (auto simp: fire_def s0_def split: sum.splits)
  have c0: "motion_clear s0" using assms(2) by (simp add: motion_clear_def s0_def)
  show ?thesis
  proof (cases "action t")
    case (InactivityTimeout sid)
    with r have "ctx s' = ctx s0" by (simp add: run_action_def inactivity_ctx)
    with c0 show ?thesis by (simp add: motion_clear_def)
  next
    case (FeedFrame a)
    with r have "ctx s' = ctx s0" by (simp add: run_action_def feed_frame_ctx)
    with c0 show ?thesis by (simp add: motion_clear_def)
  next
    case (KillProcess p)
    with r have "ctx s' = ctx s0" by (simp add: run_action_def kill_ctx)
    with c0 show ?thesis by (simp add: motion_clear_def)
  next
    case ExpireSnapshot
    with r have "ctx s' = ctx s0" by (auto simp: run_action_def)
    with c0 show ?thesis by (simp add: motion_clear_def)
  next
    case InvalidateMotion
    with r show ?thesis
      by (cases "motionTimer (ctx s0)") (auto simp: run_action_def invalidate_motion_def motion_clear_def)
  qed
qed

lemma shutdown_clear: "on_shutdown s = Inr s' \<Longrightarrow> motion_clear s \<Longrightarrow> motion_clear s'"
  by (cases "motionTimer (ctx s)") (auto simp: on_shutdown_def motion_clear_def)

text \<open>Any event that does not complete a visitor event leaves a clear motion state clear.\<close>

lemma event_keeps_clear:
  assumes "handle_event e s = Inr s'" "\<not> completes_visitor s e" "motion_clear s"
  shows "motion_clear s'"
proof (cases e)
  case (Prepare r cb vp vs ap as)
  with assms(1) have "ctx s' = ctx s" by (simp add: handle_event_def prepare_ctx)
  with assms(3) show ?thesis by (simp add: motion_clear_def)
next
  case (StreamRequest r cb)
  with assms(1) have "ctx s' = ctx s" by (simp add: handle_event_def stream_request_ctx)
  with assms(3) show ?thesis by (simp add: motion_clear_def)
next
  case (SocketMessage k)
  with assms(1) have "ctx s' = ctx s" by (simp add: handle_event_def socket_message_ctx)
  with assms(3) show ?thesis by (simp add: motion_clear_def)
next
  case (SocketError k m)
  with assms(1) have "ctx s' = ctx s" by (simp add: handle_event_def socket_error_ctx)
  with assms(3) show ?thesis by (simp add: motion_clear_def)
next
  case (TimerFires h)
  with assms(1,3) show ?thesis by (simp add: handle_event_def fire_clear)
next
  case (ProcessStdout p d)
  with assms(1) have "ctx s' = ctx s" by (simp add: handle_event_def stdout_ctx)
  with assms(3) show ?thesis by (simp add: motion_clear_def)
next
  case (ProcessStderrLine p l)
  with assms(1) have "ctx s' = ctx s" by (simp add: handle_event_def stderr_line_ctx)
  with assms(3) show ?thesis by (simp add: motion_clear_def)
next
  case (ProcessError p m)
  with assms(1) have "ctx s' = ctx s" by (simp add: handle_event_def process_error_ctx)
  with assms(3) show ?thesis by (simp add: motion_clear_def)
next
  case (ProcessExit p c g)
  with assms(1) have "ctx s' = ctx s" by (simp add: handle_event_def process_exit_ctx)
  with assms(3) show ?thesis by (simp add: motion_clear_def)
next
  case (SnapshotRequested r cb)
  with assms(1) have "ctx s' = ctx s" by (simp add: handle_event_def snapshot_request_ctx)
  with assms(3) show ?thesis by (simp add: motion_clear_def)
next
  case (SnapshotStdout f d)
  with assms(1) have "ctx s' = ctx s" by (simp add: handle_event_def snapshot_stdout_ctx)
  with assms(3) show ?thesis by (simp add: motion_clear_def)
next
  case (SnapshotStderr f d)
  with assms(1) have "ctx s' = ctx s" by (simp add: handle_event_def snapshot_stderr_ctx)
  with assms(3) show ?thesis by (simp add: motion_clear_def)
next
  case (SnapshotError f m)
  with assms(1) have "ctx s' = ctx s" by (simp add: handle_event_def snapshot_error_ctx)
  with assms(3) show ?thesis by (simp add: motion_clear_def)
next
  case (SnapshotClose f)
  with assms(1,2) have "ctx s' = ctx s" by (simp add: handle_event_def snapshot_close_ctx)
  with assms(3) show ?thesis by (simp add: motion_clear_def)
next
  case (VisitorPicture v img)
  with assms(1) have "ctx s' = ctx s" by (simp add: handle_event_def visitor_picture_ctx)
  with assms(3) show ?thesis by (simp add: motion_clear_def)
next
  case (MotionDetectedGet cb)
  with assms(1) have "ctx s' = ctx s" by (auto simp: handle_event_def on_motion_get_def)
  with assms(3) show ?thesis by (simp add: motion_clear_def)
next
  case Shutdown
  with assms(1,3) show ?thesis by (simp add: handle_event_def shutdown_clear)
next
  case (Elapse d)
  with assms(1) have "ctx s' = ctx s" by (auto simp: handle_event_def)
  with assms(3) show ?thesis by (simp add: motion_clear_def)
qed

lemma run_keeps_clear:
  assumes "run es s = Some (Inr s')" "no_visitor_completes es s" "motion_clear s"
  shows "motion_clear s'"
  using assms
proof (induction es arbitrary: s)
  case Nil
  then show ?case by simp
next
  case (Cons e es)
  from Cons.prems(1) obtain s1 where h: "handle_event e s = Inr s1" and r: "run es s1 = Some (Inr s')"
    by (auto split: if_splits sum.splits)
  from Cons.prems(2) h have n: "\<not> completes_visitor s e" "no_visitor_completes es s1" by simp_all
  from event_keeps_clear [OF h n(1) Cons.prems(3)] have "motion_clear s1" .
  from Cons.IH [OF r n(2) this] show ?case .
qed

text \<open>Two visitor events whose padding transcoders run at the same time.\<close>

lemma overlapping_visitors:
  assumes p1: "snapshotProcesses s p1 = Some sp1" "role sp1 = PadFor v1" "\<not> answered sp1"
      and p2: "snapshotProcesses s p2 = Some sp2" "role sp2 = PadFor v2" "\<not> answered sp2"
      and ne: "p1 \<noteq> p2"
      and e: "0 \<le> e" "e \<le> CAMERA_TIMEOUT_DURATION"
      and quiet: "\<forall>h x. timers s h = Some x \<longrightarrow> now s + CAMERA_TIMEOUT_DURATION \<le> due x"
  shows "(\<exists>s'. run [SnapshotClose p1, Elapse e, SnapshotClose p2] s = Some (Inr s')
           \<and> now s' = now s + e
           \<and> motionOnCamera (ctx s')
           \<and> visitorInfo (ctx s') = Some (v2\<lparr>snapshot := Some (collected sp2)\<rparr>)
           \<and> motionTimer (ctx s') = Some (Suc (fresh s))
           \<and> timers s' (fresh s) =
               Some \<lparr>due = now s + CAMERA_TIMEOUT_DURATION, every = None, action = InvalidateMotion\<rparr>
           \<and> timers s' (Suc (fresh s)) =
               Some \<lparr>due = now s + e + CAMERA_TIMEOUT_DURATION, every = None, action = InvalidateMotion\<rparr>)
       \<and> (\<exists>s''. run [SnapshotClose p1, Elapse e, SnapshotClose p2,
                      Elapse (CAMERA_TIMEOUT_DURATION - e), TimerFires (fresh s),
                      MotionDetectedGet cb] s = Some (Inr s'')
           \<and> now s'' = now s + CAMERA_TIMEOUT_DURATION
           \<and> motion_clear s''
           \<and> timers s'' (fresh s) = None \<and> timers s'' (Suc (fresh s)) = None
           \<and> outputs s'' = outputs s @ [SetMotionDetected True, SetMotionDetected True,
                                         SetMotionDetected False, MotionDetectedCallback cb False])"
proof -
  let ?D = CAMERA_TIMEOUT_DURATION
  define s1 where "s1 = after (on_snapshot_close p1) s"
  note c1 = visitor_complete_result [OF p1]
  have r1: "on_snapshot_close p1 s = Inr s1" by (simp add: s1_def after_def c1)
  have f1: "now s1 = now s" "fresh s1 = Suc (fresh s)"
      "timers s1 = (timers s)(fresh s \<mapsto>
         \<lparr>due = now s + ?D, every = None, action = InvalidateMotion\<rparr>)"
      "snapshotProcesses s1 p2 = Some sp2" "outputs s1 = outputs s @ [SetMotionDetected True]"
    using ne by (simp_all add: s1_def after_def c1 p2)
  have e0: "enabled s (SnapshotClose p1)" by (simp add: enabled_def p1)
  have e1: "enabled s1 (Elapse e)"
  proof (rule elapse_enabled [OF e(1)], intro allI impI)
    fix h x assume "timers s1 h = Some x"
    then show "now s1 + e \<le> due x"
      using quiet [rule_format, of h x] e by (auto simp: f1 split: if_splits)
  qed
  define s2 where "s2 = s1\<lparr>now := now s + e\<rparr>"
  have r2: "handle_event (Elapse e) s1 = Inr s2" by (simp add: elapse_run s2_def f1)
  have f2: "now s2 = now s + e" "fresh s2 = Suc (fresh s)"
      "timers s2 = (timers s)(fresh s \<mapsto>
         \<lparr>due = now s + ?D, every = None, action = InvalidateMotion\<rparr>)"
      "snapshotProcesses s2 p2 = Some sp2" "outputs s2 = outputs s @ [SetMotionDetected True]"
    by (simp_all add: s2_def f1)
  have e2: "enabled s2 (SnapshotClose p2)" by (simp add: enabled_def f2)
  define s3 where "s3 = after (on_snapshot_close p2) s2"
  note c3 = visitor_complete_result [OF f2(4) p2(2,3)]
  have r3: "on_snapshot_close p2 s2 = Inr s3" by (simp add: s3_def after_def c3)
  have f3: "now s3 = now s + e" "motionOnCamera (ctx s3)"
      "visitorInfo (ctx s3) = Some (v2\<lparr>snapshot := Some (collected sp2)\<rparr>)"
      "motionTimer (ctx s3) = Some (Suc (fresh s))"
      "timers s3 (fresh s) =
         Some \<lparr>due = now s + ?D, every = None, action = InvalidateMotion\<rparr>"
      "timers s3 (Suc (fresh s)) =
         Some \<lparr>due = now s + e + ?D, every = None, action = InvalidateMotion\<rparr>"
    by (simp_all add: s3_def after_def c3 f2)
  have t3: "timers s3 = (timers s)(fresh s \<mapsto>
         \<lparr>due = now s + ?D, every = None, action = InvalidateMotion\<rparr>,
         Suc (fresh s) \<mapsto> \<lparr>due = now s + e + ?D, every = None, action = InvalidateMotion\<rparr>)"
      "outputs s3 = outputs s @ [SetMotionDetected True, SetMotionDetected True]"
    by (simp_all add: s3_def after_def c3 f2)
  have run: "run [SnapshotClose p1, Elapse e, SnapshotClose p2] s = Some (Inr s3)"
    using e0 e1 e2 r1 r2 r3 by (simp add: handle_event_def)
  have e3: "enabled s3 (Elapse (?D - e))"
  proof (rule elapse_enabled, simp add: e, intro allI impI)
    fix h x assume "timers s3 h = Some x"
    then show "now s3 + (?D - e) \<le> due x"
      using quiet [rule_format, of h x] e by (auto simp: t3 f3 split: if_splits)
  qed
  define s4 where "s4 = s3\<lparr>now := now s + ?D\<rparr>"
  have r4: "handle_event (Elapse (?D - e)) s3 = Inr s4" by (simp add: elapse_run s4_def f3)
  have f4: "timers s4 (fresh s) = Some \<lparr>due = now s + ?D, every = None, action = InvalidateMotion\<rparr>"
      "now s4 = now s + ?D" "motionTimer (ctx s4) = Some (Suc (fresh s))"
      "outputs s4 = outputs s @ [SetMotionDetected True, SetMotionDetected True]"
    by (simp_all add: s4_def f3 t3)
  have e4: "enabled s4 (TimerFires (fresh s))"
    using enabled_timer [OF f4(1)] by (simp add: f4)
  define s5 where "s5 = after (fire (fresh s)) s4"
  note fi = fire_invalidate [OF f4(1)]
  have r5: "handle_event (TimerFires (fresh s)) s4 = Inr s5"
    by (simp add: handle_event_def s5_def after_def fi)
  have f5: "now s5 = now s + ?D" "motion_clear s5" "timers s5 (fresh s) = None"
      "timers s5 (Suc (fresh s)) = None"
      "outputs s5 = outputs s @ [SetMotionDetected True, SetMotionDetected True, SetMotionDetected False]"
    unfolding s5_def after_def fi by (simp_all add: f4 motion_clear_def)
  define s6 where "s6 = s5\<lparr>outputs := outputs s5 @ [MotionDetectedCallback cb False]\<rparr>"
  have r6: "handle_event (MotionDetectedGet cb) s5 = Inr s6"
    using f5(2) by (simp add: handle_event_def motion_get_result s6_def motion_clear_def)
  have f6: "now s6 = now s + ?D" "motion_clear s6" "timers s6 (fresh s) = None"
      "timers s6 (Suc (fresh s)) = None"
      "outputs s6 = outputs s @ [SetMotionDetected True, SetMotionDetected True,
                                 SetMotionDetected False, MotionDetectedCallback cb False]"
    using f5 by (simp_all add: s6_def motion_clear_def)
  have run2: "run [SnapshotClose p1, Elapse e, SnapshotClose p2,
                      Elapse (?D - e), TimerFires (fresh s), MotionDetectedGet cb] s = Some (Inr s6)"
    using e0 e1 e2 e3 e4 r1 r2 r3 r4 r5 r6 by (simp add: handle_event_def enabled_def)
  have a: "\<exists>s'. run [SnapshotClose p1, Elapse e, SnapshotClose p2] s = Some (Inr s')
           \<and> now s' = now s + e
           \<and> motionOnCamera (ctx s')
           \<and> visitorInfo (ctx s') = Some (v2\<lparr>snapshot := Some (collected sp2)\<rparr>)
           \<and> motionTimer (ctx s') = Some (Suc (fresh s))
           \<and> timers s' (fresh s) =
               Some \<lparr>due = now s + ?D, every = None, action = InvalidateMotion\<rparr>
           \<and> timers s' (Suc (fresh s)) =
               Some \<lparr>due = now s + e + ?D, every = None, action = InvalidateMotion\<rparr>"
    using run f3 by blast
  have b: "\<exists>s''. run [SnapshotClose p1, Elapse e, SnapshotClose p2,
                      Elapse (?D - e), TimerFires (fresh s), MotionDetectedGet cb] s = Some (Inr s'')
           \<and> now s'' = now s + ?D
           \<and> motion_clear s''
           \<and> timers s'' (fresh s) = None \<and> timers s'' (Suc (fresh s)) = None
           \<and> outputs s'' = outputs s @ [SetMotionDetected True, SetMotionDetected True,
                                         SetMotionDetected False, MotionDetectedCallback cb False]"
    using run2 f6 by blast
  from a b show ?thesis by (rule conjI)
qed

section \<open>The motion timer of a visitor event\<close>

text \<open>
  Claim C8. What the listeners do: when the picture of a visitor event for this camera
  arrives, the timer recorded in \<open>motionTimer\<close> is cancelled and the padding transcoder is
  started; when that transcoder closes, the visitor information with its snapshot is
  stored, the motion flag is set and a timer of \<open>CAMERA_TIMEOUT_DURATION\<close>, 120 seconds, is
  armed and recorded, no timer being cancelled at this point. That timer can fire once it
  is due; firing clears the visitor information and the motion flag and cancels the timer
  then recorded. A read of the sensor answers with the motion flag, and any run in which
  no visitor event completes leaves a cleared state cleared.

  The claim fails where two visitor events overlap. When the padding transcoders of two
  events are both running, each event's cancellation is already past; the first to close
  arms its timer, the second arms another and leaves the first armed. The first timer
  then clears the state that the second event has set, \<open>e\<close> milliseconds before the 120
  seconds of that event are over, and cancels the second timer (no other timer being
  due in those 120 seconds).
\<close>

theorem motion_timer_of_visitor_event:
  "CAMERA_TIMEOUT_DURATION = 120 * 1000
   \<and> (cameraLocation v = accessoryLocation (ctx s) \<longrightarrow>
        on_visitor_picture v img s =
          Inr (s\<lparr>timers := (case motionTimer (ctx s) of
                                None \<Rightarrow> timers s | Some t \<Rightarrow> (timers s)(t := None)),
                 logged := logged s @
                   [Log Debug (tag s @ ''Snapshot resize command: ffmpeg '' @ padding_args (config s))],
                 fresh := Suc (fresh s),
                 snapshotProcesses := (snapshotProcesses s)(fresh s \<mapsto>
                   \<lparr> role = PadFor v, snapshotArgs = split_ws (padding_args (config s)),
                     inputBuffer = img, collected = [], spawnedAt = now s, answered = False \<rparr>)\<rparr>))
   \<and> (snapshotProcesses s p = Some sp \<and> role sp = PadFor v \<and> \<not> answered sp \<longrightarrow>
        on_snapshot_close p s =
          Inr (s\<lparr>snapshotProcesses := (snapshotProcesses s)(p \<mapsto> sp\<lparr>answered := True\<rparr>),
                 logged := logged s @ [Log Debug ''Creating a new motion detector timer''],
                 fresh := Suc (fresh s),
                 timers := (timers s)(fresh s \<mapsto>
                   \<lparr>due = now s + CAMERA_TIMEOUT_DURATION, every = None, action = InvalidateMotion\<rparr>),
                 ctx := (ctx s)\<lparr>visitorInfo := Some (v\<lparr>snapshot := Some (collected sp)\<rparr>),
                                 motionTimer := Some (fresh s), motionOnCamera := True, init := True\<rparr>,
                 outputs := outputs s @ [SetMotionDetected True]\<rparr>))
   \<and> (timers s h = Some \<lparr>due = d, every = None, action = InvalidateMotion\<rparr> \<longrightarrow>
        enabled s (TimerFires h) = (d \<le> now s)
        \<and> fire h s =
            Inr (s\<lparr>timers := (case motionTimer (ctx s) of
                                  None \<Rightarrow> (timers s)(h := None)
                                | Some t \<Rightarrow> (timers s)(h := None, t := None)),
                   logged := logged s @ [Log Debug ''Invalidating the motion detector timer''],
                   ctx := (ctx s)\<lparr>visitorInfo := None, motionTimer := None, motionOnCamera := False\<rparr>,
                   outputs := outputs s @ [SetMotionDetected False]\<rparr>))
   \<and> (timers s h = Some x \<and> h < fresh s \<and> enabled s (Elapse e) \<longrightarrow> now s + e \<le> due x)
   \<and> on_motion_get cb s =
       Inr (s\<lparr>outputs := outputs s @ [MotionDetectedCallback cb (motionOnCamera (ctx s))]\<rparr>)
   \<and> (run es s = Some (Inr s') \<and> no_visitor_completes es s \<and> motion_clear s \<longrightarrow> motion_clear s')
   \<and> (snapshotProcesses s p1 = Some sp1 \<and> role sp1 = PadFor v1 \<and> \<not> answered sp1
        \<and> snapshotProcesses s p2 = Some sp2 \<and> role sp2 = PadFor v2 \<and> \<not> answered sp2
        \<and> p1 \<noteq> p2 \<and> 0 \<le> e \<and> e \<le> CAMERA_TIMEOUT_DURATION
        \<and> (\<forall>h x. timers s h = Some x \<longrightarrow> now s + CAMERA_TIMEOUT_DURATION \<le> due x) \<longrightarrow>
        (\<exists>s'. run [SnapshotClose p1, Elapse e, SnapshotClose p2] s = Some (Inr s')
           \<and> now s' = now s + e
           \<and> motionOnCamera (ctx s')
           \<and> visitorInfo (ctx s') = Some (v2\<lparr>snapshot := Some (collected sp2)\<rparr>)
           \<and> motionTimer (ctx s') = Some (Suc (fresh s))
           \<and> timers s' (fresh s) =
               Some \<lparr>due = now s + CAMERA_TIMEOUT_DURATION, every = None, action = InvalidateMotion\<rparr>
           \<and> timers s' (Suc (fresh s)) =
               Some \<lparr>due = now s + e + CAMERA_TIMEOUT_DURATION, every = None, action = InvalidateMotion\<rparr>)
        \<and> (\<exists>s''. run [SnapshotClose p1, Elapse e, SnapshotClose p2,
                      Elapse (CAMERA_TIMEOUT_DURATION - e), TimerFires (fresh s),
                      MotionDetectedGet cb] s = Some (Inr s'')
           \<and> now s'' = now s + CAMERA_TIMEOUT_DURATION
           \<and> motion_clear s''
           \<and> timers s'' (fresh s) = None \<and> timers s'' (Suc (fresh s)) = None
           \<and> outputs s'' = outputs s @ [SetMotionDetected True, SetMotionDetected True,
                                         SetMotionDetected False, MotionDetectedCallback cb False]))"
proof (intro conjI impI; (elim conjE)?)
  show "CAMERA_TIMEOUT_DURATION = 120 * 1000" by (simp add: CAMERA_TIMEOUT_DURATION_def)
  show "on_motion_get cb s =
       Inr (s\<lparr>outputs := outputs s @ [MotionDetectedCallback cb (motionOnCamera (ctx s))]\<rparr>)"
    by (rule motion_get_result)
next
  assume "cameraLocation v = accessoryLocation (ctx s)"
  then show "on_visitor_picture v img s =
          Inr (s\<lparr>timers := (case motionTimer (ctx s) of
                                None \<Rightarrow> timers s | Some t \<Rightarrow> (timers s)(t := None)),
                 logged := logged s @
                   [Log Debug (tag s @ ''Snapshot resize command: ffmpeg '' @ padding_args (config s))],
                 fresh := Suc (fresh s),
                 snapshotProcesses := (snapshotProcesses s)(fresh s \<mapsto>
                   \<lparr> role = PadFor v, snapshotArgs = split_ws (padding_args (config s)),
                     inputBuffer = img, collected = [], spawnedAt = now s, answered = False \<rparr>)\<rparr>)"
    by (rule visitor_picture_result)
next
  assume "snapshotProcesses s p = Some sp" "role sp = PadFor v" "\<not> answered sp"
  then show "on_snapshot_close p s =
          Inr (s\<lparr>snapshotProcesses := (snapshotProcesses s)(p \<mapsto> sp\<lparr>answered := True\<rparr>),
                 logged := logged s @ [Log Debug ''Creating a new motion detector timer''],
                 fresh := Suc (fresh s),
                 timers := (timers s)(fresh s \<mapsto>
                   \<lparr>due = now s + CAMERA_TIMEOUT_DURATION, every = None, action = InvalidateMotion\<rparr>),
                 ctx := (ctx s)\<lparr>visitorInfo := Some (v\<lparr>snapshot := Some (collected sp)\<rparr>),
                                 motionTimer := Some (fresh s), motionOnCamera := True, init := True\<rparr>,
                 outputs := outputs s @ [SetMotionDetected True]\<rparr>)"
    by (rule visitor_complete_result)
next
  assume t: "timers s h = Some \<lparr>due = d, every = None, action = InvalidateMotion\<rparr>"
  show "enabled s (TimerFires h) = (d \<le> now s)"
    using enabled_timer [OF t] by simp
next
  assume t: "timers s h = Some \<lparr>due = d, every = None, action = InvalidateMotion\<rparr>"
  show "fire h s =
            Inr (s\<lparr>timers := (case motionTimer (ctx s) of
                                  None \<Rightarrow> (timers s)(h := None)
                                | Some t \<Rightarrow> (timers s)(h := None, t := None)),
                   logged := logged s @ [Log Debug ''Invalidating the motion detector timer''],
                   ctx := (ctx s)\<lparr>visitorInfo := None, motionTimer := None, motionOnCamera := False\<rparr>,
                   outputs := outputs s @ [SetMotionDetected False]\<rparr>)"
    by (rule fire_invalidate [OF t])
next
  assume "timers s h = Some x" "h < fresh s" "enabled s (Elapse e)"
  then show "now s + e \<le> due x" using elapse_bounded by blast
next
  assume "run es s = Some (Inr s')" "no_visitor_completes es s" "motion_clear s"
  then show "motion_clear s'" by (rule run_keeps_clear)
next
  assume a: "snapshotProcesses s p1 = Some sp1" "role sp1 = PadFor v1" "\<not> answered sp1"
    "snapshotProcesses s p2 = Some sp2" "role sp2 = PadFor v2" "\<not> answered sp2"
    "p1 \<noteq> p2" "0 \<le> e" "e \<le> CAMERA_TIMEOUT_DURATION"
    "\<forall>h x. timers s h = Some x \<longrightarrow> now s + CAMERA_TIMEOUT_DURATION \<le> due x"
  note o = overlapping_visitors [OF a, of cb]
  show "\<exists>s'. run [SnapshotClose p1, Elapse e, SnapshotClose p2] s = Some (Inr s')
           \<and> now s' = now s + e
           \<and> motionOnCamera (ctx s')
           \<and> visitorInfo (ctx s') = Some (v2\<lparr>snapshot := Some (collected sp2)\<rparr>)
           \<and> motionTimer (ctx s') = Some (Suc (fresh s))
           \<and> timers s' (fresh s) =
               Some \<lparr>due = now s + CAMERA_TIMEOUT_DURATION, every = None, action = InvalidateMotion\<rparr>
           \<and> timers s' (Suc (fresh s)) =
               Some \<lparr>due = now s + e + CAMERA_TIMEOUT_DURATION, every = None, action = InvalidateMotion\<rparr>"
    by (rule o [THEN conjunct1])
  show "\<exists>s''. run [SnapshotClose p1, Elapse e, SnapshotClose p2,
                      Elapse (CAMERA_TIMEOUT_DURATION - e), TimerFires (fresh s),
                      MotionDetectedGet cb] s = Some (Inr s'')
           \<and> now s'' = now s + CAMERA_TIMEOUT_DURATION
           \<and> motion_clear s''
           \<and> timers s'' (fresh s) = None \<and> timers s'' (Suc (fresh s)) = None
           \<and> outputs s'' = outputs s @ [SetMotionDetected True, SetMotionDetected True,
                                         SetMotionDetected False, MotionDetectedCallback cb False]"
    by (rule o [THEN conjunct2])
qed

lemma demo_location:
  "cameraLocation demo_visitor = accessoryLocation (ctx demo_world)"
  "cameraLocation demo_visitor_later = accessoryLocation (ctx demo_world)"
  by (simp_all add: demo_visitor_def demo_visitor_later_def demo_world_def initial_def)

lemma demo_world_motion:
  "motionTimer (ctx demo_world) = None" "\<not> motionOnCamera (ctx demo_world)"
  "visitorInfo (ctx demo_world) = None"
  by (simp_all add: demo_world_def initial_def)

lemma demo_first_picture:
  "on_visitor_picture demo_visitor [16, 32, 48] demo_world =
     Inr (demo_world\<lparr>logged := [Log Debug (tag demo_world @ ''Snapshot resize command: ffmpeg ''
                                   @ padding_args (config demo_world))],
            fresh := 1,
            snapshotProcesses := [0 \<mapsto> pad_process demo_visitor [16, 32, 48] []]\<rparr>)"
  by (simp add: visitor_picture_result [OF demo_location(1)] demo_world_motion demo_world_fields
        pad_process_def)

lemma demo_two_pictures_eq:
  "\<exists>l. demo_two_pictures =
     demo_world\<lparr>logged := l, fresh := 2,
       snapshotProcesses := [0 \<mapsto> pad_process demo_visitor [16, 32, 48] [7],
                             1 \<mapsto> pad_process demo_visitor_later [64, 80, 96] [8]]\<rparr>"
proof -
  define s1 where "s1 = demo_world\<lparr>logged := [Log Debug (tag demo_world @ ''Snapshot resize command: ffmpeg ''
                                   @ padding_args (config demo_world))],
            fresh := 1,
            snapshotProcesses := [0 \<mapsto> pad_process demo_visitor [16, 32, 48] []]\<rparr>"
  have r1: "handle_event (VisitorPicture demo_visitor [16, 32, 48]) demo_world = Inr s1"
    by (simp add: handle_event_def demo_first_picture s1_def)
  have l1: "cameraLocation demo_visitor_later = accessoryLocation (ctx s1)"
    using demo_location(2) by (simp add: s1_def)
  define s2 where "s2 = after (on_visitor_picture demo_visitor_later [64, 80, 96]) s1"
  have r2: "handle_event (VisitorPicture demo_visitor_later [64, 80, 96]) s1 = Inr s2"
    by (simp add: handle_event_def s2_def after_def visitor_picture_result [OF l1])
  have e2: "s2 = demo_world\<lparr>logged := logged s2, fresh := 2,
       snapshotProcesses := [0 \<mapsto> pad_process demo_visitor [16, 32, 48] [],
                             1 \<mapsto> pad_process demo_visitor_later [64, 80, 96] []]\<rparr>"
    unfolding s2_def after_def visitor_picture_result [OF l1]
    by (simp add: s1_def demo_world_motion demo_world_fields pad_process_def numeral_2_eq_2)
  define s3 where "s3 = after (on_snapshot_stdout 0 [7]) s2"
  have p2: "snapshotProcesses s2 0 = Some (pad_process demo_visitor [16, 32, 48] [])"
      "snapshotProcesses s2 1 = Some (pad_process demo_visitor_later [64, 80, 96] [])"
    by (subst e2, simp)+
  have r3: "handle_event (SnapshotStdout 0 [7]) s2 = Inr s3"
    by (simp add: handle_event_def s3_def after_def on_snapshot_stdout_def p2)
  have e3: "s3 = demo_world\<lparr>logged := logged s2, fresh := 2,
       snapshotProcesses := [0 \<mapsto> pad_process demo_visitor [16, 32, 48] [7],
                             1 \<mapsto> pad_process demo_visitor_later [64, 80, 96] []]\<rparr>"
    unfolding s3_def after_def on_snapshot_stdout_def p2 option.case
    by (subst (1 2) e2) (simp add: pad_process_def fun_upd_twist)
  have p3: "snapshotProcesses s3 0 = Some (pad_process demo_visitor [16, 32, 48] [7])"
      "snapshotProcesses s3 1 = Some (pad_process demo_visitor_later [64, 80, 96] [])"
    by (subst e3, simp)+
  define s4 where "s4 = after (on_snapshot_stdout 1 [8]) s3"
  have r4: "handle_event (SnapshotStdout 1 [8]) s3 = Inr s4"
    by (simp add: handle_event_def s4_def after_def on_snapshot_stdout_def p3 del: One_nat_def)
  have e4: "s4 = demo_world\<lparr>logged := logged s2, fresh := 2,
       snapshotProcesses := [0 \<mapsto> pad_process demo_visitor [16, 32, 48] [7],
                             1 \<mapsto> pad_process demo_visitor_later [64, 80, 96] [8]]\<rparr>"
    unfolding s4_def after_def on_snapshot_stdout_def p3 option.case
    by (subst (1 2) e3) (simp add: pad_process_def)
  have en: "enabled s2 (SnapshotStdout 0 [7])" "enabled s3 (SnapshotStdout 1 [8])"
    by (simp_all add: enabled_def p2 p3 del: One_nat_def)
  have "run [VisitorPicture demo_visitor [16, 32, 48], VisitorPicture demo_visitor_later [64, 80, 96],
                SnapshotStdout 0 [7], SnapshotStdout 1 [8]] demo_world = Some (Inr s4)"
    using r1 r2 r3 r4 en by (simp add: enabled_def)
  then have "demo_two_pictures = s4" by (simp add: demo_two_pictures_def after_run_def)
  with e4 show ?thesis by blast
qed

lemma demo_two_pictures_fields:
  "snapshotProcesses demo_two_pictures 0 = Some (pad_process demo_visitor [16, 32, 48] [7])"
  "snapshotProcesses demo_two_pictures 1 = Some (pad_process demo_visitor_later [64, 80, 96] [8])"
  "timers demo_two_pictures = Map.empty" "fresh demo_two_pictures = 2" "now demo_two_pictures = 0"
  "outputs demo_two_pictures = []" "motionTimer (ctx demo_two_pictures) = None"
proof -
  obtain l where e: "demo_two_pictures =
     demo_world\<lparr>logged := l, fresh := 2,
       snapshotProcesses := [0 \<mapsto> pad_process demo_visitor [16, 32, 48] [7],
                             1 \<mapsto> pad_process demo_visitor_later [64, 80, 96] [8]]\<rparr>"
    using demo_two_pictures_eq by blast
  show "snapshotProcesses demo_two_pictures 0 = Some (pad_process demo_visitor [16, 32, 48] [7])"
    by (subst e) simp
  show "snapshotProcesses demo_two_pictures 1 = Some (pad_process demo_visitor_later [64, 80, 96] [8])"
    by (subst e) simp
  show "timers demo_two_pictures = Map.empty" by (subst e) (simp add: demo_world_fields)
  show "fresh demo_two_pictures = 2" by (subst e) simp
  show "now demo_two_pictures = 0" by (subst e) (simp add: demo_world_fields)
  show "outputs demo_two_pictures = []" by (subst e) (simp add: demo_world_fields)
  show "motionTimer (ctx demo_two_pictures) = None" by (subst e) (simp add: demo_world_motion)
qed

lemma demo_visited_eq:
  "\<exists>l. demo_visited =
     demo_world\<lparr>logged := l, fresh := 2,
       snapshotProcesses := [0 \<mapsto> (pad_process demo_visitor [16, 32, 48] [7])\<lparr>answered := True\<rparr>],
       timers := [1 \<mapsto> \<lparr>due = 120000, every = None, action = InvalidateMotion\<rparr>],
       ctx := (ctx demo_world)\<lparr>visitorInfo := Some (demo_visitor\<lparr>snapshot := Some [7]\<rparr>),
                                 motionTimer := Some 1, motionOnCamera := True, init := True\<rparr>,
       outputs := [SetMotionDetected True]\<rparr>"
proof -
  define s1 where "s1 = demo_world\<lparr>logged := [Log Debug (tag demo_world @ ''Snapshot resize command: ffmpeg ''
                                   @ padding_args (config demo_world))],
            fresh := 1,
            snapshotProcesses := [0 \<mapsto> pad_process demo_visitor [16, 32, 48] []]\<rparr>"
  have r1: "handle_event (VisitorPicture demo_visitor [16, 32, 48]) demo_world = Inr s1"
    by (simp add: handle_event_def demo_first_picture s1_def)
  have p1: "snapshotProcesses s1 0 = Some (pad_process demo_visitor [16, 32, 48] [])"
    by (simp add: s1_def)
  define s2 where "s2 = s1\<lparr>snapshotProcesses := [0 \<mapsto> pad_process demo_visitor [16, 32, 48] [7]]\<rparr>"
  have r2: "handle_event (SnapshotStdout 0 [7]) s1 = Inr s2"
    by (simp add: handle_event_def on_snapshot_stdout_def p1 s2_def) (simp add: s1_def pad_process_def)
  have p2: "snapshotProcesses s2 0 = Some (pad_process demo_visitor [16, 32, 48] [7])"
      "role (pad_process demo_visitor [16, 32, 48] [7]) = PadFor demo_visitor"
      "\<not> answered (pad_process demo_visitor [16, 32, 48] [7])"
    by (simp_all add: s2_def pad_process_def)
  define s3 where "s3 = after (on_snapshot_close 0) s2"
  note c = visitor_complete_result [OF p2]
  have r3: "handle_event (SnapshotClose 0) s2 = Inr s3"
    by (simp add: handle_event_def s3_def after_def c)
  have e3: "s3 = demo_world\<lparr>logged := logged s3, fresh := 2,
       snapshotProcesses := [0 \<mapsto> (pad_process demo_visitor [16, 32, 48] [7])\<lparr>answered := True\<rparr>],
       timers := [1 \<mapsto> \<lparr>due = 120000, every = None, action = InvalidateMotion\<rparr>],
       ctx := (ctx demo_world)\<lparr>visitorInfo := Some (demo_visitor\<lparr>snapshot := Some [7]\<rparr>),
                                 motionTimer := Some 1, motionOnCamera := True, init := True\<rparr>,
       outputs := [SetMotionDetected True]\<rparr>"
    unfolding s3_def after_def c
    by (simp add: s2_def s1_def demo_world_fields pad_process_def numeral_2_eq_2
          CAMERA_TIMEOUT_DURATION_def)
  have en: "enabled s1 (SnapshotStdout 0 [7])" "enabled s2 (SnapshotClose 0)"
    by (simp_all add: enabled_def p1 p2)
  have "run [VisitorPicture demo_visitor [16, 32, 48], SnapshotStdout 0 [7], SnapshotClose 0] demo_world
      = Some (Inr s3)"
    using r1 r2 r3 en by (simp add: enabled_def)
  then have "demo_visited = s3" by (simp add: demo_visited_def after_run_def)
  with e3 show ?thesis by blast
qed

lemma demo_visited_fields:
  "timers demo_visited = [1 \<mapsto> \<lparr>due = 120000, every = None, action = InvalidateMotion\<rparr>]"
  "motionTimer (ctx demo_visited) = Some 1" "motionOnCamera (ctx demo_visited)"
  "visitorInfo (ctx demo_visited) = Some (demo_visitor\<lparr>snapshot := Some [7]\<rparr>)"
  "fresh demo_visited = 2" "now demo_visited = 0"
  "accessoryLocation (ctx demo_visited) = accessoryLocation (ctx demo_world)"
  "config demo_visited = defaultVideoConfig" "outputs demo_visited = [SetMotionDetected True]"
  "snapshotProcesses demo_visited 2 = None"
proof -
  obtain l where e: "demo_visited =
     demo_world\<lparr>logged := l, fresh := 2,
       snapshotProcesses := [0 \<mapsto> (pad_process demo_visitor [16, 32, 48] [7])\<lparr>answered := True\<rparr>],
       timers := [1 \<mapsto> \<lparr>due = 120000, every = None, action = InvalidateMotion\<rparr>],
       ctx := (ctx demo_world)\<lparr>visitorInfo := Some (demo_visitor\<lparr>snapshot := Some [7]\<rparr>),
                                 motionTimer := Some 1, motionOnCamera := True, init := True\<rparr>,
       outputs := [SetMotionDetected True]\<rparr>"
    using demo_visited_eq by blast
  show "timers demo_visited = [1 \<mapsto> \<lparr>due = 120000, every = None, action = InvalidateMotion\<rparr>]"
    by (subst e) simp
  show "motionTimer (ctx demo_visited) = Some 1" by (subst e) simp
  show "motionOnCamera (ctx demo_visited)" by (subst e) simp
  show "visitorInfo (ctx demo_visited) = Some (demo_visitor\<lparr>snapshot := Some [7]\<rparr>)" by (subst e) simp
  show "fresh demo_visited = 2" by (subst e) simp
  show "now demo_visited = 0" by (subst e) (simp add: demo_world_fields)
  show "accessoryLocation (ctx demo_visited) = accessoryLocation (ctx demo_world)" by (subst e) simp
  show "config demo_visited = defaultVideoConfig" by (subst e) (simp add: demo_world_fields)
  show "outputs demo_visited = [SetMotionDetected True]" by (subst e) simp
  show "snapshotProcesses demo_visited 2 = None" by (subst e) simp
qed

theorem motion_timer_of_visitor_event_witness:
  "cameraLocation demo_visitor_later = accessoryLocation (ctx demo_visited)
   \<and> motionTimer (ctx demo_visited) = Some 1
   \<and> timers demo_visited 1 = Some \<lparr>due = 120000, every = None, action = InvalidateMotion\<rparr>
   \<and> (\<exists>s'. on_visitor_picture demo_visitor_later [64, 80, 96] demo_visited = Inr s'
          \<and> timers s' 1 = None
          \<and> snapshotProcesses s' 2 = Some (pad_process demo_visitor_later [64, 80, 96] []))
   \<and> snapshotProcesses demo_two_pictures 0 = Some (pad_process demo_visitor [16, 32, 48] [7])
   \<and> snapshotProcesses demo_two_pictures 1 = Some (pad_process demo_visitor_later [64, 80, 96] [8])
   \<and> (\<exists>s'. on_snapshot_close 0 demo_two_pictures = Inr s'
          \<and> timers s' 2 = Some \<lparr>due = 120000, every = None, action = InvalidateMotion\<rparr>
          \<and> motionTimer (ctx s') = Some 2 \<and> motionOnCamera (ctx s')
          \<and> visitorInfo (ctx s') = Some (demo_visitor\<lparr>snapshot := Some [7]\<rparr>))
   \<and> \<not> enabled demo_visited (TimerFires 1)
   \<and> enabled (demo_visited\<lparr>now := 120000\<rparr>) (TimerFires 1)
   \<and> (\<exists>s'. fire 1 (demo_visited\<lparr>now := 120000\<rparr>) = Inr s'
          \<and> \<not> motionOnCamera (ctx s') \<and> visitorInfo (ctx s') = None \<and> timers s' 1 = None
          \<and> outputs s' = [SetMotionDetected True, SetMotionDetected False])
   \<and> enabled demo_visited (Elapse 120000)
   \<and> now demo_visited + 120000 \<le> 120000
   \<and> (\<exists>s'. on_motion_get 5 demo_visited = Inr s'
          \<and> outputs s' = [SetMotionDetected True, MotionDetectedCallback 5 True])
   \<and> motion_clear demo_world
   \<and> no_visitor_completes [MotionDetectedGet 5, Elapse 1000, Shutdown, MotionDetectedGet 6] demo_world
   \<and> (\<exists>s'. run [MotionDetectedGet 5, Elapse 1000, Shutdown, MotionDetectedGet 6] demo_world = Some (Inr s')
          \<and> motion_clear s')
   \<and> (\<exists>s'. run [SnapshotClose 0, Elapse 500, SnapshotClose 1] demo_two_pictures = Some (Inr s')
          \<and> now s' = 500
          \<and> motionOnCamera (ctx s')
          \<and> visitorInfo (ctx s') = Some (demo_visitor_later\<lparr>snapshot := Some [8]\<rparr>)
          \<and> motionTimer (ctx s') = Some 3
          \<and> timers s' 2 = Some \<lparr>due = 120000, every = None, action = InvalidateMotion\<rparr>
          \<and> timers s' 3 = Some \<lparr>due = 120500, every = None, action = InvalidateMotion\<rparr>)
   \<and> (\<exists>s''. run [SnapshotClose 0, Elapse 500, SnapshotClose 1, Elapse 119500, TimerFires 2,
                  MotionDetectedGet 9] demo_two_pictures = Some (Inr s'')
          \<and> now s'' = 120000
          \<and> motion_clear s''
          \<and> timers s'' 2 = None \<and> timers s'' 3 = None
          \<and> outputs s'' = [SetMotionDetected True, SetMotionDetected True,
                            SetMotionDetected False, MotionDetectedCallback 9 False])"
proof -
  define tm where "tm = \<lparr>due = 120000, every = None, action = InvalidateMotion\<rparr>"
  have D: "CAMERA_TIMEOUT_DURATION = 120000" by (simp add: CAMERA_TIMEOUT_DURATION_def)
  have a0: "cameraLocation demo_visitor_later = accessoryLocation (ctx demo_visited)"
    by (simp add: demo_visited_fields demo_location)
  have a1: "motionTimer (ctx demo_visited) = Some 1" by (rule demo_visited_fields)
  have t1: "timers demo_visited 1 = Some \<lparr>due = 120000, every = None, action = InvalidateMotion\<rparr>"
    by (simp add: demo_visited_fields)
  have a2: "\<exists>s'. on_visitor_picture demo_visitor_later [64, 80, 96] demo_visited = Inr s'
          \<and> timers s' 1 = None
          \<and> snapshotProcesses s' 2 = Some (pad_process demo_visitor_later [64, 80, 96] [])"
    using motion_timer_of_visitor_event [where s = demo_visited and v = demo_visitor_later
        and img = "[64, 80, 96]", THEN conjunct2, THEN conjunct1, rule_format, OF a0]
    by (simp add: demo_visited_fields pad_process_def )
  have p0: "snapshotProcesses demo_two_pictures 0 = Some (pad_process demo_visitor [16, 32, 48] [7])"
    by (rule demo_two_pictures_fields)
  have p1: "snapshotProcesses demo_two_pictures 1 = Some (pad_process demo_visitor_later [64, 80, 96] [8])"
    by (rule demo_two_pictures_fields)
  have q0: "role (pad_process demo_visitor [16, 32, 48] [7]) = PadFor demo_visitor"
      "\<not> answered (pad_process demo_visitor [16, 32, 48] [7])"
      "collected (pad_process demo_visitor [16, 32, 48] [7]) = [7]"
    by (simp_all add: pad_process_def)
  have q1: "role (pad_process demo_visitor_later [64, 80, 96] [8]) = PadFor demo_visitor_later"
      "\<not> answered (pad_process demo_visitor_later [64, 80, 96] [8])"
      "collected (pad_process demo_visitor_later [64, 80, 96] [8]) = [8]"
    by (simp_all add: pad_process_def)
  have b: "\<exists>s'. on_snapshot_close 0 demo_two_pictures = Inr s'
          \<and> timers s' 2 = Some \<lparr>due = 120000, every = None, action = InvalidateMotion\<rparr>
          \<and> motionTimer (ctx s') = Some 2 \<and> motionOnCamera (ctx s')
          \<and> visitorInfo (ctx s') = Some (demo_visitor\<lparr>snapshot := Some [7]\<rparr>)"
    using motion_timer_of_visitor_event [where s = demo_two_pictures and p = 0
        and sp = "pad_process demo_visitor [16, 32, 48] [7]" and v = demo_visitor,
        THEN conjunct2, THEN conjunct2, THEN conjunct1, rule_format,
        OF conjI [OF p0 conjI [OF q0(1,2)]]]
    by (simp add: demo_two_pictures_fields D q0)
  note C = motion_timer_of_visitor_event [where s = demo_visited and h = 1 and d = 120000,
        THEN conjunct2, THEN conjunct2, THEN conjunct2, THEN conjunct1, rule_format, OF t1]
  have c1: "\<not> enabled demo_visited (TimerFires 1)"
    using C by (simp add: demo_visited_fields)
  have t1': "timers (demo_visited\<lparr>now := 120000\<rparr>) 1 =
      Some \<lparr>due = 120000, every = None, action = InvalidateMotion\<rparr>"
    using t1 by simp
  note C' = motion_timer_of_visitor_event [where s = "demo_visited\<lparr>now := 120000\<rparr>" and h = 1
        and d = 120000,
        THEN conjunct2, THEN conjunct2, THEN conjunct2, THEN conjunct1, rule_format, OF t1']
  have c2: "enabled (demo_visited\<lparr>now := 120000\<rparr>) (TimerFires 1)"
    using C' by simp
  have c3: "\<exists>s'. fire 1 (demo_visited\<lparr>now := 120000\<rparr>) = Inr s'
          \<and> \<not> motionOnCamera (ctx s') \<and> visitorInfo (ctx s') = None \<and> timers s' 1 = None
          \<and> outputs s' = [SetMotionDetected True, SetMotionDetected False]"
    using C' by (simp add: demo_visited_fields)
  have d0: "enabled demo_visited (Elapse 120000)"
    by (rule elapse_enabled) (simp_all add: demo_visited_fields)
  have d1: "now demo_visited + 120000 \<le> 120000"
    using motion_timer_of_visitor_event [where s = demo_visited and h = 1 and e = 120000
        and x = "\<lparr>due = 120000, every = None, action = InvalidateMotion\<rparr>",
        THEN conjunct2, THEN conjunct2, THEN conjunct2, THEN conjunct2, THEN conjunct1, rule_format,
        OF conjI [OF t1 conjI [OF _ d0]]]
    by (simp add: demo_visited_fields)
  have g: "\<exists>s'. on_motion_get 5 demo_visited = Inr s'
          \<and> outputs s' = [SetMotionDetected True, MotionDetectedCallback 5 True]"
    using motion_timer_of_visitor_event [where s = demo_visited and cb = 5,
        THEN conjunct2, THEN conjunct2, THEN conjunct2, THEN conjunct2, THEN conjunct2, THEN conjunct1]
    by (simp add: demo_visited_fields)
  have m0: "motion_clear demo_world" by (simp add: motion_clear_def demo_world_motion)
  define t where "t = after_run [MotionDetectedGet 5, Elapse 1000, Shutdown, MotionDetectedGet 6] demo_world"
  have rn: "run [MotionDetectedGet 5, Elapse 1000, Shutdown, MotionDetectedGet 6] demo_world = Some (Inr t)"
    unfolding t_def after_run_def
    by (simp add: enabled_def handle_event_def on_motion_get_def on_shutdown_def no_timer_before_def
          demo_world_fields demo_world_motion)
  have nv: "no_visitor_completes [MotionDetectedGet 5, Elapse 1000, Shutdown, MotionDetectedGet 6] demo_world"
    by (simp add: completes_visitor_def handle_event_def on_motion_get_def on_shutdown_def
          demo_world_motion)
  have m1: "\<exists>s'. run [MotionDetectedGet 5, Elapse 1000, Shutdown, MotionDetectedGet 6] demo_world = Some (Inr s')
          \<and> motion_clear s'"
    using motion_timer_of_visitor_event [where s = demo_world and s' = t
        and es = "[MotionDetectedGet 5, Elapse 1000, Shutdown, MotionDetectedGet 6]",
        THEN conjunct2, THEN conjunct2, THEN conjunct2, THEN conjunct2, THEN conjunct2,
        THEN conjunct2, THEN conjunct1, rule_format, OF conjI [OF rn conjI [OF nv m0]]] rn
    by blast
  have ne: "(0 :: nat) \<noteq> 1" by simp
  have e5: "(0 :: rat) \<le> 500" "500 \<le> CAMERA_TIMEOUT_DURATION" by (simp_all add: D)
  have qu: "\<forall>h x. timers demo_two_pictures h = Some x \<longrightarrow>
      now demo_two_pictures + CAMERA_TIMEOUT_DURATION \<le> due x"
    by (simp add: demo_two_pictures_fields)
  note F = motion_timer_of_visitor_event [where s = demo_two_pictures and ?p1.0 = 0 and ?p2.0 = 1
        and ?sp1.0 = "pad_process demo_visitor [16, 32, 48] [7]"
        and ?sp2.0 = "pad_process demo_visitor_later [64, 80, 96] [8]"
        and ?v1.0 = demo_visitor and ?v2.0 = demo_visitor_later and e = 500 and cb = 9,
        THEN conjunct2, THEN conjunct2, THEN conjunct2, THEN conjunct2, THEN conjunct2,
        THEN conjunct2, THEN conjunct2, rule_format,
        OF conjI [OF p0 conjI [OF q0(1) conjI [OF q0(2) conjI [OF p1 conjI [OF q1(1)
           conjI [OF q1(2) conjI [OF ne conjI [OF e5(1) conjI [OF e5(2) qu]]]]]]]]]]
  have f1: "\<exists>s'. run [SnapshotClose 0, Elapse 500, SnapshotClose 1] demo_two_pictures = Some (Inr s')
          \<and> now s' = 500
          \<and> motionOnCamera (ctx s')
          \<and> visitorInfo (ctx s') = Some (demo_visitor_later\<lparr>snapshot := Some [8]\<rparr>)
          \<and> motionTimer (ctx s') = Some 3
          \<and> timers s' 2 = Some \<lparr>due = 120000, every = None, action = InvalidateMotion\<rparr>
          \<and> timers s' 3 = Some \<lparr>due = 120500, every = None, action = InvalidateMotion\<rparr>"
    using F [THEN conjunct1]
    by (simp del: run.simps add: demo_two_pictures_fields D q1)
  have f2: "\<exists>s''. run [SnapshotClose 0, Elapse 500, SnapshotClose 1, Elapse 119500, TimerFires 2,
                  MotionDetectedGet 9] demo_two_pictures = Some (Inr s'')
          \<and> now s'' = 120000
          \<and> motion_clear s''
          \<and> timers s'' 2 = None \<and> timers s'' 3 = None
          \<and> outputs s'' = [SetMotionDetected True, SetMotionDetected True,
                            SetMotionDetected False, MotionDetectedCallback 9 False]"
    using F [THEN conjunct2]
    by (simp del: run.simps add: demo_two_pictures_fields D)
  from a0 a1 t1 a2 p0 p1 b c1 c2 c3 d0 d1 g m0 nv m1 f1 f2
  show ?thesis by (intro conjI)
qed

end
